theory Spec2Isabelle
  imports Main
begin

section \<open>JavaScript values and strings\<close>

text \<open>
  A JavaScript string is a sequence of UTF-16 code units; a code unit is modelled as a
  natural number. The literals of \<^verbatim>\<open>Code.js\<close> that are plain ASCII are written with
  \<open>ascii\<close>; the Japanese literals are written out as their code units.
\<close>

type_synonym jsstring = "nat list"

definition ascii :: "string \<Rightarrow> jsstring" where
  "ascii s = map of_char s"

text \<open>
  The values a client call can hand to a server function: \<open>undefined\<close>, \<open>null\<close>,
  booleans, numbers, strings, and plain objects or arrays. \<open>JNum n\<close> is the
  integer-valued number \<open>n\<close>; \<open>JObj s\<close> is an object or array whose conversion to a
  string gives \<open>s\<close>. Fractional numbers and \<open>NaN\<close> are not represented.
\<close>

datatype jsval = JUndefined | JNull | JBool bool | JNum int | JStr jsstring | JObj jsstring

text \<open>\<open>!v\<close> is \<open>\<not> truthy v\<close>.\<close>

fun truthy :: "jsval \<Rightarrow> bool" where
  "truthy JUndefined = False"
| "truthy JNull = False"
| "truthy (JBool b) = b"
| "truthy (JNum n) = (n \<noteq> 0)"
| "truthy (JStr s) = (s \<noteq> [])"
| "truthy (JObj s) = True"

text \<open>\<open>typeof v === 'string'\<close>.\<close>

fun isString :: "jsval \<Rightarrow> bool" where
  "isString (JStr s) = True"
| "isString v = False"

fun decimal :: "nat \<Rightarrow> jsstring" where
  "decimal n = (if n < 10 then [48 + n] else decimal (n div 10) @ [48 + n mod 10])"

declare decimal.simps [simp del]

definition intToString :: "int \<Rightarrow> jsstring" where
  "intToString i = (if i < 0 then 45 # decimal (nat (- i)) else decimal (nat i))"

text \<open>
  Line terminators (what \<open>.\<close> of a regular expression does not match) and the white
  space that \<open>String.prototype.trim\<close> strips (white space and line terminators).
\<close>

definition isLineTerminator :: "nat \<Rightarrow> bool" where
  "isLineTerminator c = (c = 10 \<or> c = 13 \<or> c = 8232 \<or> c = 8233)"

definition isWhiteSpace :: "nat \<Rightarrow> bool" where
  "isWhiteSpace c =
     (c = 9 \<or> c = 11 \<or> c = 12 \<or> c = 32 \<or> c = 160 \<or> c = 5760 \<or>
      (8192 \<le> c \<and> c \<le> 8202) \<or> c = 8239 \<or> c = 8287 \<or> c = 12288 \<or> c = 65279 \<or>
      isLineTerminator c)"

definition trim :: "jsstring \<Rightarrow> jsstring" where
  "trim s = rev (dropWhile isWhiteSpace (rev (dropWhile isWhiteSpace s)))"

definition startsWith :: "jsstring \<Rightarrow> jsstring \<Rightarrow> bool" where
  "startsWith s p = (take (length p) s = p)"

definition endsWith :: "jsstring \<Rightarrow> jsstring \<Rightarrow> bool" where
  "endsWith s p = (length p \<le> length s \<and> drop (length s - length p) s = p)"

text \<open>
  What the platform computes and the repository does not define. Case conversion of a
  string of ASCII code units is written out below; for any other string it is the
  platform's Unicode conversion. \<open>bigNumberToString\<close> is the conversion to a string of
  a number of magnitude \<open>2 ^ 53\<close> or more, which JavaScript prints in its shortest
  round-trip form (\<open>9223372036854776000\<close> for \<open>2 ^ 63\<close>) or with an exponent
  (\<open>1e+21\<close>). \<open>base64Decode\<close> is \<^verbatim>\<open>Utilities.base64Decode\<close>
  (\<open>None\<close> when it throws), \<open>stringEqualsOne s\<close> says whether the string \<open>s\<close>
  converts to the number 1 (for \<open>s == 1\<close>), and \<open>urlOf\<close> is the URL the platform
  gives the Drive item with an identifier.
\<close>

record platform =
  unicodeLower :: "jsstring \<Rightarrow> jsstring"
  unicodeUpper :: "jsstring \<Rightarrow> jsstring"
  bigNumberToString :: "int \<Rightarrow> jsstring"
  base64Decode :: "jsstring \<Rightarrow> nat list option"
  stringEqualsOne :: "jsstring \<Rightarrow> bool"
  urlOf :: "nat \<Rightarrow> jsstring"

text \<open>
  The conversion of a number to a string: an integer of magnitude below \<open>2 ^ 53\<close>
  (9007199254740992) prints as its decimal digits; a larger one as the platform prints it.
\<close>

definition numberToString :: "platform \<Rightarrow> int \<Rightarrow> jsstring" where
  "numberToString P n =
     (if \<bar>n\<bar> < 9007199254740992 then intToString n else bigNumberToString P n)"

text \<open>The string conversion of a template literal, \<^verbatim>\<open>`${v}`\<close>.\<close>

fun toStringJS :: "platform \<Rightarrow> jsval \<Rightarrow> jsstring" where
  "toStringJS P JUndefined = ascii ''undefined''"
| "toStringJS P JNull = ascii ''null''"
| "toStringJS P (JBool b) = (if b then ascii ''true'' else ascii ''false'')"
| "toStringJS P (JNum n) = numberToString P n"
| "toStringJS P (JStr s) = s"
| "toStringJS P (JObj s) = s"

definition asciiLower :: "nat \<Rightarrow> nat" where
  "asciiLower c = (if 65 \<le> c \<and> c \<le> 90 then c + 32 else c)"

definition asciiUpper :: "nat \<Rightarrow> nat" where
  "asciiUpper c = (if 97 \<le> c \<and> c \<le> 122 then c - 32 else c)"

definition toLowerCase :: "platform \<Rightarrow> jsstring \<Rightarrow> jsstring" where
  "toLowerCase P s = (if list_all (\<lambda>c. c < 128) s then map asciiLower s else unicodeLower P s)"

definition toUpperCase :: "platform \<Rightarrow> jsstring \<Rightarrow> jsstring" where
  "toUpperCase P s = (if list_all (\<lambda>c. c < 128) s then map asciiUpper s else unicodeUpper P s)"

section \<open>The data-URL patterns\<close>

text \<open>
  \<^verbatim>\<open>s.match(/^data:(.+?);base64,(.+)$/)\<close>. The lazy group takes the shortest non-empty
  run of characters other than line terminators after which \<open>;base64,\<close> and then a
  non-empty run of such characters up to the end of the string follow. \<open>splitMime acc r\<close>
  has read \<open>acc\<close> into the first group and looks at the rest \<open>r\<close>.
\<close>

definition dataOk :: "jsstring \<Rightarrow> bool" where
  "dataOk d = (d \<noteq> [] \<and> list_all (\<lambda>c. \<not> isLineTerminator c) d)"

fun splitMime :: "jsstring \<Rightarrow> jsstring \<Rightarrow> (jsstring \<times> jsstring) option" where
  "splitMime acc [] = None"
| "splitMime acc (c # r) =
     (if acc \<noteq> [] \<and> startsWith (c # r) (ascii '';base64,'') \<and> dataOk (drop 8 (c # r))
      then Some (acc, drop 8 (c # r))
      else if isLineTerminator c then None
      else splitMime (acc @ [c]) r)"

definition matchDataUrl :: "jsstring \<Rightarrow> (jsstring \<times> jsstring) option" where
  "matchDataUrl s =
     (if startsWith s (ascii ''data:'') then splitMime [] (drop 5 s) else None)"

text \<open>\<^verbatim>\<open>s.match(/^data:(image\/png);base64,(.+)$/)\<close>, the pattern of saveDrawingFile.\<close>

definition matchPngUrl :: "jsstring \<Rightarrow> (jsstring \<times> jsstring) option" where
  "matchPngUrl s =
     (if startsWith s (ascii ''data:image/png;base64,'') \<and> dataOk (drop 22 s)
      then Some (ascii ''image/png'', drop 22 s) else None)"

section \<open>The platform: Drive, the spreadsheet, the log\<close>

text \<open>
  A folder and a file of Drive. Identifiers are natural numbers. \<open>file_mime\<close> is the content
  type handed to \<^verbatim>\<open>Utilities.newBlob\<close> (or \<open>MimeType.PLAIN_TEXT\<close>), as it was passed.
\<close>

record folder =
  fid :: nat
  fname :: jsstring
  fparent :: nat
  furl :: jsstring

datatype content = Bytes "nat list" | Text jsstring

record driveFile =
  file_id :: nat
  file_name :: jsstring
  file_mime :: jsval
  file_content :: content
  file_parent :: nat
  file_url :: jsstring

text \<open>
  The value \<open>getValue\<close> reads from a cell; an empty cell reads as the empty string.
  \<open>CDate s\<close> is a date whose \<open>toString()\<close> is \<open>s\<close>.
\<close>

datatype cellval = CStr jsstring | CNum int | CBool bool | CDate jsstring

text \<open>
  A sheet: its rows of cells (a missing cell is empty), the cells set in bold, and the
  column widths that were set. Rows and columns are numbered from 1.
\<close>

record sheet =
  cells :: "cellval list list"
  bold :: "(nat \<times> nat) set"
  colWidth :: "nat \<rightharpoonup> nat"

text \<open>
  The calls of the platform that can throw. \<open>faults\<close> (below) says which of them throw
  in a world.
\<close>

datatype platform_op =
    OpGetRootFolder | OpGetFoldersByName | OpCreateFolder | OpGetFolderById | OpCreateFile
  | OpOpenById | OpGetSheetByName jsstring | OpInsertSheet | OpAppendRow | OpGetLastColumn
  | OpGetRange | OpGetValues | OpSetValue | OpSetFontWeight | OpSetColumnWidth | OpFormatDate

datatype error =
    InvalidFolderName | FolderCreateFailed jsstring
  | InvalidAudioData | InvalidFileName | InvalidVideoArgs | InvalidPhotoArgs
  | InvalidDrawingArgs | InvalidTextData | InvalidDataUrl | InvalidPngDataUrl
  | TypeError | PlatformFault platform_op | NoSuchFolder nat | RangeError | Base64Error

datatype media = Audio | Video | Photo | Drawing | TextFile

text \<open>The lines written with \<^verbatim>\<open>Logger.log\<close>, by the call that writes them.\<close>

datatype logentry =
    LogFolderCreated jsstring nat | LogFolderCreateFailed jsstring error
  | LogSheetMissing | LogCellEmpty | LogSubFolderError error
  | LogHistoryCreated | LogHistoryRecorded jsstring jsstring jsstring | LogHistoryError error
  | LogFallbackParent | LogSaved media jsstring | LogSaveError media error
  | LogModeError error

record world =
  rootFolder :: folder
  folders :: "folder list"
  files :: "driveFile list"
  sheets :: "jsstring \<rightharpoonup> sheet"
  timestamp :: jsstring
  logged :: "logentry list"
  faults :: "platform_op \<Rightarrow> bool"

text \<open>
  A computation runs in a world and either returns a value or throws; either way it
  leaves a world behind.
\<close>

type_synonym 'a comp = "world \<Rightarrow> (error + 'a) \<times> world"

definition returnE :: "'a \<Rightarrow> 'a comp" where
  "returnE x = (\<lambda>w. (Inr x, w))"

definition throwE :: "error \<Rightarrow> 'a comp" where
  "throwE e = (\<lambda>w. (Inl e, w))"

definition bindE :: "'a comp \<Rightarrow> ('a \<Rightarrow> 'b comp) \<Rightarrow> 'b comp" where
  "bindE m f = (\<lambda>w. case m w of (Inl e, w') \<Rightarrow> (Inl e, w') | (Inr x, w') \<Rightarrow> f x w')"

text \<open>\<^verbatim>\<open>try { m } catch (e) { h e }\<close>.\<close>

definition catchE :: "'a comp \<Rightarrow> (error \<Rightarrow> 'a comp) \<Rightarrow> 'a comp" where
  "catchE m h = (\<lambda>w. case m w of (Inl e, w') \<Rightarrow> h e w' | (Inr x, w') \<Rightarrow> (Inr x, w'))"

definition logE :: "logentry \<Rightarrow> unit comp" where
  "logE l = (\<lambda>w. (Inr (), w\<lparr>logged := logged w @ [l]\<rparr>))"

definition platformCall :: "platform_op \<Rightarrow> unit comp" where
  "platformCall op = (\<lambda>w. if faults w op then (Inl (PlatformFault op), w) else (Inr (), w))"

subsection \<open>Drive\<close>

definition freshId :: "world \<Rightarrow> nat" where
  "freshId w =
     Suc (fold max (fid (rootFolder w) # map fid (folders w) @ map file_id (files w)) 0)"

definition getRootFolder :: "folder comp" where
  "getRootFolder = bindE (platformCall OpGetRootFolder) (\<lambda>_ w. (Inr (rootFolder w), w))"

text \<open>\<^verbatim>\<open>parent.getFoldersByName(name)\<close>: the children of that name, in the platform's order.\<close>

definition getFoldersByName :: "folder \<Rightarrow> jsstring \<Rightarrow> folder list comp" where
  "getFoldersByName parent name =
     bindE (platformCall OpGetFoldersByName)
       (\<lambda>_ w. (Inr (filter (\<lambda>f. fparent f = fid parent \<and> fname f = name) (folders w)), w))"

definition createFolder :: "platform \<Rightarrow> folder \<Rightarrow> jsstring \<Rightarrow> folder comp" where
  "createFolder P parent name =
     bindE (platformCall OpCreateFolder)
       (\<lambda>_ w. let i = freshId w;
                  f = \<lparr>fid = i, fname = name, fparent = fid parent, furl = urlOf P i\<rparr>
              in (Inr f, w\<lparr>folders := folders w @ [f]\<rparr>))"

definition getFolderById :: "nat \<Rightarrow> folder comp" where
  "getFolderById i =
     bindE (platformCall OpGetFolderById)
       (\<lambda>_ w. case find (\<lambda>f. fid f = i) (rootFolder w # folders w) of
                None \<Rightarrow> (Inl (NoSuchFolder i), w)
              | Some f \<Rightarrow> (Inr f, w))"

definition createFile :: "platform \<Rightarrow> folder \<Rightarrow> jsstring \<Rightarrow> jsval \<Rightarrow> content \<Rightarrow> driveFile comp" where
  "createFile P target name mime c =
     bindE (platformCall OpCreateFile)
       (\<lambda>_ w. let i = freshId w;
                  f = \<lparr>file_id = i, file_name = name, file_mime = mime, file_content = c,
                       file_parent = fid target, file_url = urlOf P i\<rparr>
              in (Inr f, w\<lparr>files := files w @ [f]\<rparr>))"

subsection \<open>The spreadsheet\<close>

text \<open>
  A sheet object is a handle on the sheet of that name; every read and write goes to the
  sheet as it is in the world at that moment.
\<close>

definition isBlankCell :: "cellval \<Rightarrow> bool" where
  "isBlankCell c = (c = CStr [])"

definition rowLast :: "cellval list \<Rightarrow> nat" where
  "rowLast r = length (dropWhile isBlankCell (rev r))"

definition lastColumn :: "sheet \<Rightarrow> nat" where
  "lastColumn sh = fold max (map rowLast (cells sh)) 0"

definition lastRow :: "sheet \<Rightarrow> nat" where
  "lastRow sh = length (dropWhile (\<lambda>r. rowLast r = 0) (rev (cells sh)))"

definition cellAt :: "sheet \<Rightarrow> nat \<Rightarrow> nat \<Rightarrow> cellval" where
  "cellAt sh r c =
     (if 1 \<le> r \<and> r \<le> length (cells sh) \<and> 1 \<le> c \<and> c \<le> length (cells sh ! (r - 1))
      then cells sh ! (r - 1) ! (c - 1) else CStr [])"

definition padTo :: "nat \<Rightarrow> 'a \<Rightarrow> 'a list \<Rightarrow> 'a list" where
  "padTo n x xs = xs @ replicate (n - length xs) x"

definition setCell :: "nat \<Rightarrow> nat \<Rightarrow> cellval \<Rightarrow> sheet \<Rightarrow> sheet" where
  "setCell r c v sh =
     (let rows = padTo r [] (cells sh);
          row = padTo c (CStr []) (rows ! (r - 1))
      in sh\<lparr>cells := rows[r - 1 := row[c - 1 := v]]\<rparr>)"

definition withSheet :: "jsstring \<Rightarrow> (sheet \<Rightarrow> 'a comp) \<Rightarrow> 'a comp" where
  "withSheet name f = (\<lambda>w. case sheets w name of
       None \<Rightarrow> (Inl TypeError, w)
     | Some sh \<Rightarrow> f sh w)"

definition putSheet :: "jsstring \<Rightarrow> sheet \<Rightarrow> unit comp" where
  "putSheet name sh = (\<lambda>w. (Inr (), w\<lparr>sheets := (sheets w)(name \<mapsto> sh)\<rparr>))"

definition openById :: "unit comp" where
  "openById = platformCall OpOpenById"

text \<open>\<^verbatim>\<open>ss.getSheetByName(name)\<close>: the handle, or \<open>null\<close> (\<open>None\<close>).\<close>

definition getSheetByName :: "jsstring \<Rightarrow> jsstring option comp" where
  "getSheetByName name =
     bindE (platformCall (OpGetSheetByName name))
       (\<lambda>_ w. (Inr (if sheets w name = None then None else Some name), w))"

definition insertSheet :: "jsstring \<Rightarrow> jsstring comp" where
  "insertSheet name =
     bindE (platformCall OpInsertSheet)
       (\<lambda>_. bindE (putSheet name \<lparr>cells = [], bold = {}, colWidth = Map.empty\<rparr>)
          (\<lambda>_. returnE name))"

text \<open>\<^verbatim>\<open>sheet.appendRow(vs)\<close> writes the row after the last row with content.\<close>

definition appendRow :: "jsstring \<Rightarrow> cellval list \<Rightarrow> unit comp" where
  "appendRow name vs =
     bindE (platformCall OpAppendRow)
       (\<lambda>_. withSheet name (\<lambda>sh. putSheet name (sh\<lparr>cells := take (lastRow sh) (cells sh) @ [vs]\<rparr>)))"

definition getLastColumn :: "jsstring \<Rightarrow> nat comp" where
  "getLastColumn name =
     bindE (platformCall OpGetLastColumn) (\<lambda>_. withSheet name (\<lambda>sh. returnE (lastColumn sh)))"

text \<open>
  \<^verbatim>\<open>sheet.getRange(r, c, 1, n).getValues()[0]\<close>; a range of no columns is refused.
\<close>

definition getRowValues :: "jsstring \<Rightarrow> nat \<Rightarrow> nat \<Rightarrow> nat \<Rightarrow> cellval list comp" where
  "getRowValues name r c n =
     bindE (platformCall OpGetRange) (\<lambda>_.
       if r < 1 \<or> c < 1 \<or> n < 1 then throwE RangeError
       else bindE (platformCall OpGetValues) (\<lambda>_.
         withSheet name (\<lambda>sh. returnE (map (\<lambda>k. cellAt sh r (c + k)) [0..<n]))))"

text \<open>\<^verbatim>\<open>sheet.getRange(r, c).getValue()\<close> and \<^verbatim>\<open>sheet.getRange(r, c).setValue(v)\<close>.\<close>

definition getValue :: "jsstring \<Rightarrow> nat \<Rightarrow> nat \<Rightarrow> cellval comp" where
  "getValue name r c =
     bindE (platformCall OpGetRange) (\<lambda>_.
       bindE (platformCall OpGetValues) (\<lambda>_.
         withSheet name (\<lambda>sh. returnE (cellAt sh r c))))"

definition setValue :: "jsstring \<Rightarrow> nat \<Rightarrow> nat \<Rightarrow> cellval \<Rightarrow> unit comp" where
  "setValue name r c v =
     bindE (platformCall OpGetRange) (\<lambda>_.
       if r < 1 \<or> c < 1 then throwE RangeError
       else bindE (platformCall OpSetValue) (\<lambda>_.
         withSheet name (\<lambda>sh. putSheet name (setCell r c v sh))))"

text \<open>\<^verbatim>\<open>sheet.getRange(r, c, 1, n).setFontWeight("bold")\<close>.\<close>

definition setBold :: "jsstring \<Rightarrow> nat \<Rightarrow> nat \<Rightarrow> nat \<Rightarrow> unit comp" where
  "setBold name r c n =
     bindE (platformCall OpGetRange) (\<lambda>_.
       if r < 1 \<or> c < 1 \<or> n < 1 then throwE RangeError
       else bindE (platformCall OpSetFontWeight) (\<lambda>_.
         withSheet name (\<lambda>sh.
           putSheet name (sh\<lparr>bold := bold sh \<union> Pair r ` {c..<c + n}\<rparr>))))"

definition setColumnWidth :: "jsstring \<Rightarrow> nat \<Rightarrow> nat \<Rightarrow> unit comp" where
  "setColumnWidth name c px =
     bindE (platformCall OpSetColumnWidth) (\<lambda>_.
       withSheet name (\<lambda>sh. putSheet name (sh\<lparr>colWidth := (colWidth sh)(c \<mapsto> px)\<rparr>)))"

text \<open>\<^verbatim>\<open>Utilities.formatDate(new Date(), Session.getScriptTimeZone(), ...)\<close>.\<close>

definition formatNow :: "jsstring comp" where
  "formatNow = bindE (platformCall OpFormatDate) (\<lambda>_ w. (Inr (timestamp w), w))"

section \<open>Code.js\<close>

subsection \<open>Configuration\<close>

text \<open>
  The Japanese literals, as code units: \<open>PARENT_FOLDER_NAME\<close> ("media save folder"),
  \<open>SUBFOLDER_SHEET_NAME\<close> ("sheet 1", the characters U+30B7 U+30FC U+30C8 and the digit 1),
  \<open>HISTORY_SHEET_NAME\<close> ("history"), and the six headers: file name, saved at, folder
  path, file link, file format, media type.
\<close>

definition PARENT_FOLDER_NAME :: jsstring where
  "PARENT_FOLDER_NAME =
     [0x30E1, 0x30C7, 0x30A3, 0x30A2, 0x4FDD, 0x5B58, 0x30D5, 0x30A9, 0x30EB, 0x30C0]"

definition SUBFOLDER_SHEET_NAME :: jsstring where
  "SUBFOLDER_SHEET_NAME = [0x30B7, 0x30FC, 0x30C8, 0x31]"

definition HISTORY_SHEET_NAME :: jsstring where
  "HISTORY_SHEET_NAME = [0x5C65, 0x6B74]"

definition HEADER_FILE_NAME :: jsstring where
  "HEADER_FILE_NAME = [0x30D5, 0x30A1, 0x30A4, 0x30EB, 0x540D]"

definition HEADER_SAVED_AT :: jsstring where
  "HEADER_SAVED_AT = [0x4FDD, 0x5B58, 0x65E5, 0x6642]"

definition HEADER_FOLDER_PATH :: jsstring where
  "HEADER_FOLDER_PATH = [0x30D5, 0x30A9, 0x30EB, 0x30C0, 0x30D1, 0x30B9]"

definition HEADER_FILE_LINK :: jsstring where
  "HEADER_FILE_LINK = [0x30D5, 0x30A1, 0x30A4, 0x30EB, 0x30EA, 0x30F3, 0x30AF]"

definition HEADER_FILE_FORMAT :: jsstring where
  "HEADER_FILE_FORMAT = [0x30D5, 0x30A1, 0x30A4, 0x30EB, 0x5F62, 0x5F0F]"

definition HEADER_MEDIA_TYPE :: jsstring where
  "HEADER_MEDIA_TYPE = [0x30E1, 0x30C7, 0x30A3, 0x30A2, 0x30BF, 0x30A4, 0x30D7]"

definition HISTORY_HEADERS :: "jsstring list" where
  "HISTORY_HEADERS =
     [HEADER_FILE_NAME, HEADER_SAVED_AT, HEADER_FOLDER_PATH, HEADER_FILE_LINK,
      HEADER_FILE_FORMAT, HEADER_MEDIA_TYPE]"

text \<open>The media type written into the history row: audio, video, photo, drawing, text.\<close>

fun mediaLabel :: "media \<Rightarrow> jsstring" where
  "mediaLabel Audio = [0x97F3, 0x58F0]"
| "mediaLabel Video = [0x52D5, 0x753B]"
| "mediaLabel Photo = [0x5199, 0x771F]"
| "mediaLabel Drawing = [0x304A, 0x7D75, 0x304B, 0x304D]"
| "mediaLabel TextFile = [0x30C6, 0x30AD, 0x30B9, 0x30C8]"

subsection \<open>getOrCreateFolderIdByName\<close>

text \<open>
  \<open>parentArg = None\<close> is the omitted argument, whose default
  \<^verbatim>\<open>DriveApp.getRootFolder()\<close> is evaluated on entry.
\<close>

definition getOrCreateFolderIdByName :: "platform \<Rightarrow> jsval \<Rightarrow> folder option \<Rightarrow> nat comp" where
  "getOrCreateFolderIdByName P folderName parentArg =
     bindE (case parentArg of None \<Rightarrow> getRootFolder | Some p \<Rightarrow> returnE p) (\<lambda>parentFolder.
       if \<not> truthy folderName \<or> \<not> isString folderName \<or> trim (toStringJS P folderName) = []
       then throwE InvalidFolderName
       else
         let name = toStringJS P folderName in
         bindE (getFoldersByName parentFolder name) (\<lambda>found.
           case found of
             f # _ \<Rightarrow> returnE (fid f)
           | [] \<Rightarrow>
               catchE
                 (bindE (createFolder P parentFolder name) (\<lambda>newFolder.
                  bindE (logE (LogFolderCreated name (fid newFolder))) (\<lambda>_.
                  returnE (fid newFolder))))
                 (\<lambda>e. bindE (logE (LogFolderCreateFailed name e)) (\<lambda>_.
                      throwE (FolderCreateFailed name)))))"

subsection \<open>getSubFolderNameFromSheet\<close>

fun cellToString :: "platform \<Rightarrow> cellval \<Rightarrow> jsstring" where
  "cellToString P (CStr s) = s"
| "cellToString P (CNum n) = numberToString P n"
| "cellToString P (CBool b) = (if b then ascii ''true'' else ascii ''false'')"
| "cellToString P (CDate s) = s"

text \<open>
  The replacement of the characters backslash, slash, colon, asterisk, question mark,
  double quote, less-than, greater-than and bar by an underscore, on one code unit.
\<close>

definition sanitizeChar :: "nat \<Rightarrow> nat" where
  "sanitizeChar c = (if c \<in> set [92, 47, 58, 42, 63, 34, 60, 62, 124] then 95 else c)"

text \<open>The cell \<open>B1\<close> is row 1, column 2. \<open>None\<close> is \<open>null\<close>.\<close>

definition getSubFolderNameFromSheet :: "platform \<Rightarrow> jsstring option comp" where
  "getSubFolderNameFromSheet P =
     catchE
       (bindE openById (\<lambda>_.
        bindE (getSheetByName SUBFOLDER_SHEET_NAME) (\<lambda>sheet.
          case sheet of
            None \<Rightarrow> bindE (logE LogSheetMissing) (\<lambda>_. returnE None)
          | Some sh \<Rightarrow>
              bindE (getValue sh 1 2) (\<lambda>v.
                let subFolderName = trim (cellToString P v) in
                if subFolderName = [] then bindE (logE LogCellEmpty) (\<lambda>_. returnE None)
                else returnE (Some (map sanitizeChar subFolderName))))))
       (\<lambda>e. bindE (logE (LogSubFolderError e)) (\<lambda>_. returnE None))"

subsection \<open>createHistorySheetIfNotExists\<close>

text \<open>
  \<open>headers\<close> is read once, before either column is written; both tests and both column
  numbers are computed from it.
\<close>

definition createHistorySheetIfNotExists :: "jsstring comp" where
  "createHistorySheetIfNotExists =
     bindE openById (\<lambda>_.
     bindE (getSheetByName HISTORY_SHEET_NAME) (\<lambda>existing.
       case existing of
         None \<Rightarrow>
           bindE (insertSheet HISTORY_SHEET_NAME) (\<lambda>sheet.
           bindE (appendRow sheet (map CStr HISTORY_HEADERS)) (\<lambda>_.
           bindE (setBold sheet 1 1 (length HISTORY_HEADERS)) (\<lambda>_.
           bindE (setColumnWidth sheet 1 250) (\<lambda>_.
           bindE (setColumnWidth sheet 2 150) (\<lambda>_.
           bindE (setColumnWidth sheet 3 250) (\<lambda>_.
           bindE (setColumnWidth sheet 4 300) (\<lambda>_.
           bindE (setColumnWidth sheet 5 100) (\<lambda>_.
           bindE (setColumnWidth sheet 6 100) (\<lambda>_.
           bindE (logE LogHistoryCreated) (\<lambda>_.
           returnE sheet))))))))))
       | Some sheet \<Rightarrow>
           bindE (getLastColumn sheet) (\<lambda>n.
           bindE (getRowValues sheet 1 1 n) (\<lambda>headers.
           bindE (if CStr HEADER_MEDIA_TYPE \<notin> set headers
                  then (let newCol = length headers + 1 in
                        bindE (setValue sheet 1 newCol (CStr HEADER_MEDIA_TYPE)) (\<lambda>_.
                        bindE (setBold sheet 1 newCol 1) (\<lambda>_.
                        setColumnWidth sheet newCol 100)))
                  else returnE ()) (\<lambda>_.
           bindE (if CStr HEADER_FILE_FORMAT \<notin> set headers
                  then (let newCol = (if CStr HEADER_MEDIA_TYPE \<in> set headers
                                      then length headers else length headers + 1) in
                        bindE (setValue sheet 1 newCol (CStr HEADER_FILE_FORMAT)) (\<lambda>_.
                        bindE (setBold sheet 1 newCol 1) (\<lambda>_.
                        setColumnWidth sheet newCol 100)))
                  else returnE ()) (\<lambda>_.
           returnE sheet))))))"

subsection \<open>addRecordToHistorySheet\<close>

text \<open>The formula text; 34 is the double quote, 44 the comma.\<close>

definition hyperlink :: "jsstring \<Rightarrow> jsstring \<Rightarrow> jsstring" where
  "hyperlink url txt =
     ascii ''=HYPERLINK('' @ [34] @ url @ [34, 44, 34] @ txt @ [34] @ ascii '')''"

definition addRecordToHistorySheet ::
  "platform \<Rightarrow> jsstring \<Rightarrow> jsstring \<Rightarrow> jsstring \<Rightarrow> jsstring \<Rightarrow> jsstring \<Rightarrow> jsstring \<Rightarrow> unit comp" where
  "addRecordToHistorySheet P fileName folderPathText folderUrl fileUrl fileFormat mediaType =
     catchE
       (bindE createHistorySheetIfNotExists (\<lambda>sheet.
        bindE formatNow (\<lambda>formattedTimestamp.
        let folderLinkFormula = hyperlink folderUrl folderPathText;
            fileLinkFormula = hyperlink fileUrl fileName in
        bindE (appendRow sheet
                 [CStr fileName, CStr formattedTimestamp, CStr folderLinkFormula,
                  CStr fileLinkFormula, CStr (toUpperCase P fileFormat), CStr mediaType]) (\<lambda>_.
        logE (LogHistoryRecorded fileName mediaType fileFormat)))))
       (\<lambda>e. logE (LogHistoryError e))"

subsection \<open>The save handlers\<close>

text \<open>
  The text of a result message is kept as its template and the values spliced into it:
  the confirmation of a save (with the file name and the folder path, and for video,
  photo and drawing the format shown), and the one failure message of each handler.
\<close>

datatype message =
    SavedMsg media jsstring jsstring
  | SavedFormatMsg media jsstring jsstring jsstring
  | SaveFailedMsg media

record saveResult =
  success :: bool
  message :: message
  resultFileId :: "nat option"
  resultFileName :: "jsstring option"
  resultFileUrl :: "jsstring option"

definition failureResult :: "media \<Rightarrow> saveResult" where
  "failureResult m =
     \<lparr>success = False, message = SaveFailedMsg m, resultFileId = None,
      resultFileName = None, resultFileUrl = None\<rparr>"

text \<open>
  \<^verbatim>\<open>try { body } catch (error) { Logger.log(...); return {success: false, message} }\<close>,
  the frame of each of the five handlers.
\<close>

definition tryCatchSave :: "media \<Rightarrow> saveResult comp \<Rightarrow> world \<Rightarrow> saveResult \<times> world" where
  "tryCatchSave m body = (\<lambda>w. case body w of
       (Inr r, w') \<Rightarrow> (r, w')
     | (Inl e, w') \<Rightarrow> (failureResult m, w'\<lparr>logged := logged w' @ [LogSaveError m e]\<rparr>))"

text \<open>
  The block that every handler repeats (lines 159-177, 232-249, 293-310, 349-366 and
  407-424): the parent folder, the subfolder when the sheet names one, the path text
  and the URL of the target. Only saveAudioFile logs the fall-back to the parent.
\<close>

definition resolveTarget :: "platform \<Rightarrow> bool \<Rightarrow> (folder \<times> jsstring \<times> jsstring) comp" where
  "resolveTarget P logFallback =
     bindE (getOrCreateFolderIdByName P (JStr PARENT_FOLDER_NAME) None) (\<lambda>parentFolderId.
     bindE (getFolderById parentFolderId) (\<lambda>parentFolder.
     bindE (getSubFolderNameFromSheet P) (\<lambda>subFolderNameRaw.
       let useParent =
             bindE (if logFallback then logE LogFallbackParent else returnE ()) (\<lambda>_.
             returnE (parentFolder, fname parentFolder, furl parentFolder)) in
       case subFolderNameRaw of
         None \<Rightarrow> useParent
       | Some sub \<Rightarrow>
           if sub = [] then useParent
           else
             bindE (getOrCreateFolderIdByName P (JStr sub) (Some parentFolder)) (\<lambda>subFolderId.
             bindE (getFolderById subFolderId) (\<lambda>targetFolder.
             returnE (targetFolder,
                      fname parentFolder @ ascii '' > '' @ fname targetFolder,
                      furl targetFolder))))))"

text \<open>Method calls on a value that may not be a string: a \<open>TypeError\<close> when it is not.\<close>

definition jsMatch :: "(jsstring \<Rightarrow> 'a option) \<Rightarrow> jsval \<Rightarrow> 'a option comp" where
  "jsMatch re v = (case v of JStr s \<Rightarrow> returnE (re s) | _ \<Rightarrow> throwE TypeError)"

definition jsToLowerCase :: "platform \<Rightarrow> jsval \<Rightarrow> jsstring comp" where
  "jsToLowerCase P v = (case v of JStr s \<Rightarrow> returnE (toLowerCase P s) | _ \<Rightarrow> throwE TypeError)"

definition jsToUpperCase :: "platform \<Rightarrow> jsval \<Rightarrow> jsstring comp" where
  "jsToUpperCase P v = (case v of JStr s \<Rightarrow> returnE (toUpperCase P s) | _ \<Rightarrow> throwE TypeError)"

definition decodeBase64 :: "platform \<Rightarrow> jsstring \<Rightarrow> nat list comp" where
  "decodeBase64 P s = (case base64Decode P s of None \<Rightarrow> throwE Base64Error | Some b \<Rightarrow> returnE b)"

text \<open>A parameter's default value stands in for \<open>undefined\<close> only.\<close>

definition withDefault :: "jsval \<Rightarrow> jsval \<Rightarrow> jsval" where
  "withDefault d v = (if v = JUndefined then d else v)"

definition saveAudioFile_try :: "platform \<Rightarrow> jsval \<Rightarrow> jsval \<Rightarrow> saveResult comp" where
  "saveAudioFile_try P audioDataUrl baseFileName =
     (if \<not> truthy audioDataUrl \<or> \<not> isString audioDataUrl then throwE InvalidAudioData
      else if \<not> truthy baseFileName \<or> \<not> isString baseFileName
              \<or> trim (toStringJS P baseFileName) = [] then throwE InvalidFileName
      else
        bindE (resolveTarget P True) (\<lambda>(targetFolder, folderPathText, targetFolderUrl).
        case matchDataUrl (toStringJS P audioDataUrl) of
          None \<Rightarrow> throwE InvalidDataUrl
        | Some (mimeType, base64Data) \<Rightarrow>
            let base = toStringJS P baseFileName;
                finalFileName = (if endsWith (toLowerCase P base) (ascii ''.mp3'')
                                 then base else base @ ascii ''.mp3'') in
            bindE (decodeBase64 P base64Data) (\<lambda>decodedData.
            bindE (createFile P targetFolder finalFileName (JStr mimeType) (Bytes decodedData)) (\<lambda>file.
            bindE (addRecordToHistorySheet P finalFileName folderPathText targetFolderUrl
                     (file_url file) (ascii ''MP3'') (mediaLabel Audio)) (\<lambda>_.
            bindE (logE (LogSaved Audio finalFileName)) (\<lambda>_.
            returnE \<lparr>success = True, message = SavedMsg Audio finalFileName folderPathText,
                     resultFileId = Some (file_id file), resultFileName = Some finalFileName,
                     resultFileUrl = Some (file_url file)\<rparr>))))))"

definition saveAudioFile :: "platform \<Rightarrow> jsval \<Rightarrow> jsval \<Rightarrow> world \<Rightarrow> saveResult \<times> world" where
  "saveAudioFile P audioDataUrl baseFileName =
     tryCatchSave Audio (saveAudioFile_try P audioDataUrl baseFileName)"

definition saveVideoFile_try :: "platform \<Rightarrow> jsval \<Rightarrow> jsval \<Rightarrow> jsval \<Rightarrow> jsval \<Rightarrow> saveResult comp" where
  "saveVideoFile_try P videoDataUrl baseFileName extensionArg mimeTypeArg =
     (let extension0 = withDefault (JStr (ascii ''webm'')) extensionArg;
          mimeType = withDefault (JStr (ascii ''video/webm'')) mimeTypeArg in
      if \<not> truthy videoDataUrl \<or> \<not> truthy baseFileName then throwE InvalidVideoArgs
      else
        bindE (jsToLowerCase P extension0) (\<lambda>lowered.
        let extension = (if lowered \<notin> set [ascii ''mp4'', ascii ''webm'']
                         then JStr (ascii ''webm'') else extension0) in
        bindE (resolveTarget P False) (\<lambda>(targetFolder, folderPathText, targetFolderUrl).
        bindE (jsMatch matchDataUrl videoDataUrl) (\<lambda>parts.
        case parts of
          None \<Rightarrow> throwE InvalidDataUrl
        | Some (detectedMimeType, base64Data) \<Rightarrow>
            bindE (jsToLowerCase P extension) (\<lambda>extLower.
            let finalFileName = toStringJS P baseFileName @ ascii ''.'' @ extLower in
            bindE (decodeBase64 P base64Data) (\<lambda>decodedData.
            bindE (createFile P targetFolder finalFileName
                     (if truthy mimeType then mimeType else JStr detectedMimeType)
                     (Bytes decodedData)) (\<lambda>file.
            bindE (addRecordToHistorySheet P finalFileName folderPathText targetFolderUrl
                     (file_url file) (toStringJS P extension) (mediaLabel Video)) (\<lambda>_.
            bindE (jsToUpperCase P extension) (\<lambda>extUpper.
            returnE \<lparr>success = True,
                     message = SavedFormatMsg Video finalFileName extUpper folderPathText,
                     resultFileId = None, resultFileName = None,
                     resultFileUrl = None\<rparr>)))))))))"

definition saveVideoFile ::
  "platform \<Rightarrow> jsval \<Rightarrow> jsval \<Rightarrow> jsval \<Rightarrow> jsval \<Rightarrow> world \<Rightarrow> saveResult \<times> world" where
  "saveVideoFile P videoDataUrl baseFileName extensionArg mimeTypeArg =
     tryCatchSave Video (saveVideoFile_try P videoDataUrl baseFileName extensionArg mimeTypeArg)"

definition savePhotoFile_try :: "platform \<Rightarrow> jsval \<Rightarrow> jsval \<Rightarrow> jsval \<Rightarrow> saveResult comp" where
  "savePhotoFile_try P photoDataUrl baseFileName extensionArg =
     (let extension0 = withDefault (JStr (ascii ''jpg'')) extensionArg in
      if \<not> truthy photoDataUrl \<or> \<not> truthy baseFileName then throwE InvalidPhotoArgs
      else
        bindE (jsToLowerCase P extension0) (\<lambda>lowered.
        let extension = (if lowered \<notin> set [ascii ''jpg'', ascii ''jpeg'', ascii ''png'']
                         then JStr (ascii ''jpg'') else extension0) in
        bindE (resolveTarget P False) (\<lambda>(targetFolder, folderPathText, targetFolderUrl).
        bindE (jsMatch matchDataUrl photoDataUrl) (\<lambda>parts.
        case parts of
          None \<Rightarrow> throwE InvalidDataUrl
        | Some (detectedMimeType, base64Data) \<Rightarrow>
            bindE (jsToLowerCase P extension) (\<lambda>extLower.
            let finalFileName = toStringJS P baseFileName @ ascii ''.'' @ extLower in
            bindE (decodeBase64 P base64Data) (\<lambda>decodedData.
            bindE (createFile P targetFolder finalFileName (JStr detectedMimeType)
                     (Bytes decodedData)) (\<lambda>file.
            bindE (jsToUpperCase P extension) (\<lambda>extUpper.
            let formatDisplay = (if extUpper = ascii ''JPEG'' then ascii ''JPG'' else extUpper) in
            bindE (addRecordToHistorySheet P finalFileName folderPathText targetFolderUrl
                     (file_url file) formatDisplay (mediaLabel Photo)) (\<lambda>_.
            returnE \<lparr>success = True,
                     message = SavedFormatMsg Photo finalFileName formatDisplay folderPathText,
                     resultFileId = None, resultFileName = None,
                     resultFileUrl = None\<rparr>)))))))))"

definition savePhotoFile ::
  "platform \<Rightarrow> jsval \<Rightarrow> jsval \<Rightarrow> jsval \<Rightarrow> world \<Rightarrow> saveResult \<times> world" where
  "savePhotoFile P photoDataUrl baseFileName extensionArg =
     tryCatchSave Photo (savePhotoFile_try P photoDataUrl baseFileName extensionArg)"

definition saveDrawingFile_try :: "platform \<Rightarrow> jsval \<Rightarrow> jsval \<Rightarrow> saveResult comp" where
  "saveDrawingFile_try P drawingDataUrl baseFileName =
     (if \<not> truthy drawingDataUrl \<or> \<not> truthy baseFileName then throwE InvalidDrawingArgs
      else
        bindE (resolveTarget P False) (\<lambda>(targetFolder, folderPathText, targetFolderUrl).
        bindE (jsMatch matchPngUrl drawingDataUrl) (\<lambda>parts.
        case parts of
          None \<Rightarrow> throwE InvalidPngDataUrl
        | Some (mimeType, base64Data) \<Rightarrow>
            let finalFileName = toStringJS P baseFileName @ ascii ''.png'' in
            bindE (decodeBase64 P base64Data) (\<lambda>decodedData.
            bindE (createFile P targetFolder finalFileName (JStr mimeType)
                     (Bytes decodedData)) (\<lambda>file.
            bindE (addRecordToHistorySheet P finalFileName folderPathText targetFolderUrl
                     (file_url file) (ascii ''PNG'') (mediaLabel Drawing)) (\<lambda>_.
            returnE \<lparr>success = True,
                     message = SavedFormatMsg Drawing finalFileName (ascii ''PNG'') folderPathText,
                     resultFileId = None, resultFileName = None,
                     resultFileUrl = None\<rparr>))))))"

definition saveDrawingFile :: "platform \<Rightarrow> jsval \<Rightarrow> jsval \<Rightarrow> world \<Rightarrow> saveResult \<times> world" where
  "saveDrawingFile P drawingDataUrl baseFileName =
     tryCatchSave Drawing (saveDrawingFile_try P drawingDataUrl baseFileName)"

definition saveTextFile_try :: "platform \<Rightarrow> jsval \<Rightarrow> jsval \<Rightarrow> saveResult comp" where
  "saveTextFile_try P textData baseFileName =
     (if \<not> truthy textData \<or> \<not> isString textData then throwE InvalidTextData
      else if \<not> truthy baseFileName \<or> \<not> isString baseFileName
              \<or> trim (toStringJS P baseFileName) = [] then throwE InvalidFileName
      else
        bindE (resolveTarget P False) (\<lambda>(targetFolder, folderPathText, targetFolderUrl).
        let finalFileName = toStringJS P baseFileName @ ascii ''.txt'' in
        bindE (createFile P targetFolder finalFileName (JStr (ascii ''text/plain''))
                 (Text (toStringJS P textData))) (\<lambda>file.
        bindE (addRecordToHistorySheet P finalFileName folderPathText targetFolderUrl
                 (file_url file) (ascii ''TXT'') (mediaLabel TextFile)) (\<lambda>_.
        returnE \<lparr>success = True, message = SavedMsg TextFile finalFileName folderPathText,
                 resultFileId = None, resultFileName = None, resultFileUrl = None\<rparr>))))"

definition saveTextFile :: "platform \<Rightarrow> jsval \<Rightarrow> jsval \<Rightarrow> world \<Rightarrow> saveResult \<times> world" where
  "saveTextFile P textData baseFileName =
     tryCatchSave TextFile (saveTextFile_try P textData baseFileName)"

subsection \<open>getModeSettings\<close>

text \<open>
  \<open>v == 1\<close> for a value read from a cell: a number is compared, a boolean and a string
  are converted to a number first, and a date never equals 1.
\<close>

fun looseEqualsOne :: "platform \<Rightarrow> cellval \<Rightarrow> bool" where
  "looseEqualsOne P (CNum n) = (n = 1)"
| "looseEqualsOne P (CBool b) = b"
| "looseEqualsOne P (CStr s) = stringEqualsOne P s"
| "looseEqualsOne P (CDate s) = False"

datatype modeError = SheetNotFound jsstring | Caught error

text \<open>The result of getModeSettings; \<open>textMode\<close> is its field \<open>text\<close>.\<close>

record modeSettings =
  audio :: bool
  video :: bool
  photo :: bool
  drawing :: bool
  textMode :: bool
  modeError :: "modeError option"

definition allVisible :: "modeError \<Rightarrow> modeSettings" where
  "allVisible e =
     \<lparr>audio = True, video = True, photo = True, drawing = True, textMode = True,
      modeError = Some e\<rparr>"

text \<open>\<^verbatim>\<open>sheet.getRange("E1:E5").getValues().flat()\<close>: column 5, rows 1 to 5.\<close>

definition getModeCells :: "jsstring \<Rightarrow> cellval list comp" where
  "getModeCells name =
     bindE (platformCall OpGetRange) (\<lambda>_.
     bindE (platformCall OpGetValues) (\<lambda>_.
       withSheet name (\<lambda>sh. returnE (map (\<lambda>r. cellAt sh r 5) [1, 2, 3, 4, 5]))))"

text \<open>\<open>values[i] == 1\<close>; past the end of the array the value is \<open>undefined\<close>.\<close>

definition valueIsOne :: "platform \<Rightarrow> cellval list \<Rightarrow> nat \<Rightarrow> bool" where
  "valueIsOne P vs i = (i < length vs \<and> looseEqualsOne P (vs ! i))"

definition getModeSettings_try :: "platform \<Rightarrow> modeSettings comp" where
  "getModeSettings_try P =
     bindE openById (\<lambda>_.
     bindE (getSheetByName SUBFOLDER_SHEET_NAME) (\<lambda>sheet.
       case sheet of
         None \<Rightarrow> returnE (allVisible (SheetNotFound SUBFOLDER_SHEET_NAME))
       | Some sh \<Rightarrow>
           bindE (getModeCells sh) (\<lambda>vs.
           let audioVisible = valueIsOne P vs 0;
               videoVisible = valueIsOne P vs 1;
               photoVisible = valueIsOne P vs 2;
               drawingVisible = valueIsOne P vs 3;
               textVisible = valueIsOne P vs 4 in
           bindE (if \<not> audioVisible \<and> \<not> videoVisible \<and> \<not> photoVisible
                     \<and> \<not> drawingVisible \<and> \<not> textVisible
                  then bindE (setValue sh 1 5 (CNum 1)) (\<lambda>_. returnE True)
                  else returnE audioVisible) (\<lambda>audioVisible'.
           returnE \<lparr>audio = audioVisible', video = videoVisible, photo = photoVisible,
                    drawing = drawingVisible, textMode = textVisible, modeError = None\<rparr>))))"

definition getModeSettings :: "platform \<Rightarrow> world \<Rightarrow> modeSettings \<times> world" where
  "getModeSettings P = (\<lambda>w. case getModeSettings_try P w of
       (Inr r, w') \<Rightarrow> (r, w')
     | (Inl e, w') \<Rightarrow> (allVisible (Caught e), w'\<lparr>logged := logged w' @ [LogModeError e]\<rparr>))"

section \<open>Worlds for the examples\<close>

text \<open>
  A platform and a world on which the handlers are run below: Unicode case conversion
  is the identity, only \<open>AAAA\<close> decodes (to three zero bytes), only the string \<open>1\<close>
  converts to the number 1, and a number of magnitude \<open>2 ^ 53\<close> or more, of which the
  examples use none, prints as its digits; Drive holds the root folder alone, the
  spreadsheet has no sheet, and no call of the platform throws.
\<close>

definition demoPlatform :: platform where
  "demoPlatform =
     \<lparr>unicodeLower = (\<lambda>s. s), unicodeUpper = (\<lambda>s. s), bigNumberToString = intToString,
      base64Decode = (\<lambda>s. if s = ascii ''AAAA'' then Some [0, 0, 0] else None),
      stringEqualsOne = (\<lambda>s. s = ascii ''1''),
      urlOf = (\<lambda>i. ascii ''https://drive.example/'' @ decimal i)\<rparr>"

definition demoWorld :: world where
  "demoWorld =
     \<lparr>rootFolder = \<lparr>fid = 0, fname = ascii ''My Drive'', fparent = 0,
                    furl = ascii ''https://drive.example/0''\<rparr>,
      folders = [], files = [], sheets = Map.empty,
      timestamp = ascii ''2024/01/01 00:00:00'', logged = [], faults = (\<lambda>op. False)\<rparr>"

definition notesWorld :: world where
  "notesWorld =
     demoWorld\<lparr>folders :=
       [\<lparr>fid = 1, fname = ascii ''notes'', fparent = 0, furl = ascii ''https://drive.example/1''\<rparr>,
        \<lparr>fid = 2, fname = ascii '' '', fparent = 0, furl = ascii ''https://drive.example/2''\<rparr>,
        \<lparr>fid = 3, fname = ascii ''notes'', fparent = 0, furl = ascii ''https://drive.example/3''\<rparr>]\<rparr>"

definition settingsWorld :: "cellval list list \<Rightarrow> world" where
  "settingsWorld rows =
     demoWorld\<lparr>sheets := [SUBFOLDER_SHEET_NAME \<mapsto> \<lparr>cells = rows, bold = {}, colWidth = Map.empty\<rparr>]\<rparr>"

definition modeRows :: "cellval list list" where
  "modeRows =
     [[CStr [], CStr (ascii ''5A''), CStr [], CStr [], CNum 0],
      [CStr [], CStr [], CStr [], CStr [], CNum 1],
      [],
      [CStr [], CStr [], CStr [], CStr [], CBool True],
      [CStr [], CStr [], CStr [], CStr [], CStr (ascii ''1'')]]"

definition historyWorld :: "jsstring list \<Rightarrow> world" where
  "historyWorld headers =
     demoWorld\<lparr>sheets :=
       [HISTORY_SHEET_NAME \<mapsto> \<lparr>cells = [map CStr headers], bold = {}, colWidth = Map.empty\<rparr>]\<rparr>"

text \<open>A world in which only the append of a row throws.\<close>

definition appendFailsWorld :: world where
  "appendFailsWorld = demoWorld\<lparr>faults := (\<lambda>op. op = OpAppendRow)\<rparr>"

section \<open>Working platforms and the header migration\<close>

definition settingsReadable :: "world \<Rightarrow> bool" where
  "settingsReadable w =
     (\<not> faults w OpOpenById \<and> \<not> faults w (OpGetSheetByName SUBFOLDER_SHEET_NAME)
      \<and> \<not> faults w OpGetRange \<and> \<not> faults w OpGetValues)"

definition sheetsWork :: "world \<Rightarrow> bool" where
  "sheetsWork w =
     (\<not> faults w OpOpenById \<and> \<not> faults w (OpGetSheetByName HISTORY_SHEET_NAME)
      \<and> \<not> faults w OpGetLastColumn \<and> \<not> faults w OpGetRange \<and> \<not> faults w OpGetValues
      \<and> \<not> faults w OpSetValue \<and> \<not> faults w OpSetFontWeight \<and> \<not> faults w OpSetColumnWidth)"

text \<open>Writing one header: the value, the bold face and the width of one column.\<close>

definition withHeader :: "nat \<Rightarrow> jsstring \<Rightarrow> sheet \<Rightarrow> sheet" where
  "withHeader c h sh =
     (setCell 1 c (CStr h) sh)
       \<lparr>bold := bold sh \<union> {(1, c)}, colWidth := (colWidth sh)(c \<mapsto> 100)\<rparr>"

text \<open>The header row as createHistorySheetIfNotExists reads it.\<close>

definition headerRow :: "sheet \<Rightarrow> cellval list" where
  "headerRow sh = map (\<lambda>k. cellAt sh 1 (1 + k)) [0..<lastColumn sh]"

text \<open>What the two tests and writes of lines 100-113 make of an existing sheet.\<close>

definition migrated :: "sheet \<Rightarrow> sheet" where
  "migrated sh =
     (let n = length (headerRow sh);
          hasMedia = CStr HEADER_MEDIA_TYPE \<in> set (headerRow sh);
          hasFormat = CStr HEADER_FILE_FORMAT \<in> set (headerRow sh);
          s1 = (if hasMedia then sh else withHeader (n + 1) HEADER_MEDIA_TYPE sh)
      in if hasFormat then s1
         else withHeader (if hasMedia then n else n + 1) HEADER_FILE_FORMAT s1)"

text \<open>
  \<open>survives m w\<close>: run in \<open>w\<close>, the try block \<open>m\<close> returns a result with \<open>success\<close>
  true although a failure of the history log was logged on the way.
\<close>

definition survives :: "saveResult comp \<Rightarrow> world \<Rightarrow> bool" where
  "survives m w =
     (\<exists>res w'. m w = (Inr res, w') \<and> success res \<and> (\<exists>e. LogHistoryError e \<in> set (logged w')))"

section \<open>What a computation leaves unchanged\<close>

text \<open>\<open>keeps g m\<close>: running \<open>m\<close> never changes the part \<open>g\<close> of the world.\<close>

definition keeps :: "(world \<Rightarrow> 'b) \<Rightarrow> 'a comp \<Rightarrow> bool" where
  "keeps g m = (\<forall>w. g (snd (m w)) = g w)"

text \<open>The calls to Drive that the handlers make do not throw.\<close>

definition driveWorks :: "world \<Rightarrow> bool" where
  "driveWorks w =
     (\<not> faults w OpGetRootFolder \<and> \<not> faults w OpGetFoldersByName \<and> \<not> faults w OpCreateFolder
      \<and> \<not> faults w OpGetFolderById \<and> \<not> faults w OpCreateFile)"

section \<open>Frame lemmas\<close>

lemma keepsD: "keeps g m \<Longrightarrow> m w = (r, w') \<Longrightarrow> g w' = g w"
  by (metis keeps_def snd_conv)

lemma keeps_returnE [intro!]: "keeps g (returnE x)"
  by (simp add: keeps_def returnE_def)

lemma keeps_throwE [intro!]: "keeps g (throwE e)"
  by (simp add: keeps_def throwE_def)

lemma keeps_read [intro!]: "keeps g (\<lambda>w. (h w, w))"
  by (simp add: keeps_def)

lemma keeps_bindE [intro!]: "keeps g m \<Longrightarrow> (\<And>x. keeps g (f x)) \<Longrightarrow> keeps g (bindE m f)"
  by (auto simp: keeps_def bindE_def split: prod.splits sum.splits) (metis snd_conv)+

lemma keeps_catchE [intro!]: "keeps g m \<Longrightarrow> (\<And>e. keeps g (h e)) \<Longrightarrow> keeps g (catchE m h)"
  by (auto simp: keeps_def catchE_def split: prod.splits sum.splits) (metis snd_conv)+

lemma keeps_if [intro!]: "keeps g a \<Longrightarrow> keeps g b \<Longrightarrow> keeps g (if c then a else b)"
  by simp

lemma keeps_case_option [intro!]:
  "keeps g a \<Longrightarrow> (\<And>x. keeps g (b x)) \<Longrightarrow> keeps g (case v of None \<Rightarrow> a | Some x \<Rightarrow> b x)"
  by (cases v) auto

lemma keeps_case_list [intro!]:
  "keeps g a \<Longrightarrow> (\<And>x xs. keeps g (b x xs)) \<Longrightarrow> keeps g (case v of [] \<Rightarrow> a | x # xs \<Rightarrow> b x xs)"
  by (cases v) auto

lemma keeps_platformCall [intro!]: "keeps g (platformCall op)"
  by (simp add: keeps_def platformCall_def)

lemma keeps_logE: "(\<And>w l. g (w\<lparr>logged := l\<rparr>) = g w) \<Longrightarrow> keeps g (logE e)"
  by (simp add: keeps_def logE_def)

lemma keeps_createFolder:
  "(\<And>w fs. g (w\<lparr>folders := fs\<rparr>) = g w) \<Longrightarrow> keeps g (createFolder P p n)"
  by (auto simp: keeps_def createFolder_def bindE_def platformCall_def Let_def)

lemma keeps_getRootFolder [intro!]: "keeps g getRootFolder"
  unfolding getRootFolder_def by (intro keeps_bindE keeps_platformCall keeps_read)

lemma keeps_getFoldersByName [intro!]: "keeps g (getFoldersByName p n)"
  unfolding getFoldersByName_def by (intro keeps_bindE keeps_platformCall keeps_read)

lemma keeps_getFolderById [intro!]: "keeps g (getFolderById i)"
  by (auto simp: keeps_def getFolderById_def bindE_def platformCall_def split: option.splits)

lemma keeps_getOrCreateFolderIdByName:
  assumes "\<And>w l. g (w\<lparr>logged := l\<rparr>) = g w" and "\<And>w fs. g (w\<lparr>folders := fs\<rparr>) = g w"
  shows "keeps g (getOrCreateFolderIdByName P n p)"
  unfolding getOrCreateFolderIdByName_def Let_def
  by (intro keeps_bindE keeps_case_option keeps_if keeps_case_list keeps_catchE keeps_returnE
        keeps_throwE keeps_getRootFolder keeps_getFoldersByName keeps_logE keeps_createFolder assms)


lemma keeps_withSheet [intro!]: "(\<And>sh. keeps g (f sh)) \<Longrightarrow> keeps g (withSheet n f)"
  by (auto simp: keeps_def withSheet_def split: option.splits)

lemma keeps_putSheet: "(\<And>w s. g (w\<lparr>sheets := s\<rparr>) = g w) \<Longrightarrow> keeps g (putSheet n sh)"
  by (simp add: keeps_def putSheet_def)

lemma keeps_openById [intro!]: "keeps g openById"
  by (simp add: openById_def keeps_platformCall)

lemma keeps_getSheetByName [intro!]: "keeps g (getSheetByName n)"
  unfolding getSheetByName_def by (intro keeps_bindE keeps_platformCall keeps_read)

lemma keeps_getValue [intro!]: "keeps g (getValue n r c)"
  unfolding getValue_def by (intro keeps_bindE keeps_platformCall keeps_withSheet keeps_returnE)

lemma keeps_getSubFolderNameFromSheet:
  assumes "\<And>w l. g (w\<lparr>logged := l\<rparr>) = g w"
  shows "keeps g (getSubFolderNameFromSheet P)"
  unfolding getSubFolderNameFromSheet_def Let_def
  by (intro keeps_bindE keeps_case_option keeps_if keeps_catchE keeps_returnE
        keeps_openById keeps_getSheetByName keeps_getValue keeps_logE assms)

lemma keeps_resolveTarget:
  assumes "\<And>w l. g (w\<lparr>logged := l\<rparr>) = g w" and "\<And>w fs. g (w\<lparr>folders := fs\<rparr>) = g w"
  shows "keeps g (resolveTarget P b)"
  unfolding resolveTarget_def Let_def
  by (intro keeps_bindE keeps_case_option keeps_if keeps_returnE keeps_getFolderById
        keeps_getOrCreateFolderIdByName keeps_getSubFolderNameFromSheet keeps_logE assms)

lemma resolveTarget_frame:
  assumes "resolveTarget P b w = (r, w')"
  shows "files w' = files w \<and> sheets w' = sheets w \<and> faults w' = faults w"
proof -
  have "keeps files (resolveTarget P b)" "keeps sheets (resolveTarget P b)"
    "keeps faults (resolveTarget P b)"
    by (rule keeps_resolveTarget; simp)+
  from this [THEN keepsD, OF assms] show ?thesis by simp
qed

lemma keeps_insertSheet: "(\<And>w s. g (w\<lparr>sheets := s\<rparr>) = g w) \<Longrightarrow> keeps g (insertSheet n)"
  unfolding insertSheet_def by (intro keeps_bindE keeps_platformCall keeps_returnE keeps_putSheet)

lemma keeps_appendRow: "(\<And>w s. g (w\<lparr>sheets := s\<rparr>) = g w) \<Longrightarrow> keeps g (appendRow n vs)"
  unfolding appendRow_def by (intro keeps_bindE keeps_platformCall keeps_withSheet keeps_putSheet)

lemma keeps_getLastColumn [intro!]: "keeps g (getLastColumn n)"
  unfolding getLastColumn_def by (intro keeps_bindE keeps_platformCall keeps_withSheet keeps_returnE)

lemma keeps_getRowValues [intro!]: "keeps g (getRowValues n r c k)"
  unfolding getRowValues_def
  by (intro keeps_bindE keeps_if keeps_throwE keeps_platformCall keeps_withSheet keeps_returnE)

lemma keeps_setValue: "(\<And>w s. g (w\<lparr>sheets := s\<rparr>) = g w) \<Longrightarrow> keeps g (setValue n r c v)"
  unfolding setValue_def
  by (intro keeps_bindE keeps_if keeps_throwE keeps_platformCall keeps_withSheet keeps_putSheet)

lemma keeps_setBold: "(\<And>w s. g (w\<lparr>sheets := s\<rparr>) = g w) \<Longrightarrow> keeps g (setBold n r c k)"
  unfolding setBold_def
  by (intro keeps_bindE keeps_if keeps_throwE keeps_platformCall keeps_withSheet keeps_putSheet)

lemma keeps_setColumnWidth:
  "(\<And>w s. g (w\<lparr>sheets := s\<rparr>) = g w) \<Longrightarrow> keeps g (setColumnWidth n c px)"
  unfolding setColumnWidth_def
  by (intro keeps_bindE keeps_platformCall keeps_withSheet keeps_putSheet)

lemma keeps_formatNow [intro!]: "keeps g formatNow"
  unfolding formatNow_def by (intro keeps_bindE keeps_platformCall keeps_read)

lemma keeps_createHistorySheetIfNotExists:
  assumes "\<And>w l. g (w\<lparr>logged := l\<rparr>) = g w" and "\<And>w s. g (w\<lparr>sheets := s\<rparr>) = g w"
  shows "keeps g createHistorySheetIfNotExists"
  unfolding createHistorySheetIfNotExists_def Let_def
  by (intro keeps_bindE keeps_case_option keeps_if keeps_returnE keeps_openById
        keeps_getSheetByName keeps_insertSheet keeps_appendRow keeps_setBold
        keeps_setColumnWidth keeps_getLastColumn keeps_getRowValues keeps_setValue
        keeps_logE assms)

lemma keeps_addRecordToHistorySheet:
  assumes "\<And>w l. g (w\<lparr>logged := l\<rparr>) = g w" and "\<And>w s. g (w\<lparr>sheets := s\<rparr>) = g w"
  shows "keeps g (addRecordToHistorySheet P a b c d e f)"
  unfolding addRecordToHistorySheet_def Let_def
  by (intro keeps_bindE keeps_catchE keeps_formatNow keeps_appendRow
        keeps_createHistorySheetIfNotExists keeps_logE assms)

lemma addRecordToHistorySheet_returns:
  "fst (addRecordToHistorySheet P a b c d e f w) = Inr ()"
  by (auto simp: addRecordToHistorySheet_def catchE_def logE_def split: prod.splits sum.splits)

lemma addRecordToHistorySheet_frame:
  assumes "addRecordToHistorySheet P a b c d e f w = (r, w')"
  shows "r = Inr () \<and> files w' = files w \<and> folders w' = folders w \<and> faults w' = faults w"
proof -
  have "keeps files (addRecordToHistorySheet P a b c d e f)"
    "keeps folders (addRecordToHistorySheet P a b c d e f)"
    "keeps faults (addRecordToHistorySheet P a b c d e f)"
    by (rule keeps_addRecordToHistorySheet; simp)+
  from this [THEN keepsD, OF assms] addRecordToHistorySheet_returns [of P a b c d e f w] assms
  show ?thesis by simp
qed

lemma createFile_cases:
  assumes "createFile P t n m c w = (r, w')"
  shows "(\<exists>e. r = Inl e \<and> w' = w) \<or>
         (\<exists>f. r = Inr f \<and> w' = w\<lparr>files := files w @ [f]\<rparr> \<and> file_name f = n \<and> file_mime f = m
               \<and> file_content f = c \<and> file_parent f = fid t)"
  using assms
  by (auto simp: createFile_def bindE_def platformCall_def Let_def split: if_splits)

section \<open>The outcomes of the save handlers\<close>

lemma isString_conv: "isString v \<longleftrightarrow> (\<exists>s. v = JStr s)"
  by (cases v) auto

lemma if_JStr: "(if c then JStr a else JStr b) = JStr (if c then a else b)"
  by simp

lemma toLowerCase_webm [simp]: "toLowerCase P (ascii ''webm'') = ascii ''webm''"
  by (simp add: toLowerCase_def ascii_def asciiLower_def)

lemma toLowerCase_jpg [simp]: "toLowerCase P (ascii ''jpg'') = ascii ''jpg''"
  by (simp add: toLowerCase_def ascii_def asciiLower_def)

lemma jsMatch_nonstring: "\<not> isString u \<Longrightarrow> jsMatch re u = throwE TypeError"
  by (cases u) (auto simp: jsMatch_def)

lemma jsMatch_string [simp]: "jsMatch re (JStr s) = returnE (re s)"
  by (simp add: jsMatch_def)

text \<open>
  What is left of a handler once the target folder is resolved: either resolving threw,
  or the rest \<open>K\<close> runs in a world with the same files and sheets.
\<close>

lemma after_resolveTarget:
  assumes "bindE (resolveTarget P lf) K w = (r, w')"
  shows "(\<exists>e. r = Inl e \<and> files w' = files w \<and> sheets w' = sheets w) \<or>
         (\<exists>tgt w1. K tgt w1 = (r, w') \<and> files w1 = files w \<and> sheets w1 = sheets w
            \<and> faults w1 = faults w)"
proof (cases "resolveTarget P lf w")
  case (Pair a w1)
  from resolveTarget_frame [OF Pair] Pair assms show ?thesis
    by (cases a) (auto simp: bindE_def)
qed

text \<open>The steps from the write of the file on: they cannot throw once the file is written.\<close>

lemma write_and_record:
  assumes "bindE (createFile P t n m c) (\<lambda>file.
             bindE (addRecordToHistorySheet P n p u (file_url file) fmt lbl) (\<lambda>_. K file)) w1
           = (r, w')"
    and "\<And>file w2. \<exists>res. K file w2 = (Inr res, w2\<lparr>logged := logged w2 @ L\<rparr>) \<and> Q res file"
  shows "(\<exists>e. r = Inl e \<and> w' = w1) \<or>
         (\<exists>res f. r = Inr res \<and> Q res f \<and> files w' = files w1 @ [f] \<and> file_name f = n
            \<and> file_mime f = m \<and> file_content f = c)"
proof (cases "createFile P t n m c w1")
  case (Pair a w2)
  from createFile_cases [OF Pair] show ?thesis
  proof (elim disjE exE conjE)
    fix e assume "a = Inl e" "w2 = w1"
    with Pair assms(1) show ?thesis by (auto simp: bindE_def)
  next
    fix f assume f: "a = Inr f" "w2 = w1\<lparr>files := files w1 @ [f]\<rparr>" "file_name f = n"
      "file_mime f = m" "file_content f = c" "file_parent f = fid t"
    obtain b w3 where h: "addRecordToHistorySheet P n p u (file_url f) fmt lbl w2 = (b, w3)"
      by (cases "addRecordToHistorySheet P n p u (file_url f) fmt lbl w2")
    from addRecordToHistorySheet_frame [OF h] have b: "b = Inr ()" "files w3 = files w2" by simp_all
    from assms(2) [of f w3] obtain res where
      res: "K f w3 = (Inr res, w3\<lparr>logged := logged w3 @ L\<rparr>)" "Q res f" by blast
    from Pair f h b res assms(1) have "r = Inr res" "w' = w3\<lparr>logged := logged w3 @ L\<rparr>"
      by (simp_all add: bindE_def)
    with f b res show ?thesis by auto
  qed
qed

lemma bindE_returnE [simp]: "bindE (returnE x) f = f x"
  by (simp add: bindE_def returnE_def)

lemma bindE_throwE [simp]: "bindE (throwE e) f = throwE e"
  by (simp add: bindE_def throwE_def)

lemma jsToLowerCase_string [simp]: "jsToLowerCase P (JStr s) = returnE (toLowerCase P s)"
  by (simp add: jsToLowerCase_def)

lemma jsToUpperCase_string [simp]: "jsToUpperCase P (JStr s) = returnE (toUpperCase P s)"
  by (simp add: jsToUpperCase_def)

lemma world_logged_Nil [simp]: "w\<lparr>logged := logged w @ []\<rparr> = w"
  by simp

lemma saveTextFile_try_cases:
  assumes "saveTextFile_try P u b w = (r, w')"
  shows "(\<exists>e. r = Inl e \<and> files w' = files w \<and> sheets w' = sheets w) \<or>
         (\<exists>res s base f. r = Inr res \<and> success res \<and> u = JStr s \<and> s \<noteq> [] \<and> b = JStr base
            \<and> trim base \<noteq> []
            \<and> files w' = files w @ [f]
            \<and> file_name f = base @ ascii ''.txt''
            \<and> file_mime f = JStr (ascii ''text/plain'') \<and> file_content f = Text s)"
proof (cases "\<exists>s base. u = JStr s \<and> s \<noteq> [] \<and> b = JStr base \<and> trim base \<noteq> []")
  case False
  then have "r = Inl InvalidTextData \<and> w' = w \<or> r = Inl InvalidFileName \<and> w' = w"
    using assms unfolding saveTextFile_try_def
    by (cases u; cases b) (auto simp: throwE_def split: if_splits)
  then show ?thesis by auto
next
  case True
  then obtain s base where ub: "u = JStr s" "s \<noteq> []" "b = JStr base" "trim base \<noteq> []" by blast
  then have base: "base \<noteq> []" by (auto simp: trim_def)
  from assms ub base have "bindE (resolveTarget P False)
        (\<lambda>(targetFolder, folderPathText, targetFolderUrl).
        bindE (createFile P targetFolder (base @ ascii ''.txt'') (JStr (ascii ''text/plain''))
                 (Text s)) (\<lambda>file.
        bindE (addRecordToHistorySheet P (base @ ascii ''.txt'') folderPathText targetFolderUrl
                 (file_url file) (ascii ''TXT'') (mediaLabel TextFile)) (\<lambda>_.
        returnE \<lparr>success = True, message = SavedMsg TextFile (base @ ascii ''.txt'') folderPathText,
                 resultFileId = None, resultFileName = None, resultFileUrl = None\<rparr>))) w = (r, w')"
    unfolding saveTextFile_try_def Let_def by simp
  from after_resolveTarget [OF this] show ?thesis
  proof (elim disjE exE conjE)
    fix tgt w1
    assume w1: "files w1 = files w" "sheets w1 = sheets w"
      and K: "(case tgt of (targetFolder, folderPathText, targetFolderUrl) \<Rightarrow>
        bindE (createFile P targetFolder (base @ ascii ''.txt'') (JStr (ascii ''text/plain''))
                 (Text s)) (\<lambda>file.
        bindE (addRecordToHistorySheet P (base @ ascii ''.txt'') folderPathText targetFolderUrl
                 (file_url file) (ascii ''TXT'') (mediaLabel TextFile)) (\<lambda>_.
        returnE \<lparr>success = True, message = SavedMsg TextFile (base @ ascii ''.txt'') folderPathText,
                 resultFileId = None, resultFileName = None, resultFileUrl = None\<rparr>))) w1 = (r, w')"
    obtain t p url where tgt: "tgt = (t, p, url)" by (cases tgt)
    from K [unfolded tgt prod.case]
    have "(\<exists>e. r = Inl e \<and> w' = w1) \<or>
         (\<exists>res f. r = Inr res \<and> success res \<and> files w' = files w1 @ [f]
            \<and> file_name f = base @ ascii ''.txt''
            \<and> file_mime f = JStr (ascii ''text/plain'') \<and> file_content f = Text s)"
      by (rule write_and_record [where L = "[]" and Q = "\<lambda>res f. success res"])
         (simp add: returnE_def)
    with w1 ub show ?thesis by auto
  qed auto
qed

lemma decodeBase64_None [simp]: "base64Decode P d = None \<Longrightarrow> decodeBase64 P d = throwE Base64Error"
  by (simp add: decodeBase64_def)

lemma decodeBase64_Some [simp]: "base64Decode P d = Some bs \<Longrightarrow> decodeBase64 P d = returnE bs"
  by (simp add: decodeBase64_def)

lemma throwE_apply: "throwE e w = (Inl e, w)"
  by (simp add: throwE_def)

lemma returnE_apply: "returnE x w = (Inr x, w)"
  by (simp add: returnE_def)

lemma saveVideoFile_try_cases:
  assumes "saveVideoFile_try P u b x mt w = (r, w')"
  shows "(\<exists>e. r = Inl e \<and> files w' = files w \<and> sheets w' = sheets w) \<or>
         (\<exists>res s ext m d f. r = Inr res \<and> success res \<and> u = JStr s \<and> truthy b
            \<and> withDefault (JStr (ascii ''webm'')) x = JStr ext
            \<and> matchDataUrl s = Some (m, d)
            \<and> files w' = files w @ [f]
            \<and> file_name f = toStringJS P b @ ascii ''.'' @
                 (if toLowerCase P ext \<in> set [ascii ''mp4'', ascii ''webm'']
                  then toLowerCase P ext else ascii ''webm'')
            \<and> file_mime f = (if truthy (withDefault (JStr (ascii ''video/webm'')) mt)
                              then withDefault (JStr (ascii ''video/webm'')) mt else JStr m))"
proof (cases "truthy u \<and> truthy b")
  case False
  then have "r = Inl InvalidVideoArgs \<and> w' = w"
    using assms unfolding saveVideoFile_try_def by (auto simp: throwE_def Let_def)
  then show ?thesis by auto
next
  case args: True
  show ?thesis
  proof (cases "\<exists>ext. withDefault (JStr (ascii ''webm'')) x = JStr ext")
    case False
    then have "r = Inl TypeError \<and> w' = w"
      using assms args unfolding saveVideoFile_try_def
      by (cases "withDefault (JStr (ascii ''webm'')) x")
         (auto simp: throwE_def bindE_def Let_def jsToLowerCase_def)
    then show ?thesis by auto
  next
    case True
    then obtain ext where ext: "withDefault (JStr (ascii ''webm'')) x = JStr ext" by blast
    from args have [simp]: "truthy u" "truthy b" by simp_all
    note step = assms [unfolded saveVideoFile_try_def Let_def ext, simplified if_JStr, simplified]
    from after_resolveTarget [OF step] show ?thesis
    proof (elim disjE exE conjE, goal_cases)
      case (1 e)
      then show ?case by auto
    next
      case (2 tgt w1)
      obtain t p url where tgt: "tgt = (t, p, url)" by (cases tgt)
      note K = 2(1) [unfolded tgt prod.case]
      show ?case
      proof (cases "isString u")
        case False
        from K [unfolded jsMatch_nonstring [OF False], simplified] 2 show ?thesis
          by (auto simp: throwE_def)
      next
        case True
        then obtain s where s [simp]: "u = JStr s" by (auto simp: isString_conv)
        show ?thesis
        proof (cases "matchDataUrl s")
          case None
          note [simp] = None
          from K [simplified] 2 show ?thesis by (auto simp: throwE_def)
        next
          case (Some md)
          then obtain m d where md [simp]: "matchDataUrl s = Some (m, d)" by (cases md) auto
          show ?thesis
          proof (cases "base64Decode P d")
            case None
            note [simp] = None
            from K [simplified] 2 show ?thesis by (auto simp: throwE_def)
          next
            case (Some bs)
            note [simp] = Some
            from K [simplified]
            have "(\<exists>e. r = Inl e \<and> w' = w1) \<or>
              (\<exists>res f. r = Inr res \<and> success res \<and> files w' = files w1 @ [f]
                \<and> file_name f = toStringJS P b @ ascii ''.'' @
                     toLowerCase P (if toLowerCase P ext \<noteq> ascii ''mp4'' \<and> toLowerCase P ext \<noteq> ascii ''webm''
                        then ascii ''webm'' else ext)
                \<and> file_mime f = (if truthy (withDefault (JStr (ascii ''video/webm'')) mt)
                              then withDefault (JStr (ascii ''video/webm'')) mt else JStr m)
                \<and> file_content f = Bytes bs)"
              by (rule write_and_record [where L = "[]" and Q = "\<lambda>res f. success res"])
                 (simp add: returnE_def)
            with 2 ext show ?thesis by auto
          qed
        qed
      qed
    qed
  qed
qed

lemma savePhotoFile_try_cases:
  assumes "savePhotoFile_try P u b x w = (r, w')"
  shows "(\<exists>e. r = Inl e \<and> files w' = files w \<and> sheets w' = sheets w) \<or>
         (\<exists>res s ext m d f. r = Inr res \<and> success res \<and> u = JStr s \<and> truthy b
            \<and> withDefault (JStr (ascii ''jpg'')) x = JStr ext
            \<and> matchDataUrl s = Some (m, d)
            \<and> files w' = files w @ [f]
            \<and> file_name f = toStringJS P b @ ascii ''.'' @
                 (if toLowerCase P ext \<in> set [ascii ''jpg'', ascii ''jpeg'', ascii ''png'']
                  then toLowerCase P ext else ascii ''jpg'')
            \<and> file_mime f = JStr m)"
proof (cases "truthy u \<and> truthy b")
  case False
  then have "r = Inl InvalidPhotoArgs \<and> w' = w"
    using assms unfolding savePhotoFile_try_def by (auto simp: throwE_def Let_def)
  then show ?thesis by auto
next
  case args: True
  show ?thesis
  proof (cases "\<exists>ext. withDefault (JStr (ascii ''jpg'')) x = JStr ext")
    case False
    then have "r = Inl TypeError \<and> w' = w"
      using assms args unfolding savePhotoFile_try_def
      by (cases "withDefault (JStr (ascii ''jpg'')) x")
         (auto simp: throwE_def bindE_def Let_def jsToLowerCase_def)
    then show ?thesis by auto
  next
    case True
    then obtain ext where ext: "withDefault (JStr (ascii ''jpg'')) x = JStr ext" by blast
    from args have [simp]: "truthy u" "truthy b" by simp_all
    note step = assms [unfolded savePhotoFile_try_def Let_def ext, simplified if_JStr, simplified]
    from after_resolveTarget [OF step] show ?thesis
    proof (elim disjE exE conjE, goal_cases)
      case (1 e)
      then show ?case by auto
    next
      case (2 tgt w1)
      obtain t p url where tgt: "tgt = (t, p, url)" by (cases tgt)
      note K = 2(1) [unfolded tgt prod.case]
      show ?case
      proof (cases "isString u")
        case False
        from K [unfolded jsMatch_nonstring [OF False], simplified] 2 show ?thesis
          by (auto simp: throwE_def)
      next
        case True
        then obtain s where s [simp]: "u = JStr s" by (auto simp: isString_conv)
        show ?thesis
        proof (cases "matchDataUrl s")
          case None
          note [simp] = None
          from K [simplified] 2 show ?thesis by (auto simp: throwE_def)
        next
          case (Some md)
          then obtain m d where md [simp]: "matchDataUrl s = Some (m, d)" by (cases md) auto
          show ?thesis
          proof (cases "base64Decode P d")
            case None
            note [simp] = None
            from K [simplified] 2 show ?thesis by (auto simp: throwE_def)
          next
            case (Some bs)
            note [simp] = Some
            from K [simplified]
            have "(\<exists>e. r = Inl e \<and> w' = w1) \<or>
              (\<exists>res f. r = Inr res \<and> success res \<and> files w' = files w1 @ [f]
                \<and> file_name f = toStringJS P b @ ascii ''.'' @
                     toLowerCase P (if toLowerCase P ext \<noteq> ascii ''jpg''
                          \<and> toLowerCase P ext \<noteq> ascii ''jpeg'' \<and> toLowerCase P ext \<noteq> ascii ''png''
                        then ascii ''jpg'' else ext)
                \<and> file_mime f = JStr m
                \<and> file_content f = Bytes bs)"
              by (rule write_and_record [where L = "[]" and Q = "\<lambda>res f. success res"])
                 (simp add: returnE_def)
            with 2 ext show ?thesis by auto
          qed
        qed
      qed
    qed
  qed
qed

lemma saveAudioFile_try_cases:
  assumes "saveAudioFile_try P u b w = (r, w')"
  shows "(\<exists>e. r = Inl e \<and> files w' = files w \<and> sheets w' = sheets w) \<or>
         (\<exists>res s base m d f. r = Inr res \<and> success res \<and> u = JStr s \<and> b = JStr base
            \<and> trim base \<noteq> [] \<and> matchDataUrl s = Some (m, d)
            \<and> files w' = files w @ [f]
            \<and> file_name f = (if endsWith (toLowerCase P base) (ascii ''.mp3'')
                              then base else base @ ascii ''.mp3'')
            \<and> file_mime f = JStr m \<and> resultFileName res = Some (file_name f))"
proof (cases "\<exists>s base. u = JStr s \<and> s \<noteq> [] \<and> b = JStr base \<and> trim base \<noteq> []")
  case False
  then have "r = Inl InvalidAudioData \<and> w' = w \<or> r = Inl InvalidFileName \<and> w' = w"
    using assms unfolding saveAudioFile_try_def
    by (cases u; cases b) (auto simp: throwE_def split: if_splits)
  then show ?thesis by auto
next
  case True
  then obtain s base where ub [simp]: "u = JStr s" "s \<noteq> []" "b = JStr base" "trim base \<noteq> []"
    by blast
  then have base [simp]: "base \<noteq> []" by (auto simp: trim_def)
  note step = assms [unfolded saveAudioFile_try_def, simplified]
  from after_resolveTarget [OF step] show ?thesis
  proof (elim disjE exE conjE, goal_cases)
    case (1 e)
    then show ?case by auto
  next
    case (2 tgt w1)
    obtain t p url where tgt: "tgt = (t, p, url)" by (cases tgt)
    note K = 2(1) [unfolded tgt prod.case]
    show ?case
    proof (cases "matchDataUrl s")
      case None
      note [simp] = None
      from K [simplified] 2 show ?thesis by (auto simp: throwE_def)
    next
      case (Some md)
      then obtain m d where md [simp]: "matchDataUrl s = Some (m, d)" by (cases md) auto
      show ?thesis
      proof (cases "base64Decode P d")
        case None
        note [simp] = None
        from K [simplified] 2 show ?thesis by (auto simp: throwE_def Let_def)
      next
        case (Some bs)
        note [simp] = Some
        define n where "n = (if endsWith (toLowerCase P base) (ascii ''.mp3'')
                              then toStringJS P b else toStringJS P b @ ascii ''.mp3'')"
        from K [unfolded Let_def, simplified, folded n_def]
        have "(\<exists>e. r = Inl e \<and> w' = w1) \<or>
              (\<exists>res f. r = Inr res \<and> (success res \<and> resultFileName res = Some n)
                \<and> files w' = files w1 @ [f] \<and> file_name f = n
                \<and> file_mime f = JStr m \<and> file_content f = Bytes bs)"
          by (rule write_and_record [where L = "[LogSaved Audio n]"
                and Q = "\<lambda>res f. success res \<and> resultFileName res = Some n"])
             (simp add: returnE_def bindE_def logE_def)
        with 2 show ?thesis by (auto simp: n_def)
      qed
    qed
  qed
qed

lemma saveDrawingFile_try_cases:
  assumes "saveDrawingFile_try P u b w = (r, w')"
  shows "(\<exists>e. r = Inl e \<and> files w' = files w \<and> sheets w' = sheets w) \<or>
         (\<exists>res s d f. r = Inr res \<and> success res \<and> u = JStr s \<and> truthy b
            \<and> matchPngUrl s = Some (ascii ''image/png'', d)
            \<and> files w' = files w @ [f] \<and> file_name f = toStringJS P b @ ascii ''.png''
            \<and> file_mime f = JStr (ascii ''image/png''))"
proof (cases "truthy u \<and> truthy b")
  case False
  then have "r = Inl InvalidDrawingArgs \<and> w' = w"
    using assms unfolding saveDrawingFile_try_def by (auto simp: throwE_def)
  then show ?thesis by auto
next
  case True
  then have [simp]: "truthy u" "truthy b" by simp_all
  note step = assms [unfolded saveDrawingFile_try_def Let_def, simplified]
  from after_resolveTarget [OF step] show ?thesis
  proof (elim disjE exE conjE, goal_cases)
    case (1 e)
    then show ?case by auto
  next
    case (2 tgt w1)
    obtain t p url where tgt: "tgt = (t, p, url)" by (cases tgt)
    note K = 2(1) [unfolded tgt prod.case]
    show ?case
    proof (cases "isString u")
      case False
      from K [unfolded jsMatch_nonstring [OF False], simplified] 2 show ?thesis
        by (auto simp: throwE_def)
    next
      case True
      then obtain s where s [simp]: "u = JStr s" by (auto simp: isString_conv)
      show ?thesis
      proof (cases "matchPngUrl s")
        case None
        note [simp] = None
        from K [simplified] 2 show ?thesis by (auto simp: throwE_def)
      next
        case (Some md)
        then obtain d where md [simp]: "matchPngUrl s = Some (ascii ''image/png'', d)"
          by (cases md) (auto simp: matchPngUrl_def split: if_splits)
        show ?thesis
        proof (cases "base64Decode P d")
          case None
          note [simp] = None
          from K [simplified] 2 show ?thesis by (auto simp: throwE_def)
        next
          case (Some bs)
          note [simp] = Some
          from K [simplified]
          have "(\<exists>e. r = Inl e \<and> w' = w1) \<or>
            (\<exists>res f. r = Inr res \<and> success res \<and> files w' = files w1 @ [f]
              \<and> file_name f = toStringJS P b @ ascii ''.png''
              \<and> file_mime f = JStr (ascii ''image/png'')
              \<and> file_content f = Bytes bs)"
            by (rule write_and_record [where L = "[]" and Q = "\<lambda>res f. success res"])
               (simp add: returnE_def)
          with 2 show ?thesis by auto
        qed
      qed
    qed
  qed
qed

text \<open>The same outcomes, read off the handlers themselves.\<close>

lemma tryCatchSave_Inl:
  assumes "body w = (Inl e, w')"
  shows "fst (tryCatchSave m body w) = failureResult m"
    and "files (snd (tryCatchSave m body w)) = files w'"
    and "sheets (snd (tryCatchSave m body w)) = sheets w'"
    and "folders (snd (tryCatchSave m body w)) = folders w'"
  using assms by (simp_all add: tryCatchSave_def)

lemma tryCatchSave_Inr: "body w = (Inr res, w') \<Longrightarrow> tryCatchSave m body w = (res, w')"
  by (simp add: tryCatchSave_def)

lemma saveAudioFile_cases:
  "(fst (saveAudioFile P u b w) = failureResult Audio
      \<and> files (snd (saveAudioFile P u b w)) = files w
      \<and> sheets (snd (saveAudioFile P u b w)) = sheets w) \<or>
   (\<exists>s base m d f. success (fst (saveAudioFile P u b w)) \<and> u = JStr s \<and> b = JStr base
      \<and> trim base \<noteq> [] \<and> matchDataUrl s = Some (m, d)
      \<and> files (snd (saveAudioFile P u b w)) = files w @ [f]
      \<and> file_name f = (if endsWith (toLowerCase P base) (ascii ''.mp3'')
                        then base else base @ ascii ''.mp3'')
      \<and> file_mime f = JStr m
      \<and> resultFileName (fst (saveAudioFile P u b w)) = Some (file_name f))"
proof -
  obtain r w' where rw: "saveAudioFile_try P u b w = (r, w')"
    by (cases "saveAudioFile_try P u b w")
  show ?thesis
  proof (cases r)
    case (Inl e)
    with saveAudioFile_try_cases [OF rw] have "files w' = files w" "sheets w' = sheets w" by auto
    with tryCatchSave_Inl [where body = "saveAudioFile_try P u b", OF rw [unfolded Inl]] show ?thesis
      unfolding saveAudioFile_def by simp
  next
    case (Inr res)
    from tryCatchSave_Inr [where body = "saveAudioFile_try P u b", OF rw [unfolded Inr]]
    have eq: "saveAudioFile P u b w = (res, w')"
      unfolding saveAudioFile_def .
    from saveAudioFile_try_cases [OF rw] Inr show ?thesis
      unfolding eq fst_conv snd_conv by blast
  qed
qed

lemma saveVideoFile_cases:
  "(fst (saveVideoFile P u b x mt w) = failureResult Video
      \<and> files (snd (saveVideoFile P u b x mt w)) = files w
      \<and> sheets (snd (saveVideoFile P u b x mt w)) = sheets w) \<or>
   (\<exists>s ext m d f. success (fst (saveVideoFile P u b x mt w)) \<and> u = JStr s \<and> truthy b
      \<and> withDefault (JStr (ascii ''webm'')) x = JStr ext
      \<and> matchDataUrl s = Some (m, d)
      \<and> files (snd (saveVideoFile P u b x mt w)) = files w @ [f]
      \<and> file_name f = toStringJS P b @ ascii ''.'' @
           (if toLowerCase P ext \<in> set [ascii ''mp4'', ascii ''webm'']
            then toLowerCase P ext else ascii ''webm'')
      \<and> file_mime f = (if truthy (withDefault (JStr (ascii ''video/webm'')) mt)
                        then withDefault (JStr (ascii ''video/webm'')) mt else JStr m))"
proof -
  obtain r w' where rw: "saveVideoFile_try P u b x mt w = (r, w')"
    by (cases "saveVideoFile_try P u b x mt w")
  show ?thesis
  proof (cases r)
    case (Inl e)
    with saveVideoFile_try_cases [OF rw] have "files w' = files w" "sheets w' = sheets w" by auto
    with tryCatchSave_Inl [where body = "saveVideoFile_try P u b x mt", OF rw [unfolded Inl]] show ?thesis
      unfolding saveVideoFile_def by simp
  next
    case (Inr res)
    from tryCatchSave_Inr [where body = "saveVideoFile_try P u b x mt", OF rw [unfolded Inr]]
    have eq: "saveVideoFile P u b x mt w = (res, w')"
      unfolding saveVideoFile_def .
    from saveVideoFile_try_cases [OF rw] Inr show ?thesis
      unfolding eq fst_conv snd_conv by blast
  qed
qed

lemma savePhotoFile_cases:
  "(fst (savePhotoFile P u b x w) = failureResult Photo
      \<and> files (snd (savePhotoFile P u b x w)) = files w
      \<and> sheets (snd (savePhotoFile P u b x w)) = sheets w) \<or>
   (\<exists>s ext m d f. success (fst (savePhotoFile P u b x w)) \<and> u = JStr s \<and> truthy b
      \<and> withDefault (JStr (ascii ''jpg'')) x = JStr ext
      \<and> matchDataUrl s = Some (m, d)
      \<and> files (snd (savePhotoFile P u b x w)) = files w @ [f]
      \<and> file_name f = toStringJS P b @ ascii ''.'' @
           (if toLowerCase P ext \<in> set [ascii ''jpg'', ascii ''jpeg'', ascii ''png'']
            then toLowerCase P ext else ascii ''jpg'')
      \<and> file_mime f = JStr m)"
proof -
  obtain r w' where rw: "savePhotoFile_try P u b x w = (r, w')"
    by (cases "savePhotoFile_try P u b x w")
  show ?thesis
  proof (cases r)
    case (Inl e)
    with savePhotoFile_try_cases [OF rw] have "files w' = files w" "sheets w' = sheets w" by auto
    with tryCatchSave_Inl [where body = "savePhotoFile_try P u b x", OF rw [unfolded Inl]] show ?thesis
      unfolding savePhotoFile_def by simp
  next
    case (Inr res)
    from tryCatchSave_Inr [where body = "savePhotoFile_try P u b x", OF rw [unfolded Inr]]
    have eq: "savePhotoFile P u b x w = (res, w')"
      unfolding savePhotoFile_def .
    from savePhotoFile_try_cases [OF rw] Inr show ?thesis
      unfolding eq fst_conv snd_conv by blast
  qed
qed

lemma saveDrawingFile_cases:
  "(fst (saveDrawingFile P u b w) = failureResult Drawing
      \<and> files (snd (saveDrawingFile P u b w)) = files w
      \<and> sheets (snd (saveDrawingFile P u b w)) = sheets w) \<or>
   (\<exists>s d f. success (fst (saveDrawingFile P u b w)) \<and> u = JStr s \<and> truthy b
      \<and> matchPngUrl s = Some (ascii ''image/png'', d)
      \<and> files (snd (saveDrawingFile P u b w)) = files w @ [f]
      \<and> file_name f = toStringJS P b @ ascii ''.png''
      \<and> file_mime f = JStr (ascii ''image/png''))"
proof -
  obtain r w' where rw: "saveDrawingFile_try P u b w = (r, w')"
    by (cases "saveDrawingFile_try P u b w")
  show ?thesis
  proof (cases r)
    case (Inl e)
    with saveDrawingFile_try_cases [OF rw] have "files w' = files w" "sheets w' = sheets w" by auto
    with tryCatchSave_Inl [where body = "saveDrawingFile_try P u b", OF rw [unfolded Inl]] show ?thesis
      unfolding saveDrawingFile_def by simp
  next
    case (Inr res)
    from tryCatchSave_Inr [where body = "saveDrawingFile_try P u b", OF rw [unfolded Inr]]
    have eq: "saveDrawingFile P u b w = (res, w')"
      unfolding saveDrawingFile_def .
    from saveDrawingFile_try_cases [OF rw] Inr show ?thesis
      unfolding eq fst_conv snd_conv by blast
  qed
qed

lemma saveTextFile_cases:
  "(fst (saveTextFile P u b w) = failureResult TextFile
      \<and> files (snd (saveTextFile P u b w)) = files w
      \<and> sheets (snd (saveTextFile P u b w)) = sheets w) \<or>
   (\<exists>s base f. success (fst (saveTextFile P u b w)) \<and> u = JStr s \<and> s \<noteq> [] \<and> b = JStr base
      \<and> trim base \<noteq> []
      \<and> files (snd (saveTextFile P u b w)) = files w @ [f]
      \<and> file_name f = base @ ascii ''.txt''
      \<and> file_mime f = JStr (ascii ''text/plain'') \<and> file_content f = Text s)"
proof -
  obtain r w' where rw: "saveTextFile_try P u b w = (r, w')"
    by (cases "saveTextFile_try P u b w")
  show ?thesis
  proof (cases r)
    case (Inl e)
    with saveTextFile_try_cases [OF rw] have "files w' = files w" "sheets w' = sheets w" by auto
    with tryCatchSave_Inl [where body = "saveTextFile_try P u b", OF rw [unfolded Inl]] show ?thesis
      unfolding saveTextFile_def by simp
  next
    case (Inr res)
    from tryCatchSave_Inr [where body = "saveTextFile_try P u b", OF rw [unfolded Inr]]
    have eq: "saveTextFile P u b w = (res, w')"
      unfolding saveTextFile_def .
    from saveTextFile_try_cases [OF rw] Inr show ?thesis
      unfolding eq fst_conv snd_conv by blast
  qed
qed

section \<open>The two patterns\<close>

lemma startsWith_conv: "startsWith s p \<longleftrightarrow> (\<exists>r. s = p @ r)"
  unfolding startsWith_def
  by (metis append_eq_conv_conj append_take_drop_id)

lemma splitMime_png:
  assumes "dataOk d"
  shows "splitMime [] (ascii ''image/png;base64,'' @ d) = Some (ascii ''image/png'', d)"
  using assms by (simp add: ascii_def startsWith_def isLineTerminator_def)

lemma matchPngUrl_matchDataUrl:
  assumes "matchPngUrl s = Some (m, d)"
  shows "matchDataUrl s = Some (ascii ''image/png'', d)"
proof -
  from assms have pre: "startsWith s (ascii ''data:image/png;base64,'')"
    and ok: "dataOk (drop 22 s)" and d: "d = drop 22 s"
    by (auto simp: matchPngUrl_def split: if_splits)
  from pre obtain r where s: "s = ascii ''data:image/png;base64,'' @ r"
    by (auto simp: startsWith_conv)
  from d have dr: "d = r" by (simp add: s ascii_def)
  have s': "s = ascii ''data:'' @ ascii ''image/png;base64,'' @ d"
    by (simp add: s dr ascii_def)
  have "startsWith s (ascii ''data:'')" unfolding startsWith_conv using s' by blast
  moreover have "drop 5 s = ascii ''image/png;base64,'' @ d"
    by (subst s') (simp add: ascii_def)
  ultimately show ?thesis
    unfolding matchDataUrl_def using splitMime_png ok d by simp
qed

lemma splitMime_sound:
  "splitMime acc r = Some (m, d) \<Longrightarrow> acc @ r = m @ ascii '';base64,'' @ d \<and> dataOk d \<and> m \<noteq> []"
proof (induction r arbitrary: acc)
  case Nil
  then show ?case by simp
next
  case (Cons c r)
  show ?case
  proof (cases "acc \<noteq> [] \<and> startsWith (c # r) (ascii '';base64,'') \<and> dataOk (drop 8 (c # r))")
    case True
    with Cons.prems have md: "m = acc" "d = drop 8 (c # r)" by simp_all
    from True obtain x where x: "c # r = ascii '';base64,'' @ x" by (auto simp: startsWith_conv)
    have "drop 8 (c # r) = x" unfolding x by (simp add: ascii_def)
    with True md x show ?thesis by simp
  next
    case False
    with Cons.prems have "splitMime (acc @ [c]) r = Some (m, d)"
      by (simp split: if_splits)
    from Cons.IH [OF this] show ?thesis by simp
  qed
qed

lemma matchDataUrl_sound:
  assumes "matchDataUrl s = Some (m, d)"
  shows "s = ascii ''data:'' @ m @ ascii '';base64,'' @ d \<and> dataOk d \<and> m \<noteq> []"
proof -
  from assms have pre: "startsWith s (ascii ''data:'')" and sp: "splitMime [] (drop 5 s) = Some (m, d)"
    by (auto simp: matchDataUrl_def split: if_splits)
  from pre obtain r where s: "s = ascii ''data:'' @ r" by (auto simp: startsWith_conv)
  have "drop 5 s = r" unfolding s by (simp add: ascii_def)
  with splitMime_sound [OF sp] s show ?thesis by simp
qed

lemma matchDataUrl_png_matchPngUrl:
  assumes "matchDataUrl s = Some (ascii ''image/png'', d)"
  shows "matchPngUrl s = Some (ascii ''image/png'', d)"
proof -
  from matchDataUrl_sound [OF assms]
  have s: "s = ascii ''data:'' @ ascii ''image/png'' @ ascii '';base64,'' @ d" and ok: "dataOk d"
    by simp_all
  have "s = ascii ''data:image/png;base64,'' @ d" by (subst s) (simp add: ascii_def)
  then have "startsWith s (ascii ''data:image/png;base64,'')" "drop 22 s = d"
    by (auto simp: startsWith_conv ascii_def)
  with ok show ?thesis by (simp add: matchPngUrl_def)
qed

section \<open>Saves that succeed\<close>

lemma dropWhile_all: "(\<forall>x\<in>set (dropWhile Q xs). Q x) \<longleftrightarrow> (\<forall>x\<in>set xs. Q x)"
proof
  assume a: "\<forall>x\<in>set (dropWhile Q xs). Q x"
  have "dropWhile Q xs = []"
  proof (rule ccontr)
    assume "dropWhile Q xs \<noteq> []"
    then have "\<not> Q (hd (dropWhile Q xs))" "hd (dropWhile Q xs) \<in> set (dropWhile Q xs)"
      by (simp_all add: hd_dropWhile)
    with a show False by blast
  qed
  then show "\<forall>x\<in>set xs. Q x" by simp
next
  assume "\<forall>x\<in>set xs. Q x"
  then show "\<forall>x\<in>set (dropWhile Q xs). Q x" by (blast dest: set_dropWhileD)
qed

lemma trim_eq_Nil_conv: "trim s = [] \<longleftrightarrow> (\<forall>c\<in>set s. isWhiteSpace c)"
  by (simp add: trim_def dropWhile_all)

lemma trim_has_ink:
  assumes "trim s \<noteq> []"
  shows "\<exists>c\<in>set (trim s). \<not> isWhiteSpace c"
proof -
  let ?d = "dropWhile isWhiteSpace (rev (dropWhile isWhiteSpace s))"
  from assms have ne: "?d \<noteq> []" by (simp add: trim_def)
  then have "\<not> isWhiteSpace (hd ?d)" "hd ?d \<in> set ?d" by (simp_all add: hd_dropWhile)
  then show ?thesis by (auto simp: trim_def)
qed

lemma sanitizeChar_ink: "\<not> isWhiteSpace c \<Longrightarrow> \<not> isWhiteSpace (sanitizeChar c)"
  by (simp add: sanitizeChar_def isWhiteSpace_def isLineTerminator_def)

lemma trim_sanitize:
  assumes "trim s \<noteq> []"
  shows "trim (map sanitizeChar (trim s)) \<noteq> []"
proof -
  from trim_has_ink [OF assms] obtain c where "c \<in> set (trim s)" "\<not> isWhiteSpace c" by blast
  then have "sanitizeChar c \<in> set (map sanitizeChar (trim s))" "\<not> isWhiteSpace (sanitizeChar c)"
    by (simp_all add: sanitizeChar_ink)
  then show ?thesis unfolding trim_eq_Nil_conv by blast
qed

lemma getSubFolderNameFromSheet_result:
  "\<exists>r w'. getSubFolderNameFromSheet P w = (Inr r, w') \<and> (\<forall>s. r = Some s \<longrightarrow> trim s \<noteq> [])"
  unfolding getSubFolderNameFromSheet_def
  by (auto simp: catchE_def bindE_def returnE_def logE_def Let_def trim_sanitize
      split: prod.splits sum.splits option.splits if_splits)

lemma getOrCreateFolderIdByName_succeeds:
  assumes "driveWorks w" and "trim n \<noteq> []"
  shows "\<exists>i w'. getOrCreateFolderIdByName P (JStr n) par w = (Inr i, w')
           \<and> i \<in> fid ` set (folders w') \<and> faults w' = faults w"
proof -
  from assms(2) have n: "n \<noteq> []" by (auto simp: trim_def)
  obtain pf where pf: "(case par of None \<Rightarrow> getRootFolder | Some p \<Rightarrow> returnE p) w = (Inr pf, w)"
    using assms(1)
    by (cases par) (auto simp: driveWorks_def getRootFolder_def bindE_def platformCall_def returnE_def)
  let ?found = "filter (\<lambda>f. fparent f = fid pf \<and> fname f = n) (folders w)"
  have look: "getFoldersByName pf n w = (Inr ?found, w)"
    using assms(1) by (simp add: driveWorks_def getFoldersByName_def bindE_def platformCall_def)
  show ?thesis
  proof (cases ?found)
    case Nil
    let ?f = "\<lparr>fid = freshId w, fname = n, fparent = fid pf, furl = urlOf P (freshId w)\<rparr>"
    have "createFolder P pf n w = (Inr ?f, w\<lparr>folders := folders w @ [?f]\<rparr>)"
      using assms(1) by (simp add: driveWorks_def createFolder_def bindE_def platformCall_def Let_def)
    with pf look Nil assms(2) n show ?thesis
      by (simp add: getOrCreateFolderIdByName_def bindE_def catchE_def logE_def returnE_def Let_def)
  next
    case (Cons f fs)
    then have "f \<in> set ?found" by simp
    then have "f \<in> set (folders w)" by simp
    with pf look Cons assms(2) n show ?thesis
      by (simp add: getOrCreateFolderIdByName_def bindE_def returnE_def Let_def)
  qed
qed

lemma getFolderById_succeeds:
  assumes "\<not> faults w OpGetFolderById" and "i \<in> fid ` set (folders w)"
  shows "\<exists>f. getFolderById i w = (Inr f, w)"
proof -
  from assms(2) have "\<exists>x\<in>set (rootFolder w # folders w). fid x = i" by auto
  then have "find (\<lambda>f. fid f = i) (rootFolder w # folders w) \<noteq> None"
    unfolding find_None_iff by blast
  with assms(1) show ?thesis
    by (auto simp: getFolderById_def bindE_def platformCall_def)
qed

lemma getOrCreateFolderIdByName_frame:
  assumes "getOrCreateFolderIdByName P n p w = (r, w')"
  shows "files w' = files w \<and> sheets w' = sheets w \<and> faults w' = faults w"
proof -
  have "keeps files (getOrCreateFolderIdByName P n p)" "keeps sheets (getOrCreateFolderIdByName P n p)"
    "keeps faults (getOrCreateFolderIdByName P n p)"
    by (rule keeps_getOrCreateFolderIdByName; simp)+
  from this [THEN keepsD, OF assms] show ?thesis by simp
qed

lemma getSubFolderNameFromSheet_frame:
  assumes "getSubFolderNameFromSheet P w = (r, w')"
  shows "files w' = files w \<and> folders w' = folders w \<and> faults w' = faults w"
proof -
  have "keeps files (getSubFolderNameFromSheet P)" "keeps folders (getSubFolderNameFromSheet P)"
    "keeps faults (getSubFolderNameFromSheet P)"
    by (rule keeps_getSubFolderNameFromSheet; simp)+
  from this [THEN keepsD, OF assms] show ?thesis by simp
qed

lemma bindE_Inr: "m w = (Inr x, w1) \<Longrightarrow> bindE m f w = f x w1"
  by (simp add: bindE_def)

lemma bindE_Inl: "m w = (Inl e, w1) \<Longrightarrow> bindE m f w = (Inl e, w1)"
  by (simp add: bindE_def)

lemma resolveTarget_succeeds:
  assumes "driveWorks w"
  shows "\<exists>tgt w'. resolveTarget P lf w = (Inr tgt, w') \<and> faults w' = faults w"
proof -
  have pn: "trim PARENT_FOLDER_NAME \<noteq> []"
    by (simp add: trim_eq_Nil_conv PARENT_FOLDER_NAME_def isWhiteSpace_def isLineTerminator_def)
  from getOrCreateFolderIdByName_succeeds [OF assms pn, of P None]
  obtain i w1 where 1: "getOrCreateFolderIdByName P (JStr PARENT_FOLDER_NAME) None w = (Inr i, w1)"
    and i: "i \<in> fid ` set (folders w1)" and f1: "faults w1 = faults w" by blast
  from assms f1 have d1: "driveWorks w1" by (simp add: driveWorks_def)
  then have "\<not> faults w1 OpGetFolderById" by (simp add: driveWorks_def)
  from getFolderById_succeeds [OF this i]
  obtain pf where 2: "getFolderById i w1 = (Inr pf, w1)" by blast
  from getSubFolderNameFromSheet_result [of P w1]
  obtain sub w2 where 3: "getSubFolderNameFromSheet P w1 = (Inr sub, w2)"
    and sub: "\<forall>s. sub = Some s \<longrightarrow> trim s \<noteq> []" by blast
  from getSubFolderNameFromSheet_frame [OF 3] f1 have f2: "faults w2 = faults w" by simp
  with assms have d2: "driveWorks w2" by (simp add: driveWorks_def)
  show ?thesis
  proof (cases sub)
    case None
    with 1 2 3 f2 show ?thesis
      by (cases lf) (simp_all add: resolveTarget_def bindE_def returnE_def logE_def Let_def)
  next
    case (Some s)
    with sub have s: "trim s \<noteq> []" by simp
    then have sne: "s \<noteq> []" by (auto simp: trim_def)
    from getOrCreateFolderIdByName_succeeds [OF d2 s, of P "Some pf"]
    obtain j w3 where 4: "getOrCreateFolderIdByName P (JStr s) (Some pf) w2 = (Inr j, w3)"
      and j: "j \<in> fid ` set (folders w3)" and f3: "faults w3 = faults w2" by blast
    from d2 f3 have "\<not> faults w3 OpGetFolderById" by (simp add: driveWorks_def)
    from getFolderById_succeeds [OF this j]
    obtain tf where 5: "getFolderById j w3 = (Inr tf, w3)" by blast
    from 1 2 3 4 5 Some sne f2 f3 show ?thesis
      by (simp add: resolveTarget_def bindE_def returnE_def Let_def)
  qed
qed

lemma bindE_resolveTarget:
  "resolveTarget P lf w = (Inr tgt, w1) \<Longrightarrow> bindE (resolveTarget P lf) K w = K tgt w1"
  by (simp add: bindE_def)

lemma write_and_record_succeeds:
  assumes "\<not> faults w1 OpCreateFile"
    and "\<And>file w2. \<exists>res w3. K file w2 = (Inr res, w3) \<and> success res"
  shows "\<exists>res. (\<exists>w'. bindE (createFile P t n m c) (\<lambda>file.
             bindE (addRecordToHistorySheet P n p u (file_url file) fmt lbl) (\<lambda>_. K file)) w1
           = (Inr res, w')) \<and> success res"
proof -
  from assms(1) obtain f w2 where cf: "createFile P t n m c w1 = (Inr f, w2)"
    by (auto simp: createFile_def bindE_def platformCall_def Let_def)
  obtain b w3 where h: "addRecordToHistorySheet P n p u (file_url f) fmt lbl w2 = (b, w3)"
    by (cases "addRecordToHistorySheet P n p u (file_url f) fmt lbl w2")
  from addRecordToHistorySheet_frame [OF h] have b: "b = Inr ()" by simp
  from assms(2) [of f w3] cf h b show ?thesis by (auto simp: bindE_def)
qed

lemma saveDrawingFile_succeeds:
  assumes "driveWorks w" and "matchPngUrl s = Some (mime, d)" and "truthy b"
    and "base64Decode P d = Some bs"
  shows "success (fst (saveDrawingFile P (JStr s) b w))"
proof -
  from resolveTarget_succeeds [OF assms(1), of P False]
  obtain tgt w1 where rt: "resolveTarget P False w = (Inr tgt, w1)" and f1: "faults w1 = faults w"
    by blast
  obtain t p url where tgt: "tgt = (t, p, url)" by (cases tgt)
  from assms(1) f1 have cf: "\<not> faults w1 OpCreateFile" by (simp add: driveWorks_def)
  from assms(2) have s: "s \<noteq> []" by (auto simp: matchPngUrl_def startsWith_def ascii_def split: if_splits)
  have "\<exists>res w'. saveDrawingFile_try P (JStr s) b w = (Inr res, w') \<and> success res"
    unfolding saveDrawingFile_try_def
    by (simp add: assms s bindE_resolveTarget [OF rt] tgt Let_def)
       (rule write_and_record_succeeds [OF cf], simp add: returnE_def)
  then show ?thesis by (auto simp: saveDrawingFile_def tryCatchSave_def)
qed

lemma saveAudioFile_succeeds:
  assumes "driveWorks w" and "matchDataUrl s = Some (mime, d)" and "trim base \<noteq> []"
    and "base64Decode P d = Some bs"
  shows "success (fst (saveAudioFile P (JStr s) (JStr base) w))"
proof -
  from resolveTarget_succeeds [OF assms(1), of P True]
  obtain tgt w1 where rt: "resolveTarget P True w = (Inr tgt, w1)" and f1: "faults w1 = faults w"
    by blast
  obtain t p url where tgt: "tgt = (t, p, url)" by (cases tgt)
  from assms(1) f1 have cf: "\<not> faults w1 OpCreateFile" by (simp add: driveWorks_def)
  from assms(2) have s: "s \<noteq> []" by (auto simp: matchDataUrl_def startsWith_def ascii_def split: if_splits)
  from assms(3) have base: "base \<noteq> []" by (auto simp: trim_def)
  have "\<exists>res w'. saveAudioFile_try P (JStr s) (JStr base) w = (Inr res, w') \<and> success res"
    unfolding saveAudioFile_try_def
    by (simp add: assms s base bindE_resolveTarget [OF rt] tgt Let_def split del: if_split)
       (rule write_and_record_succeeds [OF cf], simp add: returnE_def bindE_def logE_def)
  then show ?thesis by (auto simp: saveAudioFile_def tryCatchSave_def)
qed

lemma saveTextFile_succeeds:
  assumes "driveWorks w" and "s \<noteq> []" and "trim base \<noteq> []"
  shows "success (fst (saveTextFile P (JStr s) (JStr base) w))"
proof -
  from resolveTarget_succeeds [OF assms(1), of P False]
  obtain tgt w1 where rt: "resolveTarget P False w = (Inr tgt, w1)" and f1: "faults w1 = faults w"
    by blast
  obtain t p url where tgt: "tgt = (t, p, url)" by (cases tgt)
  from assms(1) f1 have cf: "\<not> faults w1 OpCreateFile" by (simp add: driveWorks_def)
  from assms(3) have base: "base \<noteq> []" by (auto simp: trim_def)
  have "\<exists>res w'. saveTextFile_try P (JStr s) (JStr base) w = (Inr res, w') \<and> success res"
    unfolding saveTextFile_try_def
    by (simp add: assms base bindE_resolveTarget [OF rt] tgt Let_def split del: if_split)
       (rule write_and_record_succeeds [OF cf], simp add: returnE_def)
  then show ?thesis by (auto simp: saveTextFile_def tryCatchSave_def)
qed

lemma saveVideoFile_succeeds:
  assumes "driveWorks w" and "matchDataUrl s = Some (mime, d)" and "truthy b"
    and "base64Decode P d = Some bs" and "withDefault (JStr (ascii ''webm'')) x = JStr ext"
  shows "success (fst (saveVideoFile P (JStr s) b x mt w))"
proof -
  from resolveTarget_succeeds [OF assms(1), of P False]
  obtain tgt w1 where rt: "resolveTarget P False w = (Inr tgt, w1)" and f1: "faults w1 = faults w"
    by blast
  obtain t p url where tgt: "tgt = (t, p, url)" by (cases tgt)
  from assms(1) f1 have cf: "\<not> faults w1 OpCreateFile" by (simp add: driveWorks_def)
  from assms(2) have s: "s \<noteq> []" by (auto simp: matchDataUrl_def startsWith_def ascii_def split: if_splits)
  have "\<exists>res w'. saveVideoFile_try P (JStr s) b x mt w = (Inr res, w') \<and> success res"
    unfolding saveVideoFile_try_def Let_def assms(5)
    by (simp add: assms(1-4) s if_JStr bindE_resolveTarget [OF rt] tgt split del: if_split)
       (rule write_and_record_succeeds [OF cf], simp add: returnE_def)
  then show ?thesis by (auto simp: saveVideoFile_def tryCatchSave_def)
qed

lemma savePhotoFile_succeeds:
  assumes "driveWorks w" and "matchDataUrl s = Some (mime, d)" and "truthy b"
    and "base64Decode P d = Some bs" and "withDefault (JStr (ascii ''jpg'')) x = JStr ext"
  shows "success (fst (savePhotoFile P (JStr s) b x w))"
proof -
  from resolveTarget_succeeds [OF assms(1), of P False]
  obtain tgt w1 where rt: "resolveTarget P False w = (Inr tgt, w1)" and f1: "faults w1 = faults w"
    by blast
  obtain t p url where tgt: "tgt = (t, p, url)" by (cases tgt)
  from assms(1) f1 have cf: "\<not> faults w1 OpCreateFile" by (simp add: driveWorks_def)
  from assms(2) have s: "s \<noteq> []" by (auto simp: matchDataUrl_def startsWith_def ascii_def split: if_splits)
  have "\<exists>res w'. savePhotoFile_try P (JStr s) b x w = (Inr res, w') \<and> success res"
    unfolding savePhotoFile_try_def Let_def assms(5)
    by (simp add: assms(1-4) s if_JStr bindE_resolveTarget [OF rt] tgt split del: if_split)
       (rule write_and_record_succeeds [OF cf], simp add: returnE_def)
  then show ?thesis by (auto simp: savePhotoFile_def tryCatchSave_def)
qed

section \<open>The example world, evaluated\<close>

lemma demoWorld_driveWorks: "driveWorks demoWorld"
  by (simp add: driveWorks_def demoWorld_def)

lemma demoWorld_files: "files demoWorld = []"
  by (simp add: demoWorld_def)

lemma demoPlatform_decode: "base64Decode demoPlatform (ascii ''AAAA'') = Some [0, 0, 0]"
  by (simp add: demoPlatform_def)

lemma match_webm:
  "matchDataUrl (ascii ''data:video/webm;base64,AAAA'') = Some (ascii ''video/webm'', ascii ''AAAA'')"
  by (simp add: matchDataUrl_def ascii_def startsWith_def dataOk_def isLineTerminator_def)

lemma match_mp4:
  "matchDataUrl (ascii ''data:video/mp4;base64,AAAA'') = Some (ascii ''video/mp4'', ascii ''AAAA'')"
  by (simp add: matchDataUrl_def ascii_def startsWith_def dataOk_def isLineTerminator_def)

lemma match_mp3:
  "matchDataUrl (ascii ''data:audio/mp3;base64,AAAA'') = Some (ascii ''audio/mp3'', ascii ''AAAA'')"
  by (simp add: matchDataUrl_def ascii_def startsWith_def dataOk_def isLineTerminator_def)

lemma match_jpeg:
  "matchDataUrl (ascii ''data:image/jpeg;base64,AAAA'') = Some (ascii ''image/jpeg'', ascii ''AAAA'')"
  by (simp add: matchDataUrl_def ascii_def startsWith_def dataOk_def isLineTerminator_def)

lemma match_png:
  "matchDataUrl (ascii ''data:image/png;base64,AAAA'') = Some (ascii ''image/png'', ascii ''AAAA'')"
  by (simp add: matchDataUrl_def ascii_def startsWith_def dataOk_def isLineTerminator_def)

lemma not_success_failureResult [simp]: "\<not> success (failureResult m)"
  by (simp add: failureResult_def)

section \<open>The save handlers as failure boundaries\<close>

text \<open>
  C3. Whatever the arguments and whatever the platform does, each of the five save
  handlers returns a result: either one with \<open>success\<close> true, or the failure result of
  that handler, whose message is fixed. No exception leaves a handler.
\<close>

theorem save_handlers_return_a_result:
  "(success (fst (saveAudioFile P a b w)) \<or> fst (saveAudioFile P a b w) = failureResult Audio) \<and>
   (success (fst (saveVideoFile P a b x mt w))
      \<or> fst (saveVideoFile P a b x mt w) = failureResult Video) \<and>
   (success (fst (savePhotoFile P a b x w)) \<or> fst (savePhotoFile P a b x w) = failureResult Photo) \<and>
   (success (fst (saveDrawingFile P a b w))
      \<or> fst (saveDrawingFile P a b w) = failureResult Drawing) \<and>
   (success (fst (saveTextFile P a b w)) \<or> fst (saveTextFile P a b w) = failureResult TextFile)"
  using saveAudioFile_cases [of P a b w] saveVideoFile_cases [of P a b x mt w]
    savePhotoFile_cases [of P a b x w] saveDrawingFile_cases [of P a b w]
    saveTextFile_cases [of P a b w]
  by blast

theorem save_handlers_return_a_result_witness:
  "(success (fst (saveAudioFile demoPlatform JNull (JNum 5) demoWorld))
      \<or> fst (saveAudioFile demoPlatform JNull (JNum 5) demoWorld) = failureResult Audio) \<and>
   \<not> success (failureResult Audio) \<and> message (failureResult Audio) = SaveFailedMsg Audio"
  using save_handlers_return_a_result [of demoPlatform JNull "JNum 5" demoWorld]
  by (simp add: failureResult_def)

text \<open>
  C5. A payload string that does not match the data-URL pattern makes saveAudioFile,
  saveVideoFile, savePhotoFile and saveDrawingFile return their failure result; no file
  is created and no sheet of the spreadsheet (so no history row) is written.
\<close>

theorem malformed_data_url_is_rejected:
  assumes "matchDataUrl s = None"
  shows "fst (saveAudioFile P (JStr s) b w) = failureResult Audio
       \<and> files (snd (saveAudioFile P (JStr s) b w)) = files w
       \<and> sheets (snd (saveAudioFile P (JStr s) b w)) = sheets w
       \<and> fst (saveVideoFile P (JStr s) b x mt w) = failureResult Video
       \<and> files (snd (saveVideoFile P (JStr s) b x mt w)) = files w
       \<and> sheets (snd (saveVideoFile P (JStr s) b x mt w)) = sheets w
       \<and> fst (savePhotoFile P (JStr s) b x w) = failureResult Photo
       \<and> files (snd (savePhotoFile P (JStr s) b x w)) = files w
       \<and> sheets (snd (savePhotoFile P (JStr s) b x w)) = sheets w
       \<and> fst (saveDrawingFile P (JStr s) b w) = failureResult Drawing
       \<and> files (snd (saveDrawingFile P (JStr s) b w)) = files w
       \<and> sheets (snd (saveDrawingFile P (JStr s) b w)) = sheets w"
proof -
  have png: "matchPngUrl s \<noteq> Some (ascii ''image/png'', d)" for d
    using matchPngUrl_matchDataUrl [of s "ascii ''image/png''" d] assms by auto
  from saveAudioFile_cases [of P "JStr s" b w] assms
  have 1: "fst (saveAudioFile P (JStr s) b w) = failureResult Audio
       \<and> files (snd (saveAudioFile P (JStr s) b w)) = files w
       \<and> sheets (snd (saveAudioFile P (JStr s) b w)) = sheets w" by auto
  from saveVideoFile_cases [of P "JStr s" b x mt w] assms
  have 2: "fst (saveVideoFile P (JStr s) b x mt w) = failureResult Video
       \<and> files (snd (saveVideoFile P (JStr s) b x mt w)) = files w
       \<and> sheets (snd (saveVideoFile P (JStr s) b x mt w)) = sheets w" by auto
  from savePhotoFile_cases [of P "JStr s" b x w] assms
  have 3: "fst (savePhotoFile P (JStr s) b x w) = failureResult Photo
       \<and> files (snd (savePhotoFile P (JStr s) b x w)) = files w
       \<and> sheets (snd (savePhotoFile P (JStr s) b x w)) = sheets w" by auto
  from saveDrawingFile_cases [of P "JStr s" b w] png
  have 4: "fst (saveDrawingFile P (JStr s) b w) = failureResult Drawing
       \<and> files (snd (saveDrawingFile P (JStr s) b w)) = files w
       \<and> sheets (snd (saveDrawingFile P (JStr s) b w)) = sheets w" by auto
  from 1 2 3 4 show ?thesis by simp
qed

lemma matchDataUrl_no_prefix: "matchDataUrl (ascii ''AAAA'') = None"
  by (simp add: matchDataUrl_def startsWith_def ascii_def)

theorem malformed_data_url_is_rejected_witness:
  "matchDataUrl (ascii ''AAAA'') = None
   \<and> fst (saveAudioFile demoPlatform (JStr (ascii ''AAAA'')) (JStr (ascii ''note'')) demoWorld)
       = failureResult Audio
   \<and> files (snd (saveAudioFile demoPlatform (JStr (ascii ''AAAA'')) (JStr (ascii ''note''))
        demoWorld)) = []
   \<and> fst (saveDrawingFile demoPlatform (JStr (ascii ''AAAA'')) (JStr (ascii ''note'')) demoWorld)
       = failureResult Drawing"
  using malformed_data_url_is_rejected [OF matchDataUrl_no_prefix, of demoPlatform
      "JStr (ascii ''note'')" demoWorld JUndefined JUndefined]
  by (simp add: matchDataUrl_no_prefix demoWorld_def)

section \<open>Validation of the arguments\<close>

text \<open>
  C2. saveVideoFile tests its base name with \<open>!baseFileName\<close> only. A base name of three
  spaces, and the number 5, pass that test: the save succeeds and writes a file named
  by three spaces and \<open>.webm\<close>, and a file named \<open>5.webm\<close>.
\<close>

theorem saveVideoFile_accepts_blank_base_name:
  "trim (ascii ''   '') = []
   \<and> success (fst (saveVideoFile demoPlatform (JStr (ascii ''data:video/webm;base64,AAAA''))
        (JStr (ascii ''   '')) JUndefined JUndefined demoWorld))
   \<and> map file_name (files (snd (saveVideoFile demoPlatform
        (JStr (ascii ''data:video/webm;base64,AAAA'')) (JStr (ascii ''   '')) JUndefined JUndefined
        demoWorld))) = [ascii ''   .webm'']
   \<and> success (fst (saveVideoFile demoPlatform (JStr (ascii ''data:video/webm;base64,AAAA''))
        (JNum 5) JUndefined JUndefined demoWorld))
   \<and> map file_name (files (snd (saveVideoFile demoPlatform
        (JStr (ascii ''data:video/webm;base64,AAAA'')) (JNum 5) JUndefined JUndefined
        demoWorld))) = [ascii ''5.webm'']"
proof -
  have blank: "trim (ascii ''   '') = []"
    by (simp add: trim_eq_Nil_conv ascii_def isWhiteSpace_def)
  have ok: "success (fst (saveVideoFile demoPlatform (JStr (ascii ''data:video/webm;base64,AAAA''))
        b JUndefined JUndefined demoWorld))" if "truthy b" for b
    by (rule saveVideoFile_succeeds [OF demoWorld_driveWorks match_webm that demoPlatform_decode])
       (simp add: withDefault_def)
  have name: "map file_name (files (snd (saveVideoFile demoPlatform
        (JStr (ascii ''data:video/webm;base64,AAAA'')) b JUndefined JUndefined
        demoWorld))) = [toStringJS demoPlatform b @ ascii ''.'' @ ascii ''webm'']" if "truthy b" for b
    using saveVideoFile_cases [of demoPlatform "JStr (ascii ''data:video/webm;base64,AAAA'')" b
        JUndefined JUndefined demoWorld] ok [OF that]
    by (auto simp: withDefault_def demoWorld_files)
  have five: "numberToString demoPlatform 5 = ascii ''5''"
    by (simp add: numberToString_def intToString_def decimal.simps [of 5] ascii_def)
  from blank ok [of "JStr (ascii ''   '')"] ok [of "JNum 5"] name [of "JStr (ascii ''   '')"]
    name [of "JNum 5"] five
  show ?thesis by (simp add: ascii_def)
qed

section \<open>File names and content types\<close>

text \<open>
  C6 (as amended). Every successful save writes one file, named as follows.
  saveAudioFile: the base name itself when its lower-case form ends in \<open>.mp3\<close>, otherwise
  the base name followed by \<open>.mp3\<close>. saveVideoFile: the base name, a dot, and the
  lower-case form of the extension when that is \<open>mp4\<close> or \<open>webm\<close>, otherwise \<open>webm\<close>.
  savePhotoFile: likewise with \<open>jpg\<close>, \<open>jpeg\<close>, \<open>png\<close> and the default \<open>jpg\<close>.
  saveDrawingFile: the base name followed by \<open>.png\<close>. saveTextFile: the base name
  followed by \<open>.txt\<close>.
\<close>

theorem final_file_name:
  "(success (fst (saveAudioFile P u b w)) \<longrightarrow>
      (\<exists>base f. b = JStr base \<and> files (snd (saveAudioFile P u b w)) = files w @ [f]
         \<and> file_name f = (if endsWith (toLowerCase P base) (ascii ''.mp3'')
                           then base else base @ ascii ''.mp3''))) \<and>
   (success (fst (saveVideoFile P u b x mt w)) \<longrightarrow>
      (\<exists>ext f. withDefault (JStr (ascii ''webm'')) x = JStr ext
         \<and> files (snd (saveVideoFile P u b x mt w)) = files w @ [f]
         \<and> file_name f = toStringJS P b @ ascii ''.'' @
              (if toLowerCase P ext \<in> set [ascii ''mp4'', ascii ''webm'']
               then toLowerCase P ext else ascii ''webm''))) \<and>
   (success (fst (savePhotoFile P u b x w)) \<longrightarrow>
      (\<exists>ext f. withDefault (JStr (ascii ''jpg'')) x = JStr ext
         \<and> files (snd (savePhotoFile P u b x w)) = files w @ [f]
         \<and> file_name f = toStringJS P b @ ascii ''.'' @
              (if toLowerCase P ext \<in> set [ascii ''jpg'', ascii ''jpeg'', ascii ''png'']
               then toLowerCase P ext else ascii ''jpg''))) \<and>
   (success (fst (saveDrawingFile P u b w)) \<longrightarrow>
      (\<exists>f. files (snd (saveDrawingFile P u b w)) = files w @ [f]
         \<and> file_name f = toStringJS P b @ ascii ''.png'')) \<and>
   (success (fst (saveTextFile P u b w)) \<longrightarrow>
      (\<exists>base f. b = JStr base \<and> files (snd (saveTextFile P u b w)) = files w @ [f]
         \<and> file_name f = base @ ascii ''.txt''))"
proof (intro conjI impI)
  assume "success (fst (saveAudioFile P u b w))"
  with saveAudioFile_cases [of P u b w]
  show "\<exists>base f. b = JStr base \<and> files (snd (saveAudioFile P u b w)) = files w @ [f]
         \<and> file_name f = (if endsWith (toLowerCase P base) (ascii ''.mp3'')
                           then base else base @ ascii ''.mp3'')"
    by (elim disjE exE conjE) (simp, blast)
next
  assume "success (fst (saveVideoFile P u b x mt w))"
  with saveVideoFile_cases [of P u b x mt w]
  show "\<exists>ext f. withDefault (JStr (ascii ''webm'')) x = JStr ext
         \<and> files (snd (saveVideoFile P u b x mt w)) = files w @ [f]
         \<and> file_name f = toStringJS P b @ ascii ''.'' @
              (if toLowerCase P ext \<in> set [ascii ''mp4'', ascii ''webm'']
               then toLowerCase P ext else ascii ''webm'')"
    by (elim disjE exE conjE) (simp, blast)
next
  assume "success (fst (savePhotoFile P u b x w))"
  with savePhotoFile_cases [of P u b x w]
  show "\<exists>ext f. withDefault (JStr (ascii ''jpg'')) x = JStr ext
         \<and> files (snd (savePhotoFile P u b x w)) = files w @ [f]
         \<and> file_name f = toStringJS P b @ ascii ''.'' @
              (if toLowerCase P ext \<in> set [ascii ''jpg'', ascii ''jpeg'', ascii ''png'']
               then toLowerCase P ext else ascii ''jpg'')"
    by (elim disjE exE conjE) (simp, blast)
next
  assume "success (fst (saveDrawingFile P u b w))"
  with saveDrawingFile_cases [of P u b w]
  show "\<exists>f. files (snd (saveDrawingFile P u b w)) = files w @ [f]
         \<and> file_name f = toStringJS P b @ ascii ''.png''"
    by (elim disjE exE conjE) (simp, blast)
next
  assume "success (fst (saveTextFile P u b w))"
  with saveTextFile_cases [of P u b w]
  show "\<exists>base f. b = JStr base \<and> files (snd (saveTextFile P u b w)) = files w @ [f]
         \<and> file_name f = base @ ascii ''.txt''"
    by (elim disjE exE conjE) (simp, blast)
qed

lemma demo_audio_succeeds:
  "trim base \<noteq> [] \<Longrightarrow>
   success (fst (saveAudioFile demoPlatform (JStr (ascii ''data:audio/mp3;base64,AAAA''))
     (JStr base) demoWorld))"
  by (rule saveAudioFile_succeeds [OF demoWorld_driveWorks match_mp3 _ demoPlatform_decode])

lemma trim_note: "trim (ascii ''note'') \<noteq> []"
  by (simp add: trim_eq_Nil_conv ascii_def isWhiteSpace_def isLineTerminator_def)

lemma trim_a_MP3: "trim (ascii ''a.MP3'') \<noteq> []"
  by (simp add: trim_eq_Nil_conv ascii_def isWhiteSpace_def isLineTerminator_def)

lemma lower_note: "\<not> endsWith (toLowerCase demoPlatform (ascii ''note'')) (ascii ''.mp3'')"
  by (simp add: toLowerCase_def endsWith_def ascii_def asciiLower_def)

lemma lower_a_MP3: "endsWith (toLowerCase demoPlatform (ascii ''a.MP3'')) (ascii ''.mp3'')"
  by (simp add: toLowerCase_def endsWith_def ascii_def asciiLower_def)

lemma lower_mkv: "toLowerCase demoPlatform (ascii ''mkv'') = ascii ''mkv''"
  by (simp add: toLowerCase_def ascii_def asciiLower_def)

lemma lower_jpeg: "toLowerCase demoPlatform (ascii ''jpeg'') = ascii ''jpeg''"
  by (simp add: toLowerCase_def ascii_def asciiLower_def)

lemma matchPng_png:
  "matchPngUrl (ascii ''data:image/png;base64,AAAA'') = Some (ascii ''image/png'', ascii ''AAAA'')"
  by (rule matchDataUrl_png_matchPngUrl [OF match_png])

theorem final_file_name_witness:
  "map file_name (files (snd (saveAudioFile demoPlatform
        (JStr (ascii ''data:audio/mp3;base64,AAAA'')) (JStr (ascii ''note'')) demoWorld)))
      = [ascii ''note.mp3'']
   \<and> map file_name (files (snd (saveVideoFile demoPlatform
        (JStr (ascii ''data:video/webm;base64,AAAA'')) (JStr (ascii ''clip''))
        (JStr (ascii ''mkv'')) JUndefined demoWorld)))
      = [ascii ''clip.webm'']
   \<and> map file_name (files (snd (savePhotoFile demoPlatform
        (JStr (ascii ''data:image/png;base64,AAAA'')) (JStr (ascii ''pic''))
        (JStr (ascii ''jpeg'')) demoWorld)))
      = [ascii ''pic.jpeg'']
   \<and> map file_name (files (snd (saveDrawingFile demoPlatform
        (JStr (ascii ''data:image/png;base64,AAAA'')) (JStr (ascii ''art'')) demoWorld)))
      = [ascii ''art.png'']
   \<and> map file_name (files (snd (saveTextFile demoPlatform
        (JStr (ascii ''hello'')) (JStr (ascii ''memo'')) demoWorld)))
      = [ascii ''memo.txt'']"
proof -
  have a: "success (fst (saveAudioFile demoPlatform (JStr (ascii ''data:audio/mp3;base64,AAAA''))
     (JStr (ascii ''note'')) demoWorld))"
    by (rule demo_audio_succeeds [OF trim_note])
  have v: "success (fst (saveVideoFile demoPlatform (JStr (ascii ''data:video/webm;base64,AAAA''))
     (JStr (ascii ''clip'')) (JStr (ascii ''mkv'')) JUndefined demoWorld))"
    by (rule saveVideoFile_succeeds [OF demoWorld_driveWorks match_webm _ demoPlatform_decode])
       (simp_all add: withDefault_def ascii_def)
  have p: "success (fst (savePhotoFile demoPlatform (JStr (ascii ''data:image/png;base64,AAAA''))
     (JStr (ascii ''pic'')) (JStr (ascii ''jpeg'')) demoWorld))"
    by (rule savePhotoFile_succeeds [OF demoWorld_driveWorks match_png _ demoPlatform_decode])
       (simp_all add: withDefault_def ascii_def)
  have d: "success (fst (saveDrawingFile demoPlatform (JStr (ascii ''data:image/png;base64,AAAA''))
     (JStr (ascii ''art'')) demoWorld))"
    by (rule saveDrawingFile_succeeds [OF demoWorld_driveWorks matchPng_png _ demoPlatform_decode])
       (simp add: ascii_def)
  have x: "success (fst (saveTextFile demoPlatform (JStr (ascii ''hello''))
     (JStr (ascii ''memo'')) demoWorld))"
    by (rule saveTextFile_succeeds [OF demoWorld_driveWorks])
       (simp_all add: trim_eq_Nil_conv ascii_def isWhiteSpace_def isLineTerminator_def)
  note t = final_file_name [where P = demoPlatform and w = demoWorld, rule_format]
  from t [THEN conjunct1, rule_format, OF a] lower_note
  have 1: "map file_name (files (snd (saveAudioFile demoPlatform
        (JStr (ascii ''data:audio/mp3;base64,AAAA'')) (JStr (ascii ''note'')) demoWorld)))
      = [ascii ''note'' @ ascii ''.mp3'']"
    by (auto simp: demoWorld_files)
  from t [THEN conjunct2, THEN conjunct1, rule_format, OF v] lower_mkv
  have 2: "map file_name (files (snd (saveVideoFile demoPlatform
        (JStr (ascii ''data:video/webm;base64,AAAA'')) (JStr (ascii ''clip''))
        (JStr (ascii ''mkv'')) JUndefined demoWorld)))
      = [ascii ''clip'' @ ascii ''.'' @ ascii ''webm'']"
    by (auto simp: demoWorld_files withDefault_def) (simp_all add: ascii_def)
  from t [THEN conjunct2, THEN conjunct2, THEN conjunct1, rule_format, OF p] lower_jpeg
  have 3: "map file_name (files (snd (savePhotoFile demoPlatform
        (JStr (ascii ''data:image/png;base64,AAAA'')) (JStr (ascii ''pic''))
        (JStr (ascii ''jpeg'')) demoWorld)))
      = [ascii ''pic'' @ ascii ''.'' @ ascii ''jpeg'']"
    by (auto simp: demoWorld_files withDefault_def)
  from t [THEN conjunct2, THEN conjunct2, THEN conjunct2, THEN conjunct1, rule_format, OF d]
  have 4: "map file_name (files (snd (saveDrawingFile demoPlatform
        (JStr (ascii ''data:image/png;base64,AAAA'')) (JStr (ascii ''art'')) demoWorld)))
      = [ascii ''art'' @ ascii ''.png'']"
    by (auto simp: demoWorld_files)
  from t [THEN conjunct2, THEN conjunct2, THEN conjunct2, THEN conjunct2, rule_format, OF x]
  have 5: "map file_name (files (snd (saveTextFile demoPlatform
        (JStr (ascii ''hello'')) (JStr (ascii ''memo'')) demoWorld)))
      = [ascii ''memo'' @ ascii ''.txt'']"
    by (auto simp: demoWorld_files)
  from 1 2 3 4 5 show ?thesis by (simp add: ascii_def)
qed

text \<open>
  The claim as stated fails for saveAudioFile: with the base name \<open>a.MP3\<close> the save
  succeeds and the file is named \<open>a.MP3\<close>, which does not end in \<open>.mp3\<close>.
\<close>

theorem audio_file_name_counterexample:
  "success (fst (saveAudioFile demoPlatform (JStr (ascii ''data:audio/mp3;base64,AAAA''))
     (JStr (ascii ''a.MP3'')) demoWorld))
   \<and> map file_name (files (snd (saveAudioFile demoPlatform
        (JStr (ascii ''data:audio/mp3;base64,AAAA'')) (JStr (ascii ''a.MP3'')) demoWorld)))
      = [ascii ''a.MP3'']
   \<and> \<not> endsWith (ascii ''a.MP3'') (ascii ''.mp3'')"
proof -
  have ok: "success (fst (saveAudioFile demoPlatform (JStr (ascii ''data:audio/mp3;base64,AAAA''))
     (JStr (ascii ''a.MP3'')) demoWorld))"
    by (rule demo_audio_succeeds [OF trim_a_MP3])
  with saveAudioFile_cases [of demoPlatform "JStr (ascii ''data:audio/mp3;base64,AAAA'')"
      "JStr (ascii ''a.MP3'')" demoWorld] lower_a_MP3
  have "map file_name (files (snd (saveAudioFile demoPlatform
        (JStr (ascii ''data:audio/mp3;base64,AAAA'')) (JStr (ascii ''a.MP3'')) demoWorld)))
      = [ascii ''a.MP3'']"
    by (auto simp: demoWorld_files)
  moreover have "\<not> endsWith (ascii ''a.MP3'') (ascii ''.mp3'')"
    by (simp add: endsWith_def ascii_def)
  ultimately show ?thesis using ok by simp
qed

text \<open>
  C10. When saveVideoFile succeeds, the content type of the file it wrote is the
  \<open>mimeType\<close> argument (the default \<open>video/webm\<close> standing in for an omitted one) if that
  is truthy, and the type declared in the data URL only if it is falsy.
\<close>

theorem video_blob_uses_mimeType_argument:
  assumes "success (fst (saveVideoFile P u b x mt w))"
  shows "\<exists>s m d f. u = JStr s \<and> matchDataUrl s = Some (m, d)
           \<and> files (snd (saveVideoFile P u b x mt w)) = files w @ [f]
           \<and> file_mime f = (if truthy (withDefault (JStr (ascii ''video/webm'')) mt)
                             then withDefault (JStr (ascii ''video/webm'')) mt else JStr m)"
  using saveVideoFile_cases [of P u b x mt w] assms
  by (elim disjE exE conjE) (simp, blast)

theorem video_blob_uses_mimeType_argument_witness:
  "map file_mime (files (snd (saveVideoFile demoPlatform
        (JStr (ascii ''data:video/mp4;base64,AAAA'')) (JStr (ascii ''clip''))
        (JStr (ascii ''mp4'')) JUndefined demoWorld)))
      = [JStr (ascii ''video/webm'')]
   \<and> map file_mime (files (snd (saveVideoFile demoPlatform
        (JStr (ascii ''data:video/mp4;base64,AAAA'')) (JStr (ascii ''clip''))
        (JStr (ascii ''mp4'')) (JStr (ascii ''video/x-matroska'')) demoWorld)))
      = [JStr (ascii ''video/x-matroska'')]
   \<and> map file_mime (files (snd (saveVideoFile demoPlatform
        (JStr (ascii ''data:video/mp4;base64,AAAA'')) (JStr (ascii ''clip''))
        (JStr (ascii ''mp4'')) JNull demoWorld)))
      = [JStr (ascii ''video/mp4'')]"
proof -
  have ok: "success (fst (saveVideoFile demoPlatform (JStr (ascii ''data:video/mp4;base64,AAAA''))
     (JStr (ascii ''clip'')) (JStr (ascii ''mp4'')) mt demoWorld))" for mt
    by (rule saveVideoFile_succeeds [OF demoWorld_driveWorks match_mp4 _ demoPlatform_decode])
       (simp_all add: withDefault_def ascii_def)
  have "map file_mime (files (snd (saveVideoFile demoPlatform
        (JStr (ascii ''data:video/mp4;base64,AAAA'')) (JStr (ascii ''clip''))
        (JStr (ascii ''mp4'')) mt demoWorld)))
      = [if truthy (withDefault (JStr (ascii ''video/webm'')) mt)
         then withDefault (JStr (ascii ''video/webm'')) mt else JStr (ascii ''video/mp4'')]" for mt
    using video_blob_uses_mimeType_argument [OF ok [of mt]] match_mp4
    by (auto simp: demoWorld_files)
  from this [of JUndefined] this [of "JStr (ascii ''video/x-matroska'')"] this [of JNull]
  show ?thesis by (simp add: withDefault_def ascii_def)
qed

text \<open>
  C7. saveDrawingFile fails, creating no file, unless its payload is a data URL whose
  declared MIME type is exactly \<open>image/png\<close>; when it is, the base name is truthy, the
  payload decodes and the calls to Drive do not throw, the save succeeds and writes a
  file of type \<open>image/png\<close> named by the base name followed by \<open>.png\<close>.
\<close>

theorem drawing_requires_png:
  "(\<not> (\<exists>s d. u = JStr s \<and> matchDataUrl s = Some (ascii ''image/png'', d)) \<longrightarrow>
      fst (saveDrawingFile P u b w) = failureResult Drawing
      \<and> files (snd (saveDrawingFile P u b w)) = files w) \<and>
   (u = JStr s \<and> matchDataUrl s = Some (ascii ''image/png'', d) \<and> truthy b
      \<and> base64Decode P d = Some bs \<and> driveWorks w \<longrightarrow>
      success (fst (saveDrawingFile P u b w))
      \<and> (\<exists>f. files (snd (saveDrawingFile P u b w)) = files w @ [f]
            \<and> file_name f = toStringJS P b @ ascii ''.png''
            \<and> file_mime f = JStr (ascii ''image/png'')))"
proof (intro conjI impI)
  assume no: "\<not> (\<exists>s d. u = JStr s \<and> matchDataUrl s = Some (ascii ''image/png'', d))"
  have "\<not> (\<exists>s d. u = JStr s \<and> matchPngUrl s = Some (ascii ''image/png'', d))"
    using no matchPngUrl_matchDataUrl by blast
  with saveDrawingFile_cases [of P u b w]
  show "fst (saveDrawingFile P u b w) = failureResult Drawing"
    and "files (snd (saveDrawingFile P u b w)) = files w"
    by blast+
next
  assume a: "u = JStr s \<and> matchDataUrl s = Some (ascii ''image/png'', d) \<and> truthy b
      \<and> base64Decode P d = Some bs \<and> driveWorks w"
  then have png: "matchPngUrl s = Some (ascii ''image/png'', d)"
    by (simp add: matchDataUrl_png_matchPngUrl)
  from a have ok: "success (fst (saveDrawingFile P (JStr s) b w))"
    by (intro saveDrawingFile_succeeds [OF _ png]) simp_all
  with a show "success (fst (saveDrawingFile P u b w))" by simp
  from saveDrawingFile_cases [of P u b w] ok a
  show "\<exists>f. files (snd (saveDrawingFile P u b w)) = files w @ [f]
            \<and> file_name f = toStringJS P b @ ascii ''.png''
            \<and> file_mime f = JStr (ascii ''image/png'')"
    by (elim disjE exE conjE) (simp, blast)
qed

theorem drawing_requires_png_witness:
  "fst (saveDrawingFile demoPlatform (JStr (ascii ''data:image/jpeg;base64,AAAA''))
      (JStr (ascii ''art'')) demoWorld) = failureResult Drawing
   \<and> files (snd (saveDrawingFile demoPlatform (JStr (ascii ''data:image/jpeg;base64,AAAA''))
      (JStr (ascii ''art'')) demoWorld)) = []
   \<and> success (fst (saveDrawingFile demoPlatform (JStr (ascii ''data:image/png;base64,AAAA''))
      (JStr (ascii ''art'')) demoWorld))
   \<and> map file_name (files (snd (saveDrawingFile demoPlatform
      (JStr (ascii ''data:image/png;base64,AAAA'')) (JStr (ascii ''art'')) demoWorld)))
      = [ascii ''art.png'']"
proof -
  have jpeg: "\<not> (\<exists>s d. JStr (ascii ''data:image/jpeg;base64,AAAA'') = JStr s
      \<and> matchDataUrl s = Some (ascii ''image/png'', d))"
    by (simp add: match_jpeg) (simp add: ascii_def)
  note 1 = drawing_requires_png [where P = demoPlatform and w = demoWorld
      and u = "JStr (ascii ''data:image/jpeg;base64,AAAA'')" and b = "JStr (ascii ''art'')",
      THEN conjunct1, rule_format, OF jpeg]
  have png: "JStr (ascii ''data:image/png;base64,AAAA'') = JStr (ascii ''data:image/png;base64,AAAA'')
      \<and> matchDataUrl (ascii ''data:image/png;base64,AAAA'') = Some (ascii ''image/png'', ascii ''AAAA'')
      \<and> truthy (JStr (ascii ''art'')) \<and> base64Decode demoPlatform (ascii ''AAAA'') = Some [0, 0, 0]
      \<and> driveWorks demoWorld"
    by (simp add: match_png demoPlatform_decode demoWorld_driveWorks) (simp add: ascii_def)
  note 2 = drawing_requires_png [where P = demoPlatform and w = demoWorld,
      THEN conjunct2, rule_format, OF png]
  from 1 2 show ?thesis
    by (auto simp: demoWorld_files) (simp add: ascii_def)
qed

section \<open>Looking a folder up\<close>

text \<open>
  C8 (as amended). When the name is a string with a character that is not white space,
  a child folder of that name exists under the parent and the look-up does not throw,
  getOrCreateFolderIdByName returns the identifier of the first such child and leaves
  the world as it was, so a second call does the same and no folder is created. When
  the name is not a string, or is empty or white space only, the call throws and
  creates no folder.
\<close>

theorem folder_lookup_is_idempotent:
  "(trim n \<noteq> [] \<and> \<not> faults w OpGetFoldersByName
      \<and> (par = None \<longrightarrow> \<not> faults w OpGetRootFolder)
      \<and> filter (\<lambda>g. fparent g = fid (case par of None \<Rightarrow> rootFolder w | Some q \<Rightarrow> q)
                     \<and> fname g = n) (folders w) = f # fs \<longrightarrow>
      getOrCreateFolderIdByName P (JStr n) par w = (Inr (fid f), w)
      \<and> getOrCreateFolderIdByName P (JStr n) par
           (snd (getOrCreateFolderIdByName P (JStr n) par w)) = (Inr (fid f), w)) \<and>
   (\<not> isString v \<or> trim (toStringJS P v) = [] \<longrightarrow>
      (\<exists>e. fst (getOrCreateFolderIdByName P v par w) = Inl e)
      \<and> snd (getOrCreateFolderIdByName P v par w) = w)"
proof (intro conjI impI)
  let ?p = "case par of None \<Rightarrow> rootFolder w | Some q \<Rightarrow> q"
  assume a: "trim n \<noteq> [] \<and> \<not> faults w OpGetFoldersByName
      \<and> (par = None \<longrightarrow> \<not> faults w OpGetRootFolder)
      \<and> filter (\<lambda>g. fparent g = fid ?p \<and> fname g = n) (folders w) = f # fs"
  then have n: "n \<noteq> []" by (auto simp: trim_def)
  from a have par: "(case par of None \<Rightarrow> getRootFolder | Some q \<Rightarrow> returnE q) w = (Inr ?p, w)"
    by (cases par) (simp_all add: getRootFolder_def bindE_def platformCall_def returnE_def)
  from a have look: "getFoldersByName ?p n w = (Inr (f # fs), w)"
    by (simp add: getFoldersByName_def bindE_def platformCall_def)
  with a n par show 1: "getOrCreateFolderIdByName P (JStr n) par w = (Inr (fid f), w)"
    by (simp add: getOrCreateFolderIdByName_def bindE_def returnE_def Let_def)
  then show "getOrCreateFolderIdByName P (JStr n) par
           (snd (getOrCreateFolderIdByName P (JStr n) par w)) = (Inr (fid f), w)"
    by simp
next
  assume b: "\<not> isString v \<or> trim (toStringJS P v) = []"
  then have c: "\<not> truthy v \<or> \<not> isString v \<or> trim (toStringJS P v) = []" by blast
  have "snd ((case par of None \<Rightarrow> getRootFolder | Some q \<Rightarrow> returnE q) w) = w"
    by (cases par) (simp_all add: getRootFolder_def bindE_def platformCall_def returnE_def)
  then obtain r where r: "(case par of None \<Rightarrow> getRootFolder | Some q \<Rightarrow> returnE q) w = (r, w)"
    by (cases "(case par of None \<Rightarrow> getRootFolder | Some q \<Rightarrow> returnE q) w") auto
  with c show "\<exists>e. fst (getOrCreateFolderIdByName P v par w) = Inl e"
    and "snd (getOrCreateFolderIdByName P v par w) = w"
    by (cases r; simp add: getOrCreateFolderIdByName_def bindE_def throwE_def)+
qed

theorem folder_lookup_is_idempotent_witness:
  "getOrCreateFolderIdByName demoPlatform (JStr (ascii ''notes'')) None notesWorld
     = (Inr 1, notesWorld)
   \<and> getOrCreateFolderIdByName demoPlatform (JStr (ascii ''notes'')) None
     (snd (getOrCreateFolderIdByName demoPlatform (JStr (ascii ''notes'')) None notesWorld))
     = (Inr 1, notesWorld)
   \<and> fst (getOrCreateFolderIdByName demoPlatform (JNum 7) None notesWorld) = Inl InvalidFolderName
   \<and> fst (getOrCreateFolderIdByName demoPlatform (JStr []) None notesWorld) = Inl InvalidFolderName"
proof -
  have h: "trim (ascii ''notes'') \<noteq> [] \<and> \<not> faults notesWorld OpGetFoldersByName
      \<and> (None = (None :: folder option) \<longrightarrow> \<not> faults notesWorld OpGetRootFolder)
      \<and> filter (\<lambda>g. fparent g = fid (case None of None \<Rightarrow> rootFolder notesWorld | Some q \<Rightarrow> q)
                     \<and> fname g = ascii ''notes'') (folders notesWorld)
        = \<lparr>fid = 1, fname = ascii ''notes'', fparent = 0, furl = ascii ''https://drive.example/1''\<rparr>
          # [\<lparr>fid = 3, fname = ascii ''notes'', fparent = 0,
               furl = ascii ''https://drive.example/3''\<rparr>]"
    by (simp add: notesWorld_def demoWorld_def trim_eq_Nil_conv isWhiteSpace_def
          isLineTerminator_def ascii_def)
  note 1 = folder_lookup_is_idempotent [where P = demoPlatform, THEN conjunct1, rule_format, OF h]
  have "fst (getOrCreateFolderIdByName demoPlatform v None notesWorld) = Inl InvalidFolderName"
    if "\<not> isString v \<or> trim (toStringJS demoPlatform v) = []" for v
    using folder_lookup_is_idempotent [where P = demoPlatform and w = notesWorld and par = None,
        THEN conjunct2, rule_format, OF that] that
    by (auto simp: getOrCreateFolderIdByName_def getRootFolder_def bindE_def platformCall_def
          notesWorld_def demoWorld_def throwE_def)
  from this [of "JNum 7"] this [of "JStr []"] 1 show ?thesis
    by (simp add: trim_def)
qed

text \<open>
  The claim as stated fails for a name of white space only: a folder named by one space
  exists under the root folder, and the call with that name throws.
\<close>

theorem blank_folder_name_counterexample:
  "map fid (filter (\<lambda>g. fparent g = fid (rootFolder notesWorld) \<and> fname g = ascii '' '')
      (folders notesWorld)) = [2]
   \<and> getOrCreateFolderIdByName demoPlatform (JStr (ascii '' '')) None notesWorld
      = (Inl InvalidFolderName, notesWorld)"
  by (simp add: notesWorld_def demoWorld_def getOrCreateFolderIdByName_def getRootFolder_def
        bindE_def platformCall_def throwE_def trim_def isWhiteSpace_def ascii_def)

section \<open>Mode settings\<close>

text \<open>
  C9. getModeSettings reads the cells E1 to E5 of the settings sheet and takes each as
  true exactly when its value equals 1 (\<open>==\<close>). If the sheet is missing, or a call of
  the platform throws, all five flags are true and the result carries an error. If all
  five cells read false, 1 is written into E1 and the result has audio true and the
  other four false.
\<close>

theorem getModeSettings_flags:
  "(\<not> faults w OpOpenById \<and> \<not> faults w (OpGetSheetByName SUBFOLDER_SHEET_NAME)
      \<and> sheets w SUBFOLDER_SHEET_NAME = None \<longrightarrow>
      getModeSettings P w = (allVisible (SheetNotFound SUBFOLDER_SHEET_NAME), w)) \<and>
   (faults w OpOpenById \<or> faults w (OpGetSheetByName SUBFOLDER_SHEET_NAME)
      \<or> sheets w SUBFOLDER_SHEET_NAME \<noteq> None \<and> (faults w OpGetRange \<or> faults w OpGetValues) \<longrightarrow>
      (\<exists>e. fst (getModeSettings P w) = allVisible (Caught e))
      \<and> sheets (snd (getModeSettings P w)) = sheets w) \<and>
   (settingsReadable w \<and> sheets w SUBFOLDER_SHEET_NAME = Some sh \<longrightarrow>
      (let a = looseEqualsOne P (cellAt sh 1 5); v = looseEqualsOne P (cellAt sh 2 5);
           p = looseEqualsOne P (cellAt sh 3 5); d = looseEqualsOne P (cellAt sh 4 5);
           t = looseEqualsOne P (cellAt sh 5 5)
       in if a \<or> v \<or> p \<or> d \<or> t
          then getModeSettings P w =
                 (\<lparr>audio = a, video = v, photo = p, drawing = d, textMode = t, modeError = None\<rparr>, w)
          else if faults w OpSetValue
          then fst (getModeSettings P w) = allVisible (Caught (PlatformFault OpSetValue))
               \<and> sheets (snd (getModeSettings P w)) = sheets w
          else getModeSettings P w =
                 (\<lparr>audio = True, video = False, photo = False, drawing = False, textMode = False,
                   modeError = None\<rparr>,
                  w\<lparr>sheets := (sheets w)(SUBFOLDER_SHEET_NAME \<mapsto> setCell 1 5 (CNum 1) sh)\<rparr>)))"
proof (intro conjI impI)
  assume "\<not> faults w OpOpenById \<and> \<not> faults w (OpGetSheetByName SUBFOLDER_SHEET_NAME)
      \<and> sheets w SUBFOLDER_SHEET_NAME = None"
  then show "getModeSettings P w = (allVisible (SheetNotFound SUBFOLDER_SHEET_NAME), w)"
    by (simp add: getModeSettings_def getModeSettings_try_def bindE_def openById_def
          platformCall_def getSheetByName_def returnE_def)
next
  assume f: "faults w OpOpenById \<or> faults w (OpGetSheetByName SUBFOLDER_SHEET_NAME)
      \<or> sheets w SUBFOLDER_SHEET_NAME \<noteq> None \<and> (faults w OpGetRange \<or> faults w OpGetValues)"
  then have "\<exists>e. getModeSettings_try P w = (Inl e, w)"
    by (auto simp: getModeSettings_try_def bindE_def openById_def platformCall_def
          getSheetByName_def getModeCells_def)
  then show "\<exists>e. fst (getModeSettings P w) = allVisible (Caught e)"
    and "sheets (snd (getModeSettings P w)) = sheets w"
    by (auto simp: getModeSettings_def)
next
  assume r: "settingsReadable w \<and> sheets w SUBFOLDER_SHEET_NAME = Some sh"
  then have cellsE: "getModeCells SUBFOLDER_SHEET_NAME w
      = (Inr [cellAt sh 1 5, cellAt sh 2 5, cellAt sh 3 5, cellAt sh 4 5, cellAt sh 5 5], w)"
    by (simp add: settingsReadable_def getModeCells_def bindE_def platformCall_def withSheet_def
          returnE_def)
  from r have wr: "setValue SUBFOLDER_SHEET_NAME (Suc 0) 5 (CNum 1) w
      = (if faults w OpSetValue then (Inl (PlatformFault OpSetValue), w)
         else (Inr (), w\<lparr>sheets := (sheets w)(SUBFOLDER_SHEET_NAME \<mapsto> setCell 1 5 (CNum 1) sh)\<rparr>))"
    by (simp add: settingsReadable_def setValue_def bindE_def platformCall_def withSheet_def
          putSheet_def)
  from r have body: "getModeSettings_try P w =
      bindE (getModeCells SUBFOLDER_SHEET_NAME) (\<lambda>vs.
           let audioVisible = valueIsOne P vs 0;
               videoVisible = valueIsOne P vs 1;
               photoVisible = valueIsOne P vs 2;
               drawingVisible = valueIsOne P vs 3;
               textVisible = valueIsOne P vs 4 in
           bindE (if \<not> audioVisible \<and> \<not> videoVisible \<and> \<not> photoVisible
                     \<and> \<not> drawingVisible \<and> \<not> textVisible
                  then bindE (setValue SUBFOLDER_SHEET_NAME 1 5 (CNum 1)) (\<lambda>_. returnE True)
                  else returnE audioVisible) (\<lambda>audioVisible'.
           returnE \<lparr>audio = audioVisible', video = videoVisible, photo = photoVisible,
                    drawing = drawingVisible, textMode = textVisible, modeError = None\<rparr>)) w"
    by (simp add: settingsReadable_def getModeSettings_try_def bindE_def openById_def
          platformCall_def getSheetByName_def)
  show "let a = looseEqualsOne P (cellAt sh 1 5); v = looseEqualsOne P (cellAt sh 2 5);
           p = looseEqualsOne P (cellAt sh 3 5); d = looseEqualsOne P (cellAt sh 4 5);
           t = looseEqualsOne P (cellAt sh 5 5)
       in if a \<or> v \<or> p \<or> d \<or> t
          then getModeSettings P w =
                 (\<lparr>audio = a, video = v, photo = p, drawing = d, textMode = t, modeError = None\<rparr>, w)
          else if faults w OpSetValue
          then fst (getModeSettings P w) = allVisible (Caught (PlatformFault OpSetValue))
               \<and> sheets (snd (getModeSettings P w)) = sheets w
          else getModeSettings P w =
                 (\<lparr>audio = True, video = False, photo = False, drawing = False, textMode = False,
                   modeError = None\<rparr>,
                  w\<lparr>sheets := (sheets w)(SUBFOLDER_SHEET_NAME \<mapsto> setCell 1 5 (CNum 1) sh)\<rparr>)"
    unfolding getModeSettings_def body
    by (simp add: bindE_def cellsE wr valueIsOne_def returnE_def Let_def)
qed

lemma settingsWorld_readable: "settingsReadable (settingsWorld rows)"
  by (simp add: settingsReadable_def settingsWorld_def demoWorld_def)

lemma settingsWorld_sheet:
  "sheets (settingsWorld rows) SUBFOLDER_SHEET_NAME
     = Some \<lparr>cells = rows, bold = {}, colWidth = Map.empty\<rparr>"
  by (simp add: settingsWorld_def)

theorem getModeSettings_flags_witness:
  "getModeSettings demoPlatform demoWorld
     = (allVisible (SheetNotFound SUBFOLDER_SHEET_NAME), demoWorld)
   \<and> (\<exists>e. fst (getModeSettings demoPlatform (demoWorld\<lparr>faults := (\<lambda>op. op = OpOpenById)\<rparr>))
          = allVisible (Caught e))
   \<and> fst (getModeSettings demoPlatform (settingsWorld modeRows))
     = \<lparr>audio = False, video = True, photo = False, drawing = True, textMode = True,
        modeError = None\<rparr>
   \<and> fst (getModeSettings demoPlatform (settingsWorld []))
     = \<lparr>audio = True, video = False, photo = False, drawing = False, textMode = False,
        modeError = None\<rparr>
   \<and> map_option cells (sheets (snd (getModeSettings demoPlatform (settingsWorld [])))
        SUBFOLDER_SHEET_NAME)
     = Some [[CStr [], CStr [], CStr [], CStr [], CNum 1]]"
proof -
  have 1: "getModeSettings demoPlatform demoWorld
     = (allVisible (SheetNotFound SUBFOLDER_SHEET_NAME), demoWorld)"
    by (rule getModeSettings_flags [THEN conjunct1, rule_format])
       (simp add: demoWorld_def)
  note t = getModeSettings_flags [where P = demoPlatform, THEN conjunct2, THEN conjunct2,
      rule_format, OF conjI, OF settingsWorld_readable settingsWorld_sheet]
  have 2: "fst (getModeSettings demoPlatform (settingsWorld modeRows))
     = \<lparr>audio = False, video = True, photo = False, drawing = True, textMode = True,
        modeError = None\<rparr>"
    using t [of modeRows]
    by (simp add: Let_def cellAt_def modeRows_def demoPlatform_def ascii_def)
  have 3: "getModeSettings demoPlatform (settingsWorld [])
     = (\<lparr>audio = True, video = False, photo = False, drawing = False, textMode = False,
          modeError = None\<rparr>,
        (settingsWorld [])\<lparr>sheets := (sheets (settingsWorld []))(SUBFOLDER_SHEET_NAME \<mapsto>
           setCell 1 5 (CNum 1) \<lparr>cells = [], bold = {}, colWidth = Map.empty\<rparr>)\<rparr>)"
    using t [of "[]"]
    by (simp add: Let_def cellAt_def demoPlatform_def settingsWorld_def demoWorld_def ascii_def)
  have 4: "cells (setCell 1 5 (CNum 1) \<lparr>cells = [], bold = {}, colWidth = Map.empty\<rparr>)
      = [[CStr [], CStr [], CStr [], CStr [], CNum 1]]"
    by (simp add: setCell_def padTo_def Let_def numeral_eq_Suc)
  have 5: "\<exists>e. fst (getModeSettings demoPlatform (demoWorld\<lparr>faults := (\<lambda>op. op = OpOpenById)\<rparr>))
          = allVisible (Caught e)"
    by (rule getModeSettings_flags [THEN conjunct2, THEN conjunct1, rule_format, THEN conjunct1])
       simp
  from 1 2 3 4 5 show ?thesis by simp
qed

section \<open>The history sheet\<close>

lemma setValue_run:
  assumes "sheetsWork w" and "sheets w n = Some sh" and "1 \<le> r" and "1 \<le> c"
  shows "setValue n r c v w = (Inr (), w\<lparr>sheets := (sheets w)(n \<mapsto> setCell r c v sh)\<rparr>)"
  using assms
  by (simp add: sheetsWork_def setValue_def bindE_def platformCall_def withSheet_def putSheet_def
        throwE_def)

lemma setBold_run:
  assumes "sheetsWork w" and "sheets w n = Some sh" and "1 \<le> r" and "1 \<le> c" and "1 \<le> k"
  shows "setBold n r c k w
     = (Inr (), w\<lparr>sheets := (sheets w)(n \<mapsto> sh\<lparr>bold := bold sh \<union> Pair r ` {c..<c + k}\<rparr>)\<rparr>)"
  using assms
  by (simp add: sheetsWork_def setBold_def bindE_def platformCall_def withSheet_def putSheet_def
        throwE_def)

lemma setColumnWidth_run:
  assumes "sheetsWork w" and "sheets w n = Some sh"
  shows "setColumnWidth n c px w
     = (Inr (), w\<lparr>sheets := (sheets w)(n \<mapsto> sh\<lparr>colWidth := (colWidth sh)(c \<mapsto> px)\<rparr>)\<rparr>)"
  using assms
  by (simp add: sheetsWork_def setColumnWidth_def bindE_def platformCall_def withSheet_def
        putSheet_def)

lemma addHeader_run:
  assumes "sheetsWork w" and "sheets w n = Some sh" and "1 \<le> c"
  shows "bindE (setValue n 1 c (CStr h)) (\<lambda>_.
         bindE (setBold n 1 c 1) (\<lambda>_. setColumnWidth n c 100)) w
     = (Inr (), w\<lparr>sheets := (sheets w)(n \<mapsto> withHeader c h sh)\<rparr>)"
  using assms
  by (simp add: sheetsWork_def setValue_def setBold_def setColumnWidth_def bindE_def
        platformCall_def withSheet_def putSheet_def throwE_def withHeader_def setCell_def Let_def)

lemma createHistorySheetIfNotExists_existing:
  assumes "sheetsWork w" and "sheets w HISTORY_SHEET_NAME = Some sh" and "1 \<le> lastColumn sh"
  shows "createHistorySheetIfNotExists w
     = (Inr HISTORY_SHEET_NAME, w\<lparr>sheets := (sheets w)(HISTORY_SHEET_NAME \<mapsto> migrated sh)\<rparr>)"
proof -
  let ?H = HISTORY_SHEET_NAME
  let ?hs = "headerRow sh"
  have n: "length ?hs = lastColumn sh" by (simp add: headerRow_def)
  have same: "w\<lparr>sheets := (sheets w)(?H \<mapsto> sh)\<rparr> = w"
    using assms(2) by (simp add: map_upd_triv)
  have rd: "bindE (getLastColumn ?H) (\<lambda>n. bindE (getRowValues ?H 1 1 n) K) w = K ?hs w" for K
    using assms
    by (simp add: sheetsWork_def getLastColumn_def getRowValues_def bindE_def platformCall_def
          withSheet_def returnE_def headerRow_def)
  have hd: "bindE (setValue ?H 1 c (CStr h)) (\<lambda>_.
         bindE (setBold ?H 1 c 1) (\<lambda>_. setColumnWidth ?H c 100)) w'
     = (Inr (), w'\<lparr>sheets := (sheets w')(?H \<mapsto> withHeader c h s)\<rparr>)"
    if "sheets w' ?H = Some s" "faults w' = faults w" "1 \<le> c" for c h w' s
    by (rule addHeader_run [OF _ that(1,3)]) (use assms(1) that(2) in \<open>simp add: sheetsWork_def\<close>)
  have op1: "bindE openById K w = K () w" for K :: "unit \<Rightarrow> jsstring comp"
    using assms(1) by (simp add: sheetsWork_def openById_def bindE_def platformCall_def)
  have op2: "bindE (getSheetByName ?H) K w = K (if sheets w ?H = None then None else Some ?H) w"
    for K :: "jsstring option \<Rightarrow> jsstring comp"
    using assms(1) by (simp add: sheetsWork_def getSheetByName_def bindE_def platformCall_def)
  have start: "createHistorySheetIfNotExists w =
      bindE (if CStr HEADER_MEDIA_TYPE \<notin> set ?hs
                  then (let newCol = length ?hs + 1 in
                        bindE (setValue ?H 1 newCol (CStr HEADER_MEDIA_TYPE)) (\<lambda>_.
                        bindE (setBold ?H 1 newCol 1) (\<lambda>_.
                        setColumnWidth ?H newCol 100)))
                  else returnE ()) (\<lambda>_.
           bindE (if CStr HEADER_FILE_FORMAT \<notin> set ?hs
                  then (let newCol = (if CStr HEADER_MEDIA_TYPE \<in> set ?hs
                                      then length ?hs else length ?hs + 1) in
                        bindE (setValue ?H 1 newCol (CStr HEADER_FILE_FORMAT)) (\<lambda>_.
                        bindE (setBold ?H 1 newCol 1) (\<lambda>_.
                        setColumnWidth ?H newCol 100)))
                  else returnE ()) (\<lambda>_.
           returnE ?H)) w"
    unfolding createHistorySheetIfNotExists_def
    by (simp only: op1 op2 assms(2) option.distinct if_False option.case rd)
  have step: "bindE (bindE (setValue ?H 1 c (CStr h)) (\<lambda>_.
         bindE (setBold ?H 1 c 1) (\<lambda>_. setColumnWidth ?H c 100))) K w'
     = K () (w'\<lparr>sheets := (sheets w')(?H \<mapsto> withHeader c h s)\<rparr>)"
    if "sheets w' ?H = Some s" "faults w' = faults w" "1 \<le> c"
    for c h w' s and K :: "unit \<Rightarrow> jsstring comp"
    using hd [OF that] by (simp add: bindE_def)
  show ?thesis
  proof (cases "CStr HEADER_MEDIA_TYPE \<in> set ?hs")
    case m: True
    show ?thesis
    proof (cases "CStr HEADER_FILE_FORMAT \<in> set ?hs")
      case True
      with m show ?thesis
        by (simp add: start migrated_def same returnE_apply)
    next
      case False
      from assms(3) n have c: "1 \<le> length ?hs" by simp
      from m False show ?thesis
        unfolding start
        by (simp add: step [OF assms(2) refl c] migrated_def Let_def returnE_apply del: One_nat_def)
    qed
  next
    case m: False
    let ?s1 = "withHeader (length ?hs + 1) HEADER_MEDIA_TYPE sh"
    let ?w1 = "w\<lparr>sheets := (sheets w)(?H \<mapsto> ?s1)\<rparr>"
    have 1: "bindE (bindE (setValue ?H 1 (length ?hs + 1) (CStr HEADER_MEDIA_TYPE)) (\<lambda>_.
         bindE (setBold ?H 1 (length ?hs + 1) 1) (\<lambda>_. setColumnWidth ?H (length ?hs + 1) 100))) K w
     = K () ?w1" for K :: "unit \<Rightarrow> jsstring comp"
      by (rule step [OF assms(2) refl]) simp
    have 2: "bindE (bindE (setValue ?H 1 (length ?hs + 1) (CStr HEADER_FILE_FORMAT)) (\<lambda>_.
         bindE (setBold ?H 1 (length ?hs + 1) 1) (\<lambda>_. setColumnWidth ?H (length ?hs + 1) 100))) K ?w1
     = K () (?w1\<lparr>sheets := (sheets ?w1)(?H \<mapsto> withHeader (length ?hs + 1) HEADER_FILE_FORMAT ?s1)\<rparr>)"
      for K :: "unit \<Rightarrow> jsstring comp"
      by (rule step) simp_all
    show ?thesis
    proof (cases "CStr HEADER_FILE_FORMAT \<in> set ?hs")
      case True
      with m show ?thesis
        unfolding start
        by (simp add: 1 migrated_def Let_def returnE_apply del: One_nat_def)
    next
      case False
      with m show ?thesis
        unfolding start
        by (simp add: 1 2 migrated_def Let_def returnE_apply del: One_nat_def)
    qed
  qed
qed

lemma historyWorld_sheetsWork: "sheetsWork (historyWorld hs)"
  by (simp add: sheetsWork_def historyWorld_def demoWorld_def)

lemma historyWorld_sheet:
  "sheets (historyWorld hs) HISTORY_SHEET_NAME
     = Some \<lparr>cells = [map CStr hs], bold = {}, colWidth = Map.empty\<rparr>"
  by (simp add: historyWorld_def)

lemma rowLast_full:
  assumes "hs \<noteq> []" and "last hs \<noteq> []"
  shows "rowLast (map CStr hs) = length hs"
proof -
  from assms(1) obtain x xs where r: "rev hs = x # xs" by (cases "rev hs") auto
  then have "x = last hs" by (metis last_rev list.sel(1) rev_rev_ident)
  with assms(2) have "\<not> isBlankCell (CStr x)" by (simp add: isBlankCell_def)
  then have "dropWhile isBlankCell (rev (map CStr hs)) = rev (map CStr hs)"
    by (simp add: rev_map r)
  then show ?thesis by (simp add: rowLast_def)
qed

lemma headerRow_single:
  assumes "hs \<noteq> []" and "last hs \<noteq> []"
  shows "headerRow \<lparr>cells = [map CStr hs], bold = B, colWidth = W\<rparr> = map CStr hs"
proof -
  have n: "lastColumn \<lparr>cells = [map CStr hs], bold = B, colWidth = W\<rparr> = length hs"
    by (simp add: lastColumn_def rowLast_full [OF assms])
  show ?thesis
    unfolding headerRow_def n
    by (rule nth_equalityI) (simp_all add: cellAt_def)
qed

lemma setCell_after:
  "cells (setCell 1 (length r + 1) v \<lparr>cells = [r], bold = B, colWidth = W\<rparr>) = [r @ [v]]"
  by (simp add: setCell_def padTo_def Let_def)

lemma setCell_last:
  assumes "r \<noteq> []"
  shows "cells (setCell 1 (length r) v \<lparr>cells = [r], bold = B, colWidth = W\<rparr>) = [butlast r @ [v]]"
proof -
  from assms obtain ys y where r: "r = ys @ [y]" by (metis rev_exhaust)
  show ?thesis by (simp add: setCell_def padTo_def Let_def r)
qed

text \<open>
  What the migration makes of a sheet whose only row is a header row \<open>hs\<close> (with its
  last cell not empty): unchanged when both columns are there; the media type appended
  when only it is missing; the last header replaced by the file format when only the
  file format is missing; and the file format alone appended when both are missing.
\<close>

lemma migrated_single_row:
  assumes "hs \<noteq> []" and "last hs \<noteq> []"
  shows "cells (migrated \<lparr>cells = [map CStr hs], bold = B, colWidth = W\<rparr>) =
     [if HEADER_MEDIA_TYPE \<in> set hs
      then (if HEADER_FILE_FORMAT \<in> set hs then map CStr hs
            else butlast (map CStr hs) @ [CStr HEADER_FILE_FORMAT])
      else (if HEADER_FILE_FORMAT \<in> set hs then map CStr hs @ [CStr HEADER_MEDIA_TYPE]
            else map CStr hs @ [CStr HEADER_FILE_FORMAT])]"
proof -
  let ?sh = "\<lparr>cells = [map CStr hs], bold = B, colWidth = W\<rparr>"
  have mem: "CStr h \<in> CStr ` set hs \<longleftrightarrow> h \<in> set hs" for h by auto
  have a: "cells (withHeader (length hs + 1) h ?sh) = [map CStr hs @ [CStr h]]" for h
    using setCell_after [of "map CStr hs" "CStr h" B W] by (simp add: withHeader_def)
  have b: "cells (withHeader (length hs) h ?sh) = [butlast (map CStr hs) @ [CStr h]]" for h
    using setCell_last [of "map CStr hs" "CStr h" B W] assms(1) by (simp add: withHeader_def)
  have c: "cells (withHeader (length hs + 1) h (withHeader (length hs + 1) h' ?sh))
      = [map CStr hs @ [CStr h]]" for h h'
  proof -
    obtain B' W' where s1: "withHeader (length hs + 1) h' ?sh
        = \<lparr>cells = [map CStr hs @ [CStr h']], bold = B', colWidth = W'\<rparr>"
      using a [of h'] by (cases "withHeader (length hs + 1) h' ?sh") auto
    show ?thesis
      unfolding s1 using setCell_last [of "map CStr hs @ [CStr h']" "CStr h" B' W']
      by (simp add: withHeader_def)
  qed
  show ?thesis
    by (cases "HEADER_MEDIA_TYPE \<in> set hs"; cases "HEADER_FILE_FORMAT \<in> set hs")
       (simp_all add: migrated_def Let_def headerRow_single [OF assms] mem a b c
          del: One_nat_def)
qed

lemma createHistorySheetIfNotExists_current:
  assumes "sheetsWork w" and "sheets w HISTORY_SHEET_NAME = Some sh" and "1 \<le> lastColumn sh"
    and "CStr HEADER_MEDIA_TYPE \<in> set (headerRow sh)"
    and "CStr HEADER_FILE_FORMAT \<in> set (headerRow sh)"
  shows "createHistorySheetIfNotExists w = (Inr HISTORY_SHEET_NAME, w)"
proof -
  from assms(4,5) have "migrated sh = sh" by (simp add: migrated_def)
  moreover from assms(2) have "w\<lparr>sheets := (sheets w)(HISTORY_SHEET_NAME \<mapsto> sh)\<rparr> = w"
    by (simp add: map_upd_triv)
  ultimately show ?thesis
    using createHistorySheetIfNotExists_existing [OF assms(1-3)] by simp
qed

lemma createHistorySheetIfNotExists_single_row:
  assumes "hs \<noteq> []" and "last hs \<noteq> []"
  shows "map_option cells
           (sheets (snd (createHistorySheetIfNotExists (historyWorld hs))) HISTORY_SHEET_NAME) =
     Some [if HEADER_MEDIA_TYPE \<in> set hs
           then (if HEADER_FILE_FORMAT \<in> set hs then map CStr hs
                 else butlast (map CStr hs) @ [CStr HEADER_FILE_FORMAT])
           else (if HEADER_FILE_FORMAT \<in> set hs then map CStr hs @ [CStr HEADER_MEDIA_TYPE]
                 else map CStr hs @ [CStr HEADER_FILE_FORMAT])]"
proof -
  let ?sh = "\<lparr>cells = [map CStr hs], bold = {}, colWidth = Map.empty\<rparr>"
  from assms(1) have "1 \<le> length hs" by (cases hs) simp_all
  then have "1 \<le> lastColumn ?sh"
    by (simp add: lastColumn_def rowLast_full [OF assms])
  from createHistorySheetIfNotExists_existing [OF historyWorld_sheetsWork historyWorld_sheet this]
  show ?thesis
    by (simp add: migrated_single_row [OF assms] del: One_nat_def)
qed

text \<open>
  C1. On a history sheet whose header row is the four first headers and the media type,
  createHistorySheetIfNotExists writes the file format over the media type header; on
  one whose header row is the four first headers only, it writes the media type and
  then the file format into the same fifth column. Either way the header row ends up
  without the media type.
\<close>

theorem migration_overwrites_a_header:
  "map_option cells (sheets (snd (createHistorySheetIfNotExists (historyWorld
       [HEADER_FILE_NAME, HEADER_SAVED_AT, HEADER_FOLDER_PATH, HEADER_FILE_LINK,
        HEADER_MEDIA_TYPE]))) HISTORY_SHEET_NAME)
     = Some [map CStr [HEADER_FILE_NAME, HEADER_SAVED_AT, HEADER_FOLDER_PATH, HEADER_FILE_LINK,
               HEADER_FILE_FORMAT]]
   \<and> map_option cells (sheets (snd (createHistorySheetIfNotExists (historyWorld
       [HEADER_FILE_NAME, HEADER_SAVED_AT, HEADER_FOLDER_PATH, HEADER_FILE_LINK])))
       HISTORY_SHEET_NAME)
     = Some [map CStr [HEADER_FILE_NAME, HEADER_SAVED_AT, HEADER_FOLDER_PATH, HEADER_FILE_LINK,
               HEADER_FILE_FORMAT]]
   \<and> HEADER_MEDIA_TYPE \<notin> set [HEADER_FILE_NAME, HEADER_SAVED_AT, HEADER_FOLDER_PATH,
         HEADER_FILE_LINK, HEADER_FILE_FORMAT]"
proof -
  have d: "HEADER_MEDIA_TYPE \<notin> set [HEADER_FILE_NAME, HEADER_SAVED_AT, HEADER_FOLDER_PATH,
         HEADER_FILE_LINK, HEADER_FILE_FORMAT]"
    "HEADER_FILE_FORMAT \<notin> set [HEADER_FILE_NAME, HEADER_SAVED_AT, HEADER_FOLDER_PATH,
         HEADER_FILE_LINK, HEADER_MEDIA_TYPE]"
    "HEADER_MEDIA_TYPE \<noteq> []" "HEADER_FILE_LINK \<noteq> []"
    by (simp_all add: HEADER_FILE_NAME_def HEADER_SAVED_AT_def HEADER_FOLDER_PATH_def
          HEADER_FILE_LINK_def HEADER_FILE_FORMAT_def HEADER_MEDIA_TYPE_def)
  have 1: "map_option cells (sheets (snd (createHistorySheetIfNotExists (historyWorld
       [HEADER_FILE_NAME, HEADER_SAVED_AT, HEADER_FOLDER_PATH, HEADER_FILE_LINK,
        HEADER_MEDIA_TYPE]))) HISTORY_SHEET_NAME)
     = Some [map CStr [HEADER_FILE_NAME, HEADER_SAVED_AT, HEADER_FOLDER_PATH, HEADER_FILE_LINK,
               HEADER_FILE_FORMAT]]"
    using d by (subst createHistorySheetIfNotExists_single_row) simp_all
  have 2: "map_option cells (sheets (snd (createHistorySheetIfNotExists (historyWorld
       [HEADER_FILE_NAME, HEADER_SAVED_AT, HEADER_FOLDER_PATH, HEADER_FILE_LINK])))
       HISTORY_SHEET_NAME)
     = Some [map CStr [HEADER_FILE_NAME, HEADER_SAVED_AT, HEADER_FOLDER_PATH, HEADER_FILE_LINK,
               HEADER_FILE_FORMAT]]"
    using d by (subst createHistorySheetIfNotExists_single_row) simp_all
  from 1 2 d(1) show ?thesis by blast
qed

section \<open>Failures of the history log\<close>

lemma addRecordToHistorySheet_logs:
  "(\<exists>e. last (logged (snd (addRecordToHistorySheet P a b c d e' f w))) = LogHistoryError e)
   \<or> last (logged (snd (addRecordToHistorySheet P a b c d e' f w))) = LogHistoryRecorded a f e'"
  by (auto simp: addRecordToHistorySheet_def catchE_def bindE_def logE_def Let_def
      split: prod.splits sum.splits)

lemma addRecordToHistorySheet_logs_failure:
  assumes "faults w OpAppendRow"
  shows "\<exists>e l. logged (snd (addRecordToHistorySheet P a b c d e' f w)) = l @ [LogHistoryError e]"
proof -
  obtain r1 w1 where c: "createHistorySheetIfNotExists w = (r1, w1)"
    by (cases "createHistorySheetIfNotExists w")
  have "keeps faults createHistorySheetIfNotExists"
    by (rule keeps_createHistorySheetIfNotExists) simp_all
  from keepsD [OF this c] assms have f1: "faults w1 OpAppendRow" by simp
  have ap: "appendRow sh row w1 = (Inl (PlatformFault OpAppendRow), w1)" for sh row
    using f1 by (simp add: appendRow_def bindE_def platformCall_def)
  have "\<exists>e w2. bindE createHistorySheetIfNotExists (\<lambda>sheet.
        bindE formatNow (\<lambda>formattedTimestamp.
        let folderLinkFormula = hyperlink c b;
            fileLinkFormula = hyperlink d a in
        bindE (appendRow sheet
                 [CStr a, CStr formattedTimestamp, CStr folderLinkFormula,
                  CStr fileLinkFormula, CStr (toUpperCase P e'), CStr f]) (\<lambda>_.
        logE (LogHistoryRecorded a f e')))) w = (Inl e, w2)"
    using c ap
    by (cases r1) (auto simp: bindE_def formatNow_def platformCall_def Let_def)
  then show ?thesis
    by (auto simp: addRecordToHistorySheet_def catchE_def logE_def)
qed

lemma survives_resolveTarget:
  "resolveTarget P lf w = (Inr tgt, w1) \<Longrightarrow>
   survives (bindE (resolveTarget P lf) K) w = survives (K tgt) w1"
  by (simp add: survives_def bindE_def)

lemma survives_write_and_record:
  assumes "\<not> faults w1 OpCreateFile" and "faults w1 OpAppendRow"
    and "\<And>file w2. \<exists>res. success res \<and> K file w2 = (Inr res, w2\<lparr>logged := logged w2 @ L\<rparr>)"
  shows "survives (bindE (createFile P t n m c) (\<lambda>file.
             bindE (addRecordToHistorySheet P n p u (file_url file) fmt lbl) (\<lambda>_. K file))) w1"
proof -
  from assms(1) obtain f where cf: "createFile P t n m c w1 = (Inr f, w1\<lparr>files := files w1 @ [f]\<rparr>)"
    by (auto simp: createFile_def bindE_def platformCall_def Let_def)
  let ?w2 = "w1\<lparr>files := files w1 @ [f]\<rparr>"
  obtain b w3 where h: "addRecordToHistorySheet P n p u (file_url f) fmt lbl ?w2 = (b, w3)"
    by (cases "addRecordToHistorySheet P n p u (file_url f) fmt lbl ?w2")
  from addRecordToHistorySheet_frame [OF h] have b: "b = Inr ()" by simp
  from assms(2) have "faults ?w2 OpAppendRow" by simp
  from addRecordToHistorySheet_logs_failure [OF this, of P n p u "file_url f" fmt lbl] h
  obtain e l where l: "logged w3 = l @ [LogHistoryError e]" by auto
  from assms(3) [of f w3] obtain res where
    res: "success res" "K f w3 = (Inr res, w3\<lparr>logged := logged w3 @ L\<rparr>)" by blast
  have "bindE (createFile P t n m c) (\<lambda>file.
             bindE (addRecordToHistorySheet P n p u (file_url file) fmt lbl) (\<lambda>_. K file)) w1
        = (Inr res, w3\<lparr>logged := logged w3 @ L\<rparr>)"
    by (simp add: bindE_def cf h b res(2))
  with res(1) l show ?thesis by (auto simp: survives_def)
qed

lemma survives_tryCatchSave:
  assumes "survives body w"
  shows "success (fst (tryCatchSave m body w))
         \<and> (\<exists>e. LogHistoryError e \<in> set (logged (snd (tryCatchSave m body w))))"
  using assms by (auto simp: survives_def tryCatchSave_def)

lemma saveTextFile_survives:
  assumes "driveWorks w" and "faults w OpAppendRow" and "s \<noteq> []" and "trim base \<noteq> []"
  shows "success (fst (saveTextFile P (JStr s) (JStr base) w))
         \<and> (\<exists>e. LogHistoryError e \<in> set (logged (snd (saveTextFile P (JStr s) (JStr base) w))))"
proof -
  from resolveTarget_succeeds [OF assms(1), of P False]
  obtain tgt w1 where rt: "resolveTarget P False w = (Inr tgt, w1)" and f1: "faults w1 = faults w"
    by blast
  obtain t p url where tgt: "tgt = (t, p, url)" by (cases tgt)
  from assms(1,2) f1 have cf: "\<not> faults w1 OpCreateFile" "faults w1 OpAppendRow"
    by (simp_all add: driveWorks_def)
  from assms(4) have base: "base \<noteq> []" by (auto simp: trim_def)
  have "survives (saveTextFile_try P (JStr s) (JStr base)) w"
    unfolding saveTextFile_try_def
    by (simp add: assms base survives_resolveTarget [OF rt] tgt Let_def split del: if_split)
       (rule survives_write_and_record [OF cf, where L = "[]"], simp add: returnE_def)
  then show ?thesis unfolding saveTextFile_def by (rule survives_tryCatchSave)
qed

lemma saveAudioFile_survives:
  assumes "driveWorks w" and "faults w OpAppendRow" and "matchDataUrl s = Some (mime, d)"
    and "trim base \<noteq> []" and "base64Decode P d = Some bs"
  shows "success (fst (saveAudioFile P (JStr s) (JStr base) w))
         \<and> (\<exists>e. LogHistoryError e \<in> set (logged (snd (saveAudioFile P (JStr s) (JStr base) w))))"
proof -
  from resolveTarget_succeeds [OF assms(1), of P True]
  obtain tgt w1 where rt: "resolveTarget P True w = (Inr tgt, w1)" and f1: "faults w1 = faults w"
    by blast
  obtain t p url where tgt: "tgt = (t, p, url)" by (cases tgt)
  from assms(1,2) f1 have cf: "\<not> faults w1 OpCreateFile" "faults w1 OpAppendRow"
    by (simp_all add: driveWorks_def)
  from assms(3) have s: "s \<noteq> []"
    by (auto simp: matchDataUrl_def startsWith_def ascii_def split: if_splits)
  from assms(4) have base: "base \<noteq> []" by (auto simp: trim_def)
  define n where "n = (if endsWith (toLowerCase P base) (ascii ''.mp3'')
                       then base else base @ ascii ''.mp3'')"
  have "survives (saveAudioFile_try P (JStr s) (JStr base)) w"
    unfolding saveAudioFile_try_def
    by (simp add: assms s base survives_resolveTarget [OF rt] tgt Let_def n_def [symmetric]
          split del: if_split)
       (rule survives_write_and_record [OF cf, where L = "[LogSaved Audio n]"],
        simp add: returnE_def bindE_def logE_def)
  then show ?thesis unfolding saveAudioFile_def by (rule survives_tryCatchSave)
qed

lemma saveVideoFile_survives:
  assumes "driveWorks w" and "faults w OpAppendRow" and "matchDataUrl s = Some (mime, d)"
    and "truthy b" and "base64Decode P d = Some bs"
    and "withDefault (JStr (ascii ''webm'')) x = JStr ext"
  shows "success (fst (saveVideoFile P (JStr s) b x mt w))
         \<and> (\<exists>e. LogHistoryError e \<in> set (logged (snd (saveVideoFile P (JStr s) b x mt w))))"
proof -
  from resolveTarget_succeeds [OF assms(1), of P False]
  obtain tgt w1 where rt: "resolveTarget P False w = (Inr tgt, w1)" and f1: "faults w1 = faults w"
    by blast
  obtain t p url where tgt: "tgt = (t, p, url)" by (cases tgt)
  from assms(1,2) f1 have cf: "\<not> faults w1 OpCreateFile" "faults w1 OpAppendRow"
    by (simp_all add: driveWorks_def)
  from assms(3) have s: "s \<noteq> []"
    by (auto simp: matchDataUrl_def startsWith_def ascii_def split: if_splits)
  have "survives (saveVideoFile_try P (JStr s) b x mt) w"
    unfolding saveVideoFile_try_def Let_def assms(6)
    by (simp add: assms(1-5) s if_JStr survives_resolveTarget [OF rt] tgt split del: if_split)
       (rule survives_write_and_record [OF cf, where L = "[]"], simp add: returnE_def)
  then show ?thesis unfolding saveVideoFile_def by (rule survives_tryCatchSave)
qed

lemma savePhotoFile_survives:
  assumes "driveWorks w" and "faults w OpAppendRow" and "matchDataUrl s = Some (mime, d)"
    and "truthy b" and "base64Decode P d = Some bs"
    and "withDefault (JStr (ascii ''jpg'')) x = JStr ext"
  shows "success (fst (savePhotoFile P (JStr s) b x w))
         \<and> (\<exists>e. LogHistoryError e \<in> set (logged (snd (savePhotoFile P (JStr s) b x w))))"
proof -
  from resolveTarget_succeeds [OF assms(1), of P False]
  obtain tgt w1 where rt: "resolveTarget P False w = (Inr tgt, w1)" and f1: "faults w1 = faults w"
    by blast
  obtain t p url where tgt: "tgt = (t, p, url)" by (cases tgt)
  from assms(1,2) f1 have cf: "\<not> faults w1 OpCreateFile" "faults w1 OpAppendRow"
    by (simp_all add: driveWorks_def)
  from assms(3) have s: "s \<noteq> []"
    by (auto simp: matchDataUrl_def startsWith_def ascii_def split: if_splits)
  have "survives (savePhotoFile_try P (JStr s) b x) w"
    unfolding savePhotoFile_try_def Let_def assms(6)
    by (simp add: assms(1-5) s if_JStr survives_resolveTarget [OF rt] tgt split del: if_split)
       (rule survives_write_and_record [OF cf, where L = "[]"], simp add: returnE_def)
  then show ?thesis unfolding savePhotoFile_def by (rule survives_tryCatchSave)
qed

lemma saveDrawingFile_survives:
  assumes "driveWorks w" and "faults w OpAppendRow" and "matchPngUrl s = Some (mime, d)"
    and "truthy b" and "base64Decode P d = Some bs"
  shows "success (fst (saveDrawingFile P (JStr s) b w))
         \<and> (\<exists>e. LogHistoryError e \<in> set (logged (snd (saveDrawingFile P (JStr s) b w))))"
proof -
  from resolveTarget_succeeds [OF assms(1), of P False]
  obtain tgt w1 where rt: "resolveTarget P False w = (Inr tgt, w1)" and f1: "faults w1 = faults w"
    by blast
  obtain t p url where tgt: "tgt = (t, p, url)" by (cases tgt)
  from assms(1,2) f1 have cf: "\<not> faults w1 OpCreateFile" "faults w1 OpAppendRow"
    by (simp_all add: driveWorks_def)
  from assms(3) have s: "s \<noteq> []"
    by (auto simp: matchPngUrl_def startsWith_def ascii_def split: if_splits)
  have "survives (saveDrawingFile_try P (JStr s) b) w"
    unfolding saveDrawingFile_try_def
    by (simp add: assms s survives_resolveTarget [OF rt] tgt Let_def split del: if_split)
       (rule survives_write_and_record [OF cf, where L = "[]"], simp add: returnE_def)
  then show ?thesis unfolding saveDrawingFile_def by (rule survives_tryCatchSave)
qed

text \<open>
  C4. addRecordToHistorySheet never throws: whatever fails inside it is caught there and
  logged, and when the append of the row throws the log ends with that error. A save
  whose calls to Drive work therefore returns \<open>success\<close> true also when the append of
  the history row throws; the log then holds the error of the history log.
\<close>

theorem history_failure_stays_inside:
  "fst (addRecordToHistorySheet P fn pt fu u ff mt w) = Inr ()
   \<and> ((\<exists>e. last (logged (snd (addRecordToHistorySheet P fn pt fu u ff mt w))) = LogHistoryError e)
      \<or> last (logged (snd (addRecordToHistorySheet P fn pt fu u ff mt w)))
          = LogHistoryRecorded fn mt ff)
   \<and> (faults w OpAppendRow \<longrightarrow>
        (\<exists>e. last (logged (snd (addRecordToHistorySheet P fn pt fu u ff mt w)))
             = LogHistoryError e))
   \<and> (faults w OpAppendRow \<and> driveWorks w \<longrightarrow>
        (matchDataUrl s = Some (m, d) \<and> base64Decode P d = Some bs \<and> trim base \<noteq> [] \<longrightarrow>
           success (fst (saveAudioFile P (JStr s) (JStr base) w))
           \<and> (\<exists>e. LogHistoryError e
                  \<in> set (logged (snd (saveAudioFile P (JStr s) (JStr base) w)))))
      \<and> (matchDataUrl s = Some (m, d) \<and> base64Decode P d = Some bs \<and> truthy b
            \<and> withDefault (JStr (ascii ''webm'')) x = JStr ext \<longrightarrow>
           success (fst (saveVideoFile P (JStr s) b x mime w))
           \<and> (\<exists>e. LogHistoryError e
                  \<in> set (logged (snd (saveVideoFile P (JStr s) b x mime w)))))
      \<and> (matchDataUrl s = Some (m, d) \<and> base64Decode P d = Some bs \<and> truthy b
            \<and> withDefault (JStr (ascii ''jpg'')) x = JStr ext \<longrightarrow>
           success (fst (savePhotoFile P (JStr s) b x w))
           \<and> (\<exists>e. LogHistoryError e \<in> set (logged (snd (savePhotoFile P (JStr s) b x w)))))
      \<and> (matchPngUrl s = Some (m, d) \<and> base64Decode P d = Some bs \<and> truthy b \<longrightarrow>
           success (fst (saveDrawingFile P (JStr s) b w))
           \<and> (\<exists>e. LogHistoryError e \<in> set (logged (snd (saveDrawingFile P (JStr s) b w)))))
      \<and> (s \<noteq> [] \<and> trim base \<noteq> [] \<longrightarrow>
           success (fst (saveTextFile P (JStr s) (JStr base) w))
           \<and> (\<exists>e. LogHistoryError e
                  \<in> set (logged (snd (saveTextFile P (JStr s) (JStr base) w))))))"
proof (intro conjI impI)
  show "fst (addRecordToHistorySheet P fn pt fu u ff mt w) = Inr ()"
    by (rule addRecordToHistorySheet_returns)
  show "(\<exists>e. last (logged (snd (addRecordToHistorySheet P fn pt fu u ff mt w))) = LogHistoryError e)
      \<or> last (logged (snd (addRecordToHistorySheet P fn pt fu u ff mt w)))
          = LogHistoryRecorded fn mt ff"
    by (rule addRecordToHistorySheet_logs)
next
  assume "faults w OpAppendRow"
  from addRecordToHistorySheet_logs_failure [OF this, of P fn pt fu u ff mt]
  show "\<exists>e. last (logged (snd (addRecordToHistorySheet P fn pt fu u ff mt w)))
             = LogHistoryError e"
    by auto
next
  assume a: "faults w OpAppendRow \<and> driveWorks w"
    and b: "matchDataUrl s = Some (m, d) \<and> base64Decode P d = Some bs \<and> trim base \<noteq> []"
  from saveAudioFile_survives [of w s m d base P bs] a b
  show "success (fst (saveAudioFile P (JStr s) (JStr base) w))"
    and "\<exists>e. LogHistoryError e \<in> set (logged (snd (saveAudioFile P (JStr s) (JStr base) w)))"
    by simp_all
next
  assume a: "faults w OpAppendRow \<and> driveWorks w"
    and b: "matchDataUrl s = Some (m, d) \<and> base64Decode P d = Some bs \<and> truthy b
            \<and> withDefault (JStr (ascii ''webm'')) x = JStr ext"
  from saveVideoFile_survives [of w s m d b P bs x ext mime] a b
  show "success (fst (saveVideoFile P (JStr s) b x mime w))"
    and "\<exists>e. LogHistoryError e \<in> set (logged (snd (saveVideoFile P (JStr s) b x mime w)))"
    by simp_all
next
  assume a: "faults w OpAppendRow \<and> driveWorks w"
    and b: "matchDataUrl s = Some (m, d) \<and> base64Decode P d = Some bs \<and> truthy b
            \<and> withDefault (JStr (ascii ''jpg'')) x = JStr ext"
  from savePhotoFile_survives [of w s m d b P bs x ext] a b
  show "success (fst (savePhotoFile P (JStr s) b x w))"
    and "\<exists>e. LogHistoryError e \<in> set (logged (snd (savePhotoFile P (JStr s) b x w)))"
    by simp_all
next
  assume a: "faults w OpAppendRow \<and> driveWorks w"
    and b: "matchPngUrl s = Some (m, d) \<and> base64Decode P d = Some bs \<and> truthy b"
  from saveDrawingFile_survives [of w s m d b P bs] a b
  show "success (fst (saveDrawingFile P (JStr s) b w))"
    and "\<exists>e. LogHistoryError e \<in> set (logged (snd (saveDrawingFile P (JStr s) b w)))"
    by simp_all
next
  assume a: "faults w OpAppendRow \<and> driveWorks w" and b: "s \<noteq> [] \<and> trim base \<noteq> []"
  from saveTextFile_survives [of w s base P] a b
  show "success (fst (saveTextFile P (JStr s) (JStr base) w))"
    and "\<exists>e. LogHistoryError e \<in> set (logged (snd (saveTextFile P (JStr s) (JStr base) w)))"
    by simp_all
qed

theorem history_failure_stays_inside_witness:
  "faults appendFailsWorld OpAppendRow
   \<and> fst (addRecordToHistorySheet demoPlatform (ascii ''memo.txt'') (ascii ''Media'')
        (ascii ''https://drive.example/1'') (ascii ''https://drive.example/2'') (ascii ''TXT'')
        (mediaLabel TextFile) appendFailsWorld) = Inr ()
   \<and> (\<exists>e. last (logged (snd (addRecordToHistorySheet demoPlatform (ascii ''memo.txt'')
        (ascii ''Media'') (ascii ''https://drive.example/1'') (ascii ''https://drive.example/2'')
        (ascii ''TXT'') (mediaLabel TextFile) appendFailsWorld))) = LogHistoryError e)
   \<and> success (fst (saveTextFile demoPlatform (JStr (ascii ''hello'')) (JStr (ascii ''memo''))
        appendFailsWorld))
   \<and> (\<exists>e. LogHistoryError e \<in> set (logged (snd (saveTextFile demoPlatform
        (JStr (ascii ''hello'')) (JStr (ascii ''memo'')) appendFailsWorld))))
   \<and> success (fst (saveAudioFile demoPlatform (JStr (ascii ''data:audio/mp3;base64,AAAA''))
        (JStr (ascii ''note'')) appendFailsWorld))"
proof -
  have f: "faults appendFailsWorld OpAppendRow"
    by (simp add: appendFailsWorld_def)
  have fd: "faults appendFailsWorld OpAppendRow \<and> driveWorks appendFailsWorld"
    by (simp add: appendFailsWorld_def driveWorks_def)
  note t = history_failure_stays_inside [where P = demoPlatform and w = appendFailsWorld]
  note hist = t [THEN conjunct1] t [THEN conjunct2, THEN conjunct2, THEN conjunct1, rule_format, OF f]
  have tx: "ascii ''hello'' \<noteq> [] \<and> trim (ascii ''memo'') \<noteq> []"
    by (simp add: trim_eq_Nil_conv ascii_def isWhiteSpace_def isLineTerminator_def)
  note saved = t [THEN conjunct2, THEN conjunct2, THEN conjunct2, rule_format, OF fd,
      THEN conjunct2, THEN conjunct2, THEN conjunct2, THEN conjunct2, rule_format, OF tx]
  have au: "matchDataUrl (ascii ''data:audio/mp3;base64,AAAA'') = Some (ascii ''audio/mp3'', ascii ''AAAA'')
      \<and> base64Decode demoPlatform (ascii ''AAAA'') = Some [0, 0, 0] \<and> trim (ascii ''note'') \<noteq> []"
    by (simp add: match_mp3 demoPlatform_decode trim_note)
  note aud = t [THEN conjunct2, THEN conjunct2, THEN conjunct2, rule_format, OF fd,
      THEN conjunct1, rule_format, OF au]
  from f hist saved aud show ?thesis by simp
qed

end
